(* ===== verification/Prelude.thy ===== *)
theory Prelude
  imports Main "HOL-Library.Word" "HOL-Library.Monad_Syntax"
begin

text \<open>
  Shared vocabulary of the development: the machine integer types of
  \<^verbatim>\<open>source/base/types.h\<close>, the failure monad used for the runtime's ASSERT and PANIC
  (\<^const>\<open>None\<close> is an abort, and also the result of a C++ shift whose count reaches the
  operand width, which the language leaves undefined), and generic facts about words, lists
  and functions that the component theories share.
\<close>

unbundle bit_operations_syntax

type_synonym u8 = "8 word"
type_synonym u16 = "16 word"
type_synonym u32 = "32 word"
type_synonym u64 = "64 word"
type_synonym u128 = "128 word"

named_theorems run_defs "defining equations of the interpreter's handlers"
named_theorems word_nat "transfer of word comparisons and sums to naturals"

section \<open>Assertions and checked shifts\<close>

definition ASSERT :: "bool \<Rightarrow> unit option" where
  "ASSERT b = (if b then Some () else None)"

lemma ASSERT_simps [simp]: "ASSERT True = Some ()" "ASSERT False = None"
  by (simp_all add: ASSERT_def)

lemma ASSERT_bind_eq_Some [simp]:
  "Option.bind (ASSERT b) f = Some x \<longleftrightarrow> b \<and> f () = Some x"
  by (simp add: ASSERT_def)

lemma ASSERT_eq_Some [simp]: "ASSERT b = Some x \<longleftrightarrow> b"
  by (simp add: ASSERT_def)

text \<open>The C++ shift operators on \<^verbatim>\<open>u64\<close>: defined only for counts below the width.\<close>

definition shl :: "u64 \<Rightarrow> nat \<Rightarrow> u64 option" where
  "shl x n = (if n < 64 then Some (push_bit n x) else None)"

definition shr :: "u64 \<Rightarrow> nat \<Rightarrow> u64 option" where
  "shr x n = (if n < 64 then Some (drop_bit n x) else None)"

definition asr :: "u64 \<Rightarrow> nat \<Rightarrow> u64 option" where
  "asr x n = (if n < 64 then Some (signed_drop_bit n x) else None)"

definition of_bool64 :: "bool \<Rightarrow> u64" where
  "of_bool64 b = (if b then 1 else 0)"

lemma shl_eq_Some [simp]: "shl x n = Some y \<longleftrightarrow> n < 64 \<and> y = push_bit n x"
  by (auto simp: shl_def)

lemma shr_eq_Some [simp]: "shr x n = Some y \<longleftrightarrow> n < 64 \<and> y = drop_bit n x"
  by (auto simp: shr_def)

lemma asr_eq_Some [simp]: "asr x n = Some y \<longleftrightarrow> n < 64 \<and> y = signed_drop_bit n x"
  by (auto simp: asr_def)

lemma of_bool64_eq [simp]:
  "of_bool64 b = 0 \<longleftrightarrow> \<not> b" "of_bool64 b \<noteq> 0 \<longleftrightarrow> b" "of_bool64 b = 1 \<longleftrightarrow> b"
  by (simp_all add: of_bool64_def)

section \<open>Words\<close>

lemma unat_add_no_wrap [word_nat]:
  fixes x y :: "'a::len word"
  shows "unat x + unat y < 2 ^ LENGTH('a) \<Longrightarrow> unat (x + y) = unat x + unat y"
  by (simp add: unat_word_ariths)

lemma unat_sub_no_wrap [word_nat]:
  fixes x y :: "'a::len word"
  shows "y \<le> x \<Longrightarrow> unat (x - y) = unat x - unat y"
  by (rule unat_sub)

lemma bit_mask_and_iff:
  fixes w :: "'a::len word"
  shows "bit (w AND mask n) k \<longleftrightarrow> k < n \<and> bit w k"
  by (auto simp: bit_and_iff bit_mask_iff dest: bit_imp_le_length)

lemma and_mask_idem [simp]:
  fixes w :: "'a::len word"
  shows "w AND mask n AND mask n = w AND mask n"
  by (simp add: and.assoc)

lemma unat_and_mask:
  fixes w :: "'a::len word"
  shows "unat (w AND mask n) = unat w mod 2 ^ n"
  by (metis take_bit_eq_mask unsigned_take_bit_eq take_bit_eq_mod)

lemma and_one_eq_of_bool:
  fixes w :: "'a::len word"
  shows "w AND 1 = (if bit w 0 then 1 else 0)"
  by (rule bit_word_eqI) (auto simp: bit_and_iff bit_1_iff intro: Nat.gr0I)

section \<open>Lists\<close>

lemma nth_default_update [simp]:
  "i < length xs \<Longrightarrow> (xs[i := v]) ! j = (if i = j then v else xs ! j)"
  by (simp add: nth_list_update)

end
