(* ===== verification/IR_Types.thy ===== *)
theory IR_Types
  imports Prelude
begin

text \<open>
  The vocabulary of the intermediate representation: value and argument types
  (\<^verbatim>\<open>runtime/ir/ir_types.h\<close>, \<^verbatim>\<open>ir_meta.cpp\<close>), immediates, values, operands, lambdas and
  their helper-call traits (\<^verbatim>\<open>args.h\<close>, \<^verbatim>\<open>args.cpp\<close>), and the instruction set of
  \<^verbatim>\<open>ir.inc\<close> with the signature table the runtime projects from it.  A pointer to an
  instruction is a natural number, the address of the instruction in an IR store.
\<close>

section \<open>Value types\<close>

datatype ArgType = ArgVoid | ArgValue | ArgImm | ArgUniform | ArgLocal | ArgCond | ArgFlags
  | ArgOperand | ArgLambda | ArgParams

definition PhysicalSlots :: "ArgType \<Rightarrow> nat" where
  "PhysicalSlots t = (if t = ArgOperand then 3 else 1)"

datatype ValueType = VOID | U8 | U16 | U32 | U64 | S8 | S16 | S32 | S64
  | V8 | V16 | V32 | V64 | V128 | V256

text \<open>The enumerators are ordered by declaration; the code compares them with \<open>\<le>\<close>.\<close>

fun vt_code :: "ValueType \<Rightarrow> nat" where
  "vt_code VOID = 0" | "vt_code U8 = 1" | "vt_code U16 = 2" | "vt_code U32 = 3"
| "vt_code U64 = 4" | "vt_code S8 = 5" | "vt_code S16 = 6" | "vt_code S32 = 7"
| "vt_code S64 = 8" | "vt_code V8 = 9" | "vt_code V16 = 10" | "vt_code V32 = 11"
| "vt_code V64 = 12" | "vt_code V128 = 13" | "vt_code V256 = 14"

lemma vt_code_inject: "vt_code a = vt_code b \<Longrightarrow> a = b"
  by (cases a; cases b) simp_all

instantiation ValueType :: linorder
begin

definition less_eq_ValueType :: "ValueType \<Rightarrow> ValueType \<Rightarrow> bool" where
  "less_eq_ValueType a b = (vt_code a \<le> vt_code b)"

definition less_ValueType :: "ValueType \<Rightarrow> ValueType \<Rightarrow> bool" where
  "less_ValueType a b = (vt_code a < vt_code b)"

instance
  by standard (auto simp: less_eq_ValueType_def less_ValueType_def intro: vt_code_inject)

end

definition GetValueSizePow :: "ValueType \<Rightarrow> nat option" where
  "GetValueSizePow t =
    (if U8 \<le> t \<and> t \<le> U64 then Some (vt_code t - vt_code U8)
     else if S8 \<le> t \<and> t \<le> S64 then Some (vt_code t - vt_code S8)
     else if V8 \<le> t \<and> t \<le> V256 then Some (vt_code t - vt_code V8)
     else None)"

definition GetValueSizeByte :: "ValueType \<Rightarrow> nat option" where
  "GetValueSizeByte t = map_option (\<lambda>p. 2 ^ p) (GetValueSizePow t)"

definition GetIRValueType :: "nat \<Rightarrow> ValueType" where
  "GetIRValueType size_byte =
    (if size_byte = 1 then U8 else if size_byte = 2 then U16
     else if size_byte = 4 then U32 else if size_byte = 8 then U64 else VOID)"

definition GetVecIRValueType :: "nat \<Rightarrow> ValueType" where
  "GetVecIRValueType size_byte =
    (if size_byte = 1 then V8 else if size_byte = 2 then V16
     else if size_byte = 4 then V32 else if size_byte = 8 then V64
     else if size_byte = 16 then V128 else if size_byte = 32 then V256 else VOID)"

definition GetSignedIRValueType :: "nat \<Rightarrow> ValueType" where
  "GetSignedIRValueType size_byte =
    (if size_byte = 1 then S8 else if size_byte = 2 then S16
     else if size_byte = 4 then S32 else if size_byte = 8 then S64 else VOID)"

definition IsFloatValueType :: "ValueType \<Rightarrow> bool" where
  "IsFloatValueType t = (V8 \<le> t \<and> t \<le> V256)"

definition IsSignValueType :: "ValueType \<Rightarrow> bool" where
  "IsSignValueType t = (S8 \<le> t \<and> t \<le> S64)"

lemmas ValueType_order = less_eq_ValueType_def less_ValueType_def

lemma GetValueSizeByte_simps [simp]:
  "GetValueSizeByte VOID = None"
  "GetValueSizeByte U8 = Some 1" "GetValueSizeByte U16 = Some 2"
  "GetValueSizeByte U32 = Some 4" "GetValueSizeByte U64 = Some 8"
  "GetValueSizeByte S8 = Some 1" "GetValueSizeByte S16 = Some 2"
  "GetValueSizeByte S32 = Some 4" "GetValueSizeByte S64 = Some 8"
  "GetValueSizeByte V8 = Some 1" "GetValueSizeByte V16 = Some 2"
  "GetValueSizeByte V32 = Some 4" "GetValueSizeByte V64 = Some 8"
  "GetValueSizeByte V128 = Some 16" "GetValueSizeByte V256 = Some 32"
  by (simp_all add: GetValueSizeByte_def GetValueSizePow_def ValueType_order)

section \<open>Arguments\<close>

datatype Cond = EQ | NE | CS | CC | MI | PL | VS | VC | HI | LS | GE | LT | GT | LE | AL | NV

text \<open>An immediate: its type tag and the eight bytes of the union.\<close>

record Imm =
  imm_type :: ValueType
  imm_u64 :: u64

definition Imm_u8 :: "u8 \<Rightarrow> Imm" where "Imm_u8 v = \<lparr>imm_type = U8, imm_u64 = ucast v\<rparr>"
definition Imm_u16 :: "u16 \<Rightarrow> Imm" where "Imm_u16 v = \<lparr>imm_type = U16, imm_u64 = ucast v\<rparr>"
definition Imm_u32 :: "u32 \<Rightarrow> Imm" where "Imm_u32 v = \<lparr>imm_type = U32, imm_u64 = ucast v\<rparr>"
definition Imm_u64 :: "u64 \<Rightarrow> Imm" where "Imm_u64 v = \<lparr>imm_type = U64, imm_u64 = v\<rparr>"
definition Imm_sized :: "u64 \<Rightarrow> ValueType \<Rightarrow> Imm" where
  "Imm_sized v t = \<lparr>imm_type = t, imm_u64 = v\<rparr>"

text \<open>
  Reading a narrower member of the union reads the low bytes of the little-endian storage.
\<close>

definition Imm_Get :: "Imm \<Rightarrow> u64" where
  "Imm_Get i = (case imm_type i of
      U8 \<Rightarrow> take_bit 8 (imm_u64 i) | U16 \<Rightarrow> take_bit 16 (imm_u64 i)
    | U32 \<Rightarrow> take_bit 32 (imm_u64 i) | U64 \<Rightarrow> imm_u64 i
    | S8 \<Rightarrow> take_bit 8 (imm_u64 i) | S16 \<Rightarrow> take_bit 16 (imm_u64 i)
    | S32 \<Rightarrow> take_bit 32 (imm_u64 i) | S64 \<Rightarrow> imm_u64 i
    | _ \<Rightarrow> 0)"

definition Imm_IsSigned :: "Imm \<Rightarrow> bool" where
  "Imm_IsSigned i = (S8 \<le> imm_type i \<and> imm_type i \<le> S64)"

definition Imm_GetSigned :: "Imm \<Rightarrow> int" where
  "Imm_GetSigned i =
    (if \<not> Imm_IsSigned i then sint (Imm_Get i)
     else case imm_type i of
        S8 \<Rightarrow> sint (ucast (imm_u64 i) :: u8) | S16 \<Rightarrow> sint (ucast (imm_u64 i) :: u16)
      | S32 \<Rightarrow> sint (ucast (imm_u64 i) :: u32) | S64 \<Rightarrow> sint (imm_u64 i)
      | _ \<Rightarrow> 0)"

definition Imm_IsNegate :: "Imm \<Rightarrow> bool" where
  "Imm_IsNegate i = (if Imm_IsSigned i then Imm_GetSigned i < 0 else False)"

text \<open>
  A value names the instruction that defines it, with an optional cast type.  Values stored in
  arguments are never null: \<^verbatim>\<open>Inst::Use\<close> asserts their definition when they are attached.
\<close>

type_synonym InstPtr = nat

datatype Value = Value (Def: InstPtr) (cast_type: ValueType)

datatype DataClass = DNull | DValue Value | DImm Imm

record Uniform =
  uniform_offset :: u32
  uniform_type :: ValueType

record Local =
  local_id :: u16
  local_type :: ValueType

datatype OperandOpType = OpNone | OpPlus | OpLSL | OpLSR | OpPlusExt

record OperandOp =
  op_type :: OperandOpType
  shift_ext :: u8

record Operand =
  operand_op :: OperandOp
  operand_left :: DataClass
  operand_right :: DataClass

section \<open>Helper-call traits of a lambda\<close>

datatype HelperABI = NormalAAPCS | PreserveAllLeaf
datatype HostFpEffect = FpMayTouch | FPCRTransparent
datatype HostRegisterEffect = MayTouchSIMD | GeneralOnly | PreservesPinnedState
datatype HelperGuestStateEffect = MayReadWrite | ReadOnly | WriteOnly | NoGuestState
datatype HelperFaultEffect = MayFault | NoDirectFault
datatype HelperReentryEffect = MayReenter | NoReentry
datatype HostFlagsEffect = FlagsMayTouch | PreservesNZCV

record HelperCallTraits =
  traits_uniform :: u8
  traits_abi :: HelperABI
  traits_host_fp :: HostFpEffect
  traits_host_registers :: HostRegisterEffect
  traits_guest_state :: HelperGuestStateEffect
  traits_fault :: HelperFaultEffect
  traits_reentry :: HelperReentryEffect
  traits_host_flags :: HostFlagsEffect

text \<open>
  A lambda keeps its callee as a \<^typ>\<open>DataClass\<close> whose type byte doubles as a tag byte; the
  tag byte is \<^verbatim>\<open>address.type\<close>, the payload the union beside it.
\<close>

record Lambda =
  address_type :: u8
  address_data :: DataClass
  helper_effects :: u8

definition kUniformEffectTag :: u8 where "kUniformEffectTag = 0x80"
definition kHelperABITag :: u8 where "kHelperABITag = 0x40"
definition kHostFpTransparentTag :: u8 where "kHostFpTransparentTag = 0x20"
definition kHostGeneralRegistersTag :: u8 where "kHostGeneralRegistersTag = 0x10"
definition kHostPreservesPinnedStateTag :: u8 where "kHostPreservesPinnedStateTag = 0x08"
definition kUniformEffectMask :: u8 where "kUniformEffectMask = 0x07"
definition kGuestStateEffectMask :: u8 where "kGuestStateEffectMask = 0x03"
definition kNoDirectFaultTag :: u8 where "kNoDirectFaultTag = 0x04"
definition kNoReentryTag :: u8 where "kNoReentryTag = 0x08"
definition kHostPreservesNZCVTag :: u8 where "kHostPreservesNZCVTag = 0x10"

lemmas lambda_tags = kUniformEffectTag_def kHelperABITag_def kHostFpTransparentTag_def
  kHostGeneralRegistersTag_def kHostPreservesPinnedStateTag_def kUniformEffectMask_def
  kGuestStateEffectMask_def kNoDirectFaultTag_def kNoReentryTag_def kHostPreservesNZCVTag_def

fun data_class_type :: "DataClass \<Rightarrow> u8" where
  "data_class_type DNull = 0" | "data_class_type (DValue _) = 1" | "data_class_type (DImm _) = 2"

definition Lambda_of :: "DataClass \<Rightarrow> Lambda" where
  "Lambda_of d = \<lparr>address_type = data_class_type d, address_data = d, helper_effects = 0\<rparr>"

fun guest_state_code :: "HelperGuestStateEffect \<Rightarrow> u8" where
  "guest_state_code MayReadWrite = 0" | "guest_state_code ReadOnly = 1"
| "guest_state_code WriteOnly = 2" | "guest_state_code NoGuestState = 3"

definition guest_state_of :: "u8 \<Rightarrow> HelperGuestStateEffect" where
  "guest_state_of c = (if c = 0 then MayReadWrite else if c = 1 then ReadOnly
     else if c = 2 then WriteOnly else NoGuestState)"

definition tag_if :: "bool \<Rightarrow> u8 \<Rightarrow> u8" where
  "tag_if b t = (if b then t else 0)"

definition lambda_tag_byte :: "HelperCallTraits \<Rightarrow> u8" where
  "lambda_tag_byte tr =
     tag_if (traits_uniform tr \<noteq> 0) (kUniformEffectTag OR traits_uniform tr)
     OR tag_if (traits_abi tr = PreserveAllLeaf) kHelperABITag
     OR tag_if (traits_host_fp tr = FPCRTransparent) kHostFpTransparentTag
     OR (if traits_host_registers tr = GeneralOnly then kHostGeneralRegistersTag
         else tag_if (traits_host_registers tr = PreservesPinnedState) kHostPreservesPinnedStateTag)"

definition lambda_effect_byte :: "HelperCallTraits \<Rightarrow> u8" where
  "lambda_effect_byte tr =
     (guest_state_code (traits_guest_state tr) AND kGuestStateEffectMask)
     OR tag_if (traits_fault tr = NoDirectFault) kNoDirectFaultTag
     OR tag_if (traits_reentry tr = NoReentry) kNoReentryTag
     OR tag_if (traits_host_flags tr = PreservesNZCV) kHostPreservesNZCVTag"

definition Lambda_traits :: "DataClass \<Rightarrow> HelperCallTraits \<Rightarrow> Lambda option" where
  "Lambda_traits d tr = do {
     ASSERT (data_class_type d = 2);
     ASSERT (traits_uniform tr \<noteq> 0 \<longrightarrow> 0 < traits_uniform tr \<and> traits_uniform tr \<le> kUniformEffectMask);
     let tags = lambda_tag_byte tr;
     Some \<lparr>address_type = (if tags \<noteq> 0 then tags else data_class_type d),
           address_data = d, helper_effects = lambda_effect_byte tr\<rparr> }"

definition IsTaggedImm :: "Lambda \<Rightarrow> bool" where
  "IsTaggedImm l = (address_type l AND
     (kUniformEffectTag OR kHelperABITag OR kHostFpTransparentTag OR
      kHostGeneralRegistersTag OR kHostPreservesPinnedStateTag) \<noteq> 0)"

definition Lambda_IsValue :: "Lambda \<Rightarrow> bool" where
  "Lambda_IsValue l = (address_type l = 1)"

definition Lambda_GetImm :: "Lambda \<Rightarrow> Imm option" where
  "Lambda_GetImm l =
     (if address_type l = 2 \<or> IsTaggedImm l
      then (case address_data l of DImm i \<Rightarrow> Some i | _ \<Rightarrow> None) else None)"

definition Lambda_GetValue :: "Lambda \<Rightarrow> Value option" where
  "Lambda_GetValue l =
     (if address_type l = 1 then (case address_data l of DValue v \<Rightarrow> Some v | _ \<Rightarrow> None) else None)"

definition GetUniformEffectId :: "Lambda \<Rightarrow> u8" where
  "GetUniformEffectId l =
     (if address_type l AND kUniformEffectTag = 0 then 0 else address_type l AND kUniformEffectMask)"

definition GetHelperABI :: "Lambda \<Rightarrow> HelperABI" where
  "GetHelperABI l =
     (if address_type l AND kHelperABITag \<noteq> 0 then PreserveAllLeaf else NormalAAPCS)"

definition GetHostFpEffect :: "Lambda \<Rightarrow> HostFpEffect" where
  "GetHostFpEffect l =
     (if address_type l AND kHostFpTransparentTag \<noteq> 0 then FPCRTransparent else FpMayTouch)"

definition GetHostRegisterEffect :: "Lambda \<Rightarrow> HostRegisterEffect" where
  "GetHostRegisterEffect l =
     (if address_type l AND kHostGeneralRegistersTag \<noteq> 0 then GeneralOnly
      else if address_type l AND kHostPreservesPinnedStateTag \<noteq> 0 then PreservesPinnedState
      else MayTouchSIMD)"

definition GetHelperGuestStateEffect :: "Lambda \<Rightarrow> HelperGuestStateEffect" where
  "GetHelperGuestStateEffect l = guest_state_of (helper_effects l AND kGuestStateEffectMask)"

definition GetHelperFaultEffect :: "Lambda \<Rightarrow> HelperFaultEffect" where
  "GetHelperFaultEffect l =
     (if helper_effects l AND kNoDirectFaultTag \<noteq> 0 then NoDirectFault else MayFault)"

definition GetHelperReentryEffect :: "Lambda \<Rightarrow> HelperReentryEffect" where
  "GetHelperReentryEffect l =
     (if helper_effects l AND kNoReentryTag \<noteq> 0 then NoReentry else MayReenter)"

definition GetHostFlagsEffect :: "Lambda \<Rightarrow> HostFlagsEffect" where
  "GetHostFlagsEffect l =
     (if helper_effects l AND kHostPreservesNZCVTag \<noteq> 0 then PreservesNZCV else FlagsMayTouch)"

definition Lambda_traits_of :: "Lambda \<Rightarrow> HelperCallTraits" where
  "Lambda_traits_of l = \<lparr>traits_uniform = GetUniformEffectId l, traits_abi = GetHelperABI l,
     traits_host_fp = GetHostFpEffect l, traits_host_registers = GetHostRegisterEffect l,
     traits_guest_state = GetHelperGuestStateEffect l, traits_fault = GetHelperFaultEffect l,
     traits_reentry = GetHelperReentryEffect l, traits_host_flags = GetHostFlagsEffect l\<rparr>"

section \<open>Argument slots\<close>

type_synonym Params = "DataClass list"

datatype Arg = AVoid | AValue Value | AImm Imm | ACond Cond | AFlags u64 | AOperandOp OperandOp
  | ALocal Local | AUniform Uniform | ALambda Lambda | AParams Params

fun Arg_GetType :: "Arg \<Rightarrow> ArgType" where
  "Arg_GetType AVoid = ArgVoid" | "Arg_GetType (AValue _) = ArgValue"
| "Arg_GetType (AImm _) = ArgImm" | "Arg_GetType (ACond _) = ArgCond"
| "Arg_GetType (AFlags _) = ArgFlags" | "Arg_GetType (AOperandOp _) = ArgOperand"
| "Arg_GetType (ALocal _) = ArgLocal" | "Arg_GetType (AUniform _) = ArgUniform"
| "Arg_GetType (ALambda _) = ArgLambda" | "Arg_GetType (AParams _) = ArgParams"

fun ToDataClass :: "Arg \<Rightarrow> DataClass option" where
  "ToDataClass (AValue v) = Some (DValue v)" | "ToDataClass (AImm i) = Some (DImm i)"
| "ToDataClass AVoid = Some DNull" | "ToDataClass _ = None"

fun ToArgClass :: "DataClass \<Rightarrow> Arg" where
  "ToArgClass (DValue v) = AValue v" | "ToArgClass (DImm i) = AImm i" | "ToArgClass DNull = AVoid"

lemma ToDataClass_ToArgClass [simp]: "ToDataClass (ToArgClass d) = Some d"
  by (cases d) simp_all

section \<open>Flags\<close>

definition Flags_None :: u64 where "Flags_None = 0"
definition Flags_Carry :: u64 where "Flags_Carry = 1"
definition Flags_Overflow :: u64 where "Flags_Overflow = 2"
definition Flags_Zero :: u64 where "Flags_Zero = 4"
definition Flags_Negate :: u64 where "Flags_Negate = 8"
definition Flags_Parity :: u64 where "Flags_Parity = 16"
definition Flags_Positive :: u64 where "Flags_Positive = 32"
definition Flags_AuxiliaryCarry :: u64 where "Flags_AuxiliaryCarry = 64"
definition Flags_NZ :: u64 where "Flags_NZ = Flags_Zero OR Flags_Negate"
definition Flags_CV :: u64 where "Flags_CV = Flags_Carry OR Flags_Overflow"
definition Flags_NZCV :: u64 where
  "Flags_NZCV = Flags_Carry OR Flags_Overflow OR Flags_Zero OR Flags_Negate"
definition Flags_All :: u64 where
  "Flags_All = Flags_Carry OR Flags_Overflow OR Flags_Zero OR Flags_Negate OR Flags_Parity
     OR Flags_AuxiliaryCarry"

lemmas Flags_defs = Flags_None_def Flags_Carry_def Flags_Overflow_def Flags_Zero_def
  Flags_Negate_def Flags_Parity_def Flags_Positive_def Flags_AuxiliaryCarry_def Flags_NZ_def
  Flags_CV_def Flags_NZCV_def Flags_All_def

definition has_flag :: "u64 \<Rightarrow> u64 \<Rightarrow> bool" where
  "has_flag flags f = (flags AND f \<noteq> 0)"

section \<open>Instruction set\<close>

text \<open>
  The opcodes of \<^verbatim>\<open>ir.inc\<close>, grouped by the sections of that file; \<^verbatim>\<open>Void\<close> is the opcode
  of a reset instruction.
\<close>

datatype MemOp =
  DefineLocal | LoadLocal | StoreLocal | LoadUniform | StoreUniform | GetUniformAddress | X87Op
  | LoadMemory | StoreMemory | LoadMemoryTSO | StoreMemoryTSO | MemoryCopy | MemoryCopyTSO
  | MemoryBarrierTSO | CompareAndSwap | CompareAndSwap128 | CheckMemoryAlignment
  | AtomicExchange | AtomicFetchAdd | AtomicRMW

datatype HelpOp =
  UniformBarrier | Goto | NotGoto | Select | SelectZero | CondSelect | BindLabel | CallLambda
  | Sse42Str | CallLocation | CallDynamic | AddPhi | Nop | AdvancePC | SetLocation
  | GetLocation | Zero | GetHostGPR | GetHostFPR | SetHostGPR | SetHostFPR | BitCast
  | GetOperand | GetResult | LoadImm | PushRSB | CallReturn | PopRSB

datatype CalcOp =
  Add | Sub | Adc | Sbb | Mul | MulSub | Div | SignedDiv64 | Div128 | Div128Remainder | Cpuid
  | CpuidUpper | ZeroExtend32 | ZeroExtend32To64 | ZeroExtend64 | SignExtend | And | Or | Xor
  | Not_op | AndNot | MulHigh | Neg_op

datatype FlagOp =
  GetFlags | SaveFlags | BranchOnlyFlags | TestFlags | TestNotFlags | ClearFlags | SetCarry
  | SetOverflow | InvertCarry | PublishFCmpFlags | PublishSse42StrFlags | CondSet
  | LocalCondSet | LocalParitySet | BranchOnlyEdges | FCmpCondSet

datatype BitOp =
  LslImm | LslValue | LsrImm | LsrValue | AsrImm | AsrValue | RorImm | RorValue | ByteSwap
  | CountLeadingZeros64 | CountTrailingZeros64 | CountLeadingZeros32 | CountTrailingZeros32
  | BitExtract | BitInsert | BitClear | TestBit | TestZero | TestNotZero

datatype VecOp =
  Vec4Add | Vec4Sub | Vec4Mul | Vec4And | Vec4Or | VecXor | VecAnd | VecOr | VecAndNot | VecAdd
  | VecSub | VecCmpEq | VecCmpGt | VecAvg | VecMin | VecMax | VecMul | VecMulHigh16
  | VecMulWiden | VecSatAdd | VecSatSub | VecPack | VecAbsDiffSum8 | VecMadd16

datatype ShufOp =
  VecShiftLeft | VecShiftRight | VecShiftRightArithmetic | VecShiftLeftImm | VecShiftRightImm
  | VecShiftRightArithmeticImm | VecByteShift | VecShuffle32 | VecShuffle32TwoSrc
  | VecLoadConst | VecShuffle32Indexed | VecSharedZero | VecShuffle16 | VecExtractBytes
  | VecZip | VecDupPairs32 | VecDup64 | VecExtract64 | VecExtract16 | VecInsert16 | VecMovMask
  | VecTableLookup8 | VecUnzip

datatype CryptoOp =
  VecAesEnc | VecAesEncLast | VecAesDec | VecAesDecLast | VecAesEncFast | VecAesEncLastFast
  | VecAesDecFast | VecAesDecLastFast | VecAesKeygenAssist | VecPclMul | VecSha256Msg1
  | VecSha256Msg2 | VecSha256Rnds2

datatype FloatOp =
  VecFAddScalar32 | VecFSubScalar32 | VecFMulScalar32 | VecFDivScalar32 | VecFAddScalar64
  | VecFSubScalar64 | VecFMulScalar64 | VecFDivScalar64 | VecFAdd | VecFSub | VecFMul | VecFDiv
  | VecFMinMax | VecFUnary | VecFCmp | VecFCmpMask | VecFCvtIntToFloat | VecFCvtFloatToInt
  | VecFCvtScalar | VecFCvtPacked | VecFMulAdd | VecFRoundInt

datatype OpCode = Void_op | Mem MemOp | Help HelpOp | Calc CalcOp | Flag FlagOp | Bit BitOp
  | Vec VecOp | Shuf ShufOp | Crypto CryptoOp | Float FloatOp

text \<open>The signature of every opcode: its return kind and its logical argument kinds.\<close>

fun memOp_meta :: "MemOp \<Rightarrow> ArgType \<times> ArgType list" where
  "memOp_meta DefineLocal = (ArgVoid, [ArgLocal])"
| "memOp_meta LoadLocal = (ArgValue, [ArgLocal])"
| "memOp_meta StoreLocal = (ArgVoid, [ArgLocal, ArgValue])"
| "memOp_meta LoadUniform = (ArgValue, [ArgUniform])"
| "memOp_meta StoreUniform = (ArgVoid, [ArgUniform, ArgValue])"
| "memOp_meta GetUniformAddress = (ArgValue, [ArgImm])"
| "memOp_meta X87Op = (ArgValue, [ArgValue, ArgImm, ArgValue])"
| "memOp_meta LoadMemory = (ArgValue, [ArgOperand])"
| "memOp_meta StoreMemory = (ArgVoid, [ArgOperand, ArgValue])"
| "memOp_meta LoadMemoryTSO = (ArgValue, [ArgOperand])"
| "memOp_meta StoreMemoryTSO = (ArgVoid, [ArgOperand, ArgValue])"
| "memOp_meta MemoryCopy = (ArgVoid, [ArgLambda, ArgLambda, ArgImm])"
| "memOp_meta MemoryCopyTSO = (ArgVoid, [ArgLambda, ArgLambda, ArgImm])"
| "memOp_meta MemoryBarrierTSO = (ArgVoid, [])"
| "memOp_meta CompareAndSwap = (ArgValue, [ArgValue, ArgValue, ArgValue])"
| "memOp_meta CompareAndSwap128 = (ArgValue, [ArgValue, ArgValue, ArgValue, ArgValue, ArgValue])"
| "memOp_meta CheckMemoryAlignment = (ArgVoid, [ArgValue, ArgImm])"
| "memOp_meta AtomicExchange = (ArgValue, [ArgValue, ArgValue])"
| "memOp_meta AtomicFetchAdd = (ArgValue, [ArgValue, ArgValue])"
| "memOp_meta AtomicRMW = (ArgValue, [ArgImm, ArgValue, ArgValue, ArgValue])"

fun helpOp_meta :: "HelpOp \<Rightarrow> ArgType \<times> ArgType list" where
  "helpOp_meta UniformBarrier = (ArgVoid, [])"
| "helpOp_meta Goto = (ArgValue, [ArgValue])"
| "helpOp_meta NotGoto = (ArgValue, [ArgValue])"
| "helpOp_meta Select = (ArgValue, [ArgValue, ArgValue, ArgValue])"
| "helpOp_meta SelectZero = (ArgValue, [ArgValue, ArgValue, ArgValue])"
| "helpOp_meta CondSelect = (ArgValue, [ArgCond, ArgValue, ArgValue])"
| "helpOp_meta BindLabel = (ArgVoid, [ArgValue])"
| "helpOp_meta CallLambda = (ArgValue, [ArgLambda, ArgValue, ArgValue, ArgValue])"
| "helpOp_meta Sse42Str = (ArgValue, [ArgValue, ArgValue, ArgImm])"
| "helpOp_meta CallLocation = (ArgValue, [ArgLambda, ArgParams])"
| "helpOp_meta CallDynamic = (ArgValue, [ArgLambda, ArgParams])"
| "helpOp_meta AddPhi = (ArgValue, [ArgParams])"
| "helpOp_meta Nop = (ArgVoid, [])"
| "helpOp_meta AdvancePC = (ArgVoid, [ArgImm])"
| "helpOp_meta SetLocation = (ArgVoid, [ArgLambda])"
| "helpOp_meta GetLocation = (ArgValue, [])"
| "helpOp_meta Zero = (ArgValue, [])"
| "helpOp_meta GetHostGPR = (ArgValue, [ArgImm, ArgImm])"
| "helpOp_meta GetHostFPR = (ArgValue, [ArgImm, ArgImm])"
| "helpOp_meta SetHostGPR = (ArgVoid, [ArgValue, ArgImm, ArgImm])"
| "helpOp_meta SetHostFPR = (ArgVoid, [ArgValue, ArgImm, ArgImm])"
| "helpOp_meta BitCast = (ArgValue, [ArgValue])"
| "helpOp_meta GetOperand = (ArgValue, [ArgOperand])"
| "helpOp_meta GetResult = (ArgValue, [ArgValue, ArgValue])"
| "helpOp_meta LoadImm = (ArgValue, [ArgImm])"
| "helpOp_meta PushRSB = (ArgVoid, [ArgLambda])"
| "helpOp_meta CallReturn = (ArgVoid, [ArgValue, ArgImm, ArgLambda])"
| "helpOp_meta PopRSB = (ArgVoid, [ArgLambda])"

fun calcOp_meta :: "CalcOp \<Rightarrow> ArgType \<times> ArgType list" where
  "calcOp_meta Add = (ArgValue, [ArgValue, ArgOperand])"
| "calcOp_meta Sub = (ArgValue, [ArgValue, ArgOperand])"
| "calcOp_meta Adc = (ArgValue, [ArgValue, ArgOperand])"
| "calcOp_meta Sbb = (ArgValue, [ArgValue, ArgOperand])"
| "calcOp_meta Mul = (ArgValue, [ArgValue, ArgOperand])"
| "calcOp_meta MulSub = (ArgValue, [ArgValue, ArgValue, ArgValue])"
| "calcOp_meta Div = (ArgValue, [ArgValue, ArgOperand])"
| "calcOp_meta SignedDiv64 = (ArgValue, [ArgValue, ArgValue])"
| "calcOp_meta Div128 = (ArgValue, [ArgValue, ArgValue, ArgValue, ArgImm])"
| "calcOp_meta Div128Remainder = (ArgValue, [ArgValue])"
| "calcOp_meta Cpuid = (ArgValue, [ArgValue, ArgValue, ArgImm, ArgImm])"
| "calcOp_meta CpuidUpper = (ArgValue, [ArgValue])"
| "calcOp_meta ZeroExtend32 = (ArgValue, [ArgValue])"
| "calcOp_meta ZeroExtend32To64 = (ArgValue, [ArgValue])"
| "calcOp_meta ZeroExtend64 = (ArgValue, [ArgValue])"
| "calcOp_meta SignExtend = (ArgValue, [ArgValue])"
| "calcOp_meta And = (ArgValue, [ArgValue, ArgOperand])"
| "calcOp_meta Or = (ArgValue, [ArgValue, ArgOperand])"
| "calcOp_meta Xor = (ArgValue, [ArgValue, ArgOperand])"
| "calcOp_meta Not_op = (ArgValue, [ArgValue, ArgOperand])"
| "calcOp_meta AndNot = (ArgValue, [ArgValue, ArgOperand])"
| "calcOp_meta MulHigh = (ArgValue, [ArgValue, ArgValue, ArgImm])"
| "calcOp_meta Neg_op = (ArgValue, [ArgValue])"

fun flagOp_meta :: "FlagOp \<Rightarrow> ArgType \<times> ArgType list" where
  "flagOp_meta GetFlags = (ArgValue, [ArgValue, ArgFlags])"
| "flagOp_meta SaveFlags = (ArgVoid, [ArgValue, ArgFlags])"
| "flagOp_meta BranchOnlyFlags = (ArgVoid, [ArgValue, ArgFlags])"
| "flagOp_meta TestFlags = (ArgValue, [ArgFlags])"
| "flagOp_meta TestNotFlags = (ArgValue, [ArgFlags])"
| "flagOp_meta ClearFlags = (ArgVoid, [ArgFlags])"
| "flagOp_meta SetCarry = (ArgVoid, [ArgValue])"
| "flagOp_meta SetOverflow = (ArgVoid, [ArgValue])"
| "flagOp_meta InvertCarry = (ArgVoid, [])"
| "flagOp_meta PublishFCmpFlags = (ArgVoid, [ArgValue, ArgImm])"
| "flagOp_meta PublishSse42StrFlags = (ArgVoid, [ArgValue, ArgFlags])"
| "flagOp_meta CondSet = (ArgValue, [ArgCond])"
| "flagOp_meta LocalCondSet = (ArgValue, [ArgCond])"
| "flagOp_meta LocalParitySet = (ArgValue, [ArgValue, ArgImm])"
| "flagOp_meta BranchOnlyEdges = (ArgVoid, [])"
| "flagOp_meta FCmpCondSet = (ArgValue, [ArgValue, ArgCond])"

fun bitOp_meta :: "BitOp \<Rightarrow> ArgType \<times> ArgType list" where
  "bitOp_meta LslImm = (ArgValue, [ArgValue, ArgImm])"
| "bitOp_meta LslValue = (ArgValue, [ArgValue, ArgValue])"
| "bitOp_meta LsrImm = (ArgValue, [ArgValue, ArgImm])"
| "bitOp_meta LsrValue = (ArgValue, [ArgValue, ArgValue])"
| "bitOp_meta AsrImm = (ArgValue, [ArgValue, ArgImm])"
| "bitOp_meta AsrValue = (ArgValue, [ArgValue, ArgValue])"
| "bitOp_meta RorImm = (ArgValue, [ArgValue, ArgImm])"
| "bitOp_meta RorValue = (ArgValue, [ArgValue, ArgValue])"
| "bitOp_meta ByteSwap = (ArgValue, [ArgValue, ArgImm])"
| "bitOp_meta CountLeadingZeros64 = (ArgValue, [ArgValue])"
| "bitOp_meta CountTrailingZeros64 = (ArgValue, [ArgValue])"
| "bitOp_meta CountLeadingZeros32 = (ArgValue, [ArgValue])"
| "bitOp_meta CountTrailingZeros32 = (ArgValue, [ArgValue])"
| "bitOp_meta BitExtract = (ArgValue, [ArgValue, ArgImm, ArgImm])"
| "bitOp_meta BitInsert = (ArgValue, [ArgValue, ArgValue, ArgImm, ArgImm])"
| "bitOp_meta BitClear = (ArgValue, [ArgValue, ArgImm, ArgImm])"
| "bitOp_meta TestBit = (ArgValue, [ArgValue, ArgImm])"
| "bitOp_meta TestZero = (ArgValue, [ArgValue])"
| "bitOp_meta TestNotZero = (ArgValue, [ArgValue])"

fun vecOp_meta :: "VecOp \<Rightarrow> ArgType \<times> ArgType list" where
  "vecOp_meta Vec4Add = (ArgValue, [ArgValue, ArgValue])"
| "vecOp_meta Vec4Sub = (ArgValue, [ArgValue, ArgValue])"
| "vecOp_meta Vec4Mul = (ArgValue, [ArgValue, ArgValue])"
| "vecOp_meta Vec4And = (ArgValue, [ArgValue, ArgValue])"
| "vecOp_meta Vec4Or = (ArgValue, [ArgValue, ArgValue])"
| "vecOp_meta VecXor = (ArgValue, [ArgValue, ArgValue])"
| "vecOp_meta VecAnd = (ArgValue, [ArgValue, ArgValue])"
| "vecOp_meta VecOr = (ArgValue, [ArgValue, ArgValue])"
| "vecOp_meta VecAndNot = (ArgValue, [ArgValue, ArgValue])"
| "vecOp_meta VecAdd = (ArgValue, [ArgValue, ArgValue, ArgImm])"
| "vecOp_meta VecSub = (ArgValue, [ArgValue, ArgValue, ArgImm])"
| "vecOp_meta VecCmpEq = (ArgValue, [ArgValue, ArgValue, ArgImm])"
| "vecOp_meta VecCmpGt = (ArgValue, [ArgValue, ArgValue, ArgImm])"
| "vecOp_meta VecAvg = (ArgValue, [ArgValue, ArgValue, ArgImm])"
| "vecOp_meta VecMin = (ArgValue, [ArgValue, ArgValue, ArgImm, ArgImm])"
| "vecOp_meta VecMax = (ArgValue, [ArgValue, ArgValue, ArgImm, ArgImm])"
| "vecOp_meta VecMul = (ArgValue, [ArgValue, ArgValue, ArgImm])"
| "vecOp_meta VecMulHigh16 = (ArgValue, [ArgValue, ArgValue, ArgImm])"
| "vecOp_meta VecMulWiden = (ArgValue, [ArgValue, ArgValue, ArgImm, ArgImm])"
| "vecOp_meta VecSatAdd = (ArgValue, [ArgValue, ArgValue, ArgImm, ArgImm])"
| "vecOp_meta VecSatSub = (ArgValue, [ArgValue, ArgValue, ArgImm, ArgImm])"
| "vecOp_meta VecPack = (ArgValue, [ArgValue, ArgValue, ArgImm, ArgImm])"
| "vecOp_meta VecAbsDiffSum8 = (ArgValue, [ArgValue, ArgValue])"
| "vecOp_meta VecMadd16 = (ArgValue, [ArgValue, ArgValue])"

fun shufOp_meta :: "ShufOp \<Rightarrow> ArgType \<times> ArgType list" where
  "shufOp_meta VecShiftLeft = (ArgValue, [ArgValue, ArgValue, ArgImm])"
| "shufOp_meta VecShiftRight = (ArgValue, [ArgValue, ArgValue, ArgImm])"
| "shufOp_meta VecShiftRightArithmetic = (ArgValue, [ArgValue, ArgValue, ArgImm])"
| "shufOp_meta VecShiftLeftImm = (ArgValue, [ArgValue, ArgImm, ArgImm])"
| "shufOp_meta VecShiftRightImm = (ArgValue, [ArgValue, ArgImm, ArgImm])"
| "shufOp_meta VecShiftRightArithmeticImm = (ArgValue, [ArgValue, ArgImm, ArgImm])"
| "shufOp_meta VecByteShift = (ArgValue, [ArgValue, ArgValue, ArgImm, ArgImm])"
| "shufOp_meta VecShuffle32 = (ArgValue, [ArgValue, ArgImm])"
| "shufOp_meta VecShuffle32TwoSrc = (ArgValue, [ArgValue, ArgValue, ArgImm])"
| "shufOp_meta VecLoadConst = (ArgValue, [ArgImm, ArgImm])"
| "shufOp_meta VecShuffle32Indexed = (ArgValue, [ArgValue, ArgValue])"
| "shufOp_meta VecSharedZero = (ArgValue, [])"
| "shufOp_meta VecShuffle16 = (ArgValue, [ArgValue, ArgImm, ArgImm])"
| "shufOp_meta VecExtractBytes = (ArgValue, [ArgValue, ArgValue, ArgImm])"
| "shufOp_meta VecZip = (ArgValue, [ArgValue, ArgValue, ArgImm, ArgImm])"
| "shufOp_meta VecDupPairs32 = (ArgValue, [ArgValue, ArgImm])"
| "shufOp_meta VecDup64 = (ArgValue, [ArgValue])"
| "shufOp_meta VecExtract64 = (ArgValue, [ArgValue, ArgImm])"
| "shufOp_meta VecExtract16 = (ArgValue, [ArgValue, ArgImm])"
| "shufOp_meta VecInsert16 = (ArgValue, [ArgValue, ArgValue, ArgImm])"
| "shufOp_meta VecMovMask = (ArgValue, [ArgValue, ArgImm])"
| "shufOp_meta VecTableLookup8 = (ArgValue, [ArgValue, ArgValue])"
| "shufOp_meta VecUnzip = (ArgValue, [ArgValue, ArgValue, ArgImm, ArgImm])"

fun cryptoOp_meta :: "CryptoOp \<Rightarrow> ArgType \<times> ArgType list" where
  "cryptoOp_meta VecAesEnc = (ArgValue, [ArgValue, ArgValue])"
| "cryptoOp_meta VecAesEncLast = (ArgValue, [ArgValue, ArgValue])"
| "cryptoOp_meta VecAesDec = (ArgValue, [ArgValue, ArgValue])"
| "cryptoOp_meta VecAesDecLast = (ArgValue, [ArgValue, ArgValue])"
| "cryptoOp_meta VecAesEncFast = (ArgValue, [ArgValue, ArgValue, ArgValue])"
| "cryptoOp_meta VecAesEncLastFast = (ArgValue, [ArgValue, ArgValue, ArgValue])"
| "cryptoOp_meta VecAesDecFast = (ArgValue, [ArgValue, ArgValue, ArgValue])"
| "cryptoOp_meta VecAesDecLastFast = (ArgValue, [ArgValue, ArgValue, ArgValue])"
| "cryptoOp_meta VecAesKeygenAssist = (ArgValue, [ArgValue, ArgImm])"
| "cryptoOp_meta VecPclMul = (ArgValue, [ArgValue, ArgValue, ArgImm])"
| "cryptoOp_meta VecSha256Msg1 = (ArgValue, [ArgValue, ArgValue])"
| "cryptoOp_meta VecSha256Msg2 = (ArgValue, [ArgValue, ArgValue])"
| "cryptoOp_meta VecSha256Rnds2 = (ArgValue, [ArgValue, ArgValue, ArgValue])"

fun floatOp_meta :: "FloatOp \<Rightarrow> ArgType \<times> ArgType list" where
  "floatOp_meta VecFAddScalar32 = (ArgValue, [ArgValue, ArgValue])"
| "floatOp_meta VecFSubScalar32 = (ArgValue, [ArgValue, ArgValue])"
| "floatOp_meta VecFMulScalar32 = (ArgValue, [ArgValue, ArgValue])"
| "floatOp_meta VecFDivScalar32 = (ArgValue, [ArgValue, ArgValue])"
| "floatOp_meta VecFAddScalar64 = (ArgValue, [ArgValue, ArgValue])"
| "floatOp_meta VecFSubScalar64 = (ArgValue, [ArgValue, ArgValue])"
| "floatOp_meta VecFMulScalar64 = (ArgValue, [ArgValue, ArgValue])"
| "floatOp_meta VecFDivScalar64 = (ArgValue, [ArgValue, ArgValue])"
| "floatOp_meta VecFAdd = (ArgValue, [ArgValue, ArgValue, ArgImm])"
| "floatOp_meta VecFSub = (ArgValue, [ArgValue, ArgValue, ArgImm])"
| "floatOp_meta VecFMul = (ArgValue, [ArgValue, ArgValue, ArgImm])"
| "floatOp_meta VecFDiv = (ArgValue, [ArgValue, ArgValue, ArgImm])"
| "floatOp_meta VecFMinMax = (ArgValue, [ArgValue, ArgValue, ArgImm, ArgImm, ArgImm])"
| "floatOp_meta VecFUnary = (ArgValue, [ArgValue, ArgValue, ArgImm, ArgImm, ArgImm])"
| "floatOp_meta VecFCmp = (ArgValue, [ArgValue, ArgValue, ArgImm, ArgImm])"
| "floatOp_meta VecFCmpMask = (ArgValue, [ArgValue, ArgValue, ArgImm, ArgImm, ArgImm])"
| "floatOp_meta VecFCvtIntToFloat = (ArgValue, [ArgValue, ArgImm, ArgImm])"
| "floatOp_meta VecFCvtFloatToInt = (ArgValue, [ArgValue, ArgImm, ArgImm, ArgImm])"
| "floatOp_meta VecFCvtScalar = (ArgValue, [ArgValue, ArgImm])"
| "floatOp_meta VecFCvtPacked = (ArgValue, [ArgValue, ArgImm])"
| "floatOp_meta VecFMulAdd = (ArgValue, [ArgValue, ArgValue, ArgValue, ArgImm, ArgImm])"
| "floatOp_meta VecFRoundInt = (ArgValue, [ArgValue, ArgValue, ArgImm, ArgImm, ArgImm])"

fun GetIRMetaInfo :: "OpCode \<Rightarrow> ArgType \<times> ArgType list" where
  "GetIRMetaInfo Void_op = (ArgVoid, [])"
| "GetIRMetaInfo (Mem x) = memOp_meta x"
| "GetIRMetaInfo (Help x) = helpOp_meta x"
| "GetIRMetaInfo (Calc x) = calcOp_meta x"
| "GetIRMetaInfo (Flag x) = flagOp_meta x"
| "GetIRMetaInfo (Bit x) = bitOp_meta x"
| "GetIRMetaInfo (Vec x) = vecOp_meta x"
| "GetIRMetaInfo (Shuf x) = shufOp_meta x"
| "GetIRMetaInfo (Crypto x) = cryptoOp_meta x"
| "GetIRMetaInfo (Float x) = floatOp_meta x"

abbreviation return_type :: "OpCode \<Rightarrow> ArgType" where
  "return_type op \<equiv> fst (GetIRMetaInfo op)"

abbreviation arg_types :: "OpCode \<Rightarrow> ArgType list" where
  "arg_types op \<equiv> snd (GetIRMetaInfo op)"

end
