(* ===== verification/IR_Inst.thy ===== *)
theory IR_Inst
  imports IR_Types
begin

text \<open>
  Instructions (\<^verbatim>\<open>runtime/ir/instr.h\<close>, \<^verbatim>\<open>instr.cpp\<close>): the instruction record, argument
  attachment with use counting, the chain of pseudo-operations hanging off a definition, and
  instruction teardown.  An IR store maps instruction pointers to instructions.
\<close>

definition max_args :: nat where "max_args = 5"

record Inst =
  op_code :: OpCode
  arguments :: "Arg list"
  num_use :: u8
  inst_id :: u16
  vir_reg :: u16
  ret_type :: ValueType
  next_pseudo_inst :: "InstPtr option"

type_synonym IR = "InstPtr \<Rightarrow> Inst"

definition invalid_id :: u16 where "invalid_id = 0xFFFF"

definition new_Inst :: "OpCode \<Rightarrow> Inst" where
  "new_Inst op = \<lparr>op_code = op, arguments = replicate max_args AVoid, num_use = 0,
     inst_id = invalid_id, vir_reg = 0, ret_type = VOID, next_pseudo_inst = None\<rparr>"

definition ArgAt :: "Inst \<Rightarrow> nat \<Rightarrow> Arg" where
  "ArgAt i n = arguments i ! n"

definition PublicIndex :: "Inst \<Rightarrow> nat \<Rightarrow> nat option" where
  "PublicIndex i logical = do {
     let types = arg_types (op_code i);
     ASSERT (logical < length types);
     let physical = logical + sum_list (map (\<lambda>t. PhysicalSlots t - 1) (take logical types));
     ASSERT (physical < max_args);
     Some physical }"

section \<open>Reading arguments\<close>

text \<open>
  A read of the wrong kind fails its assertion; an operand whose three slots do not fit the
  argument array has no defined result.
\<close>

definition GetArg_Value :: "Inst \<Rightarrow> nat \<Rightarrow> Value option" where
  "GetArg_Value i n = do {
     k \<leftarrow> PublicIndex i n;
     case ArgAt i k of AValue v \<Rightarrow> Some v | _ \<Rightarrow> None }"

definition GetArg_Imm :: "Inst \<Rightarrow> nat \<Rightarrow> Imm option" where
  "GetArg_Imm i n = do {
     k \<leftarrow> PublicIndex i n;
     case ArgAt i k of AImm v \<Rightarrow> Some v | _ \<Rightarrow> None }"

definition GetArg_Cond :: "Inst \<Rightarrow> nat \<Rightarrow> Cond option" where
  "GetArg_Cond i n = do {
     k \<leftarrow> PublicIndex i n;
     case ArgAt i k of ACond v \<Rightarrow> Some v | _ \<Rightarrow> None }"

definition GetArg_Flags :: "Inst \<Rightarrow> nat \<Rightarrow> u64 option" where
  "GetArg_Flags i n = do {
     k \<leftarrow> PublicIndex i n;
     case ArgAt i k of AFlags v \<Rightarrow> Some v | _ \<Rightarrow> None }"

definition GetArg_Local :: "Inst \<Rightarrow> nat \<Rightarrow> Local option" where
  "GetArg_Local i n = do {
     k \<leftarrow> PublicIndex i n;
     case ArgAt i k of ALocal v \<Rightarrow> Some v | _ \<Rightarrow> None }"

definition GetArg_Uniform :: "Inst \<Rightarrow> nat \<Rightarrow> Uniform option" where
  "GetArg_Uniform i n = do {
     k \<leftarrow> PublicIndex i n;
     case ArgAt i k of AUniform v \<Rightarrow> Some v | _ \<Rightarrow> None }"

definition GetArg_Lambda :: "Inst \<Rightarrow> nat \<Rightarrow> Lambda option" where
  "GetArg_Lambda i n = do {
     k \<leftarrow> PublicIndex i n;
     case ArgAt i k of ALambda v \<Rightarrow> Some v | _ \<Rightarrow> None }"

definition GetArg_Params :: "Inst \<Rightarrow> nat \<Rightarrow> Params option" where
  "GetArg_Params i n = do {
     k \<leftarrow> PublicIndex i n;
     case ArgAt i k of AParams v \<Rightarrow> Some v | _ \<Rightarrow> None }"

definition GetArg_Operand :: "Inst \<Rightarrow> nat \<Rightarrow> Operand option" where
  "GetArg_Operand i n = do {
     k \<leftarrow> PublicIndex i n;
     op \<leftarrow> (case ArgAt i k of AOperandOp op \<Rightarrow> Some op | _ \<Rightarrow> None);
     ASSERT (k + 2 < max_args);
     l \<leftarrow> ToDataClass (ArgAt i (k + 1));
     r \<leftarrow> ToDataClass (ArgAt i (k + 2));
     Some \<lparr>operand_op = op, operand_left = l, operand_right = r\<rparr> }"

lemmas GetArg_defs = GetArg_Value_def GetArg_Imm_def GetArg_Cond_def GetArg_Flags_def
  GetArg_Local_def GetArg_Uniform_def GetArg_Lambda_def GetArg_Params_def GetArg_Operand_def

section \<open>Classification\<close>

definition HasValue :: "Inst \<Rightarrow> bool" where
  "HasValue i = (return_type (op_code i) = ArgValue)"

definition IsPseudoOperation :: "Inst \<Rightarrow> bool" where
  "IsPseudoOperation i = (op_code i = Flag GetFlags \<or> op_code i = Flag SaveFlags \<or>
     op_code i = Flag BranchOnlyFlags \<or> op_code i = Help GetResult \<or>
     op_code i = Calc Div128Remainder \<or> op_code i = Calc CpuidUpper)"

definition IsGetHostRegOperation :: "Inst \<Rightarrow> bool option" where
  "IsGetHostRegOperation i =
     (if op_code i = Help GetHostGPR \<or> op_code i = Help GetHostFPR
      then map_option (\<lambda>v. Imm_Get v = 0) (GetArg_Imm i 1) else Some False)"

definition IsSetHostRegOperation :: "Inst \<Rightarrow> bool option" where
  "IsSetHostRegOperation i =
     (if op_code i = Help SetHostGPR \<or> op_code i = Help SetHostFPR
      then map_option (\<lambda>v. Imm_Get v = 0) (GetArg_Imm i 2) else Some False)"

definition IsBitCastOperation :: "Inst \<Rightarrow> bool" where
  "IsBitCastOperation i = (op_code i = Help BitCast)"

definition always_kept_op :: "OpCode \<Rightarrow> bool" where
  "always_kept_op op = (op = Mem CompareAndSwap \<or> op = Mem CompareAndSwap128 \<or>
     op = Mem AtomicExchange \<or> op = Mem AtomicFetchAdd \<or> op = Mem AtomicRMW \<or>
     op = Mem X87Op \<or> op = Help CallLambda \<or> op = Help CallLocation \<or> op = Help CallDynamic)"

definition HasSideEffects :: "Inst \<Rightarrow> bool" where
  "HasSideEffects i =
     (if num_use i \<noteq> 0 then True
      else if always_kept_op (op_code i) then True
      else return_type (op_code i) = ArgVoid)"

definition values_of_params :: "Params \<Rightarrow> Value list" where
  "values_of_params ps = concat (map (\<lambda>d. case d of DValue v \<Rightarrow> [v] | _ \<Rightarrow> []) ps)"

fun values_of_arg :: "Arg \<Rightarrow> Value list" where
  "values_of_arg (AValue v) = [v]"
| "values_of_arg (ALambda l) = (case Lambda_GetValue l of Some v \<Rightarrow> [v] | None \<Rightarrow> [])"
| "values_of_arg (AParams ps) = values_of_params ps"
| "values_of_arg _ = []"

definition GetValues :: "Inst \<Rightarrow> Value list" where
  "GetValues i = concat (map values_of_arg (arguments i))"

text \<open>\<^verbatim>\<open>Value::Type\<close>: the cast type when there is one, else the defining instruction's type.\<close>

definition Value_Type :: "IR \<Rightarrow> Value \<Rightarrow> ValueType" where
  "Value_Type ir v = (if cast_type v = VOID then ret_type (ir (Def v)) else cast_type v)"

definition Value_Id :: "IR \<Rightarrow> Value \<Rightarrow> u16" where
  "Value_Id ir v = inst_id (ir (Def v))"

definition Value_SetType :: "IR \<Rightarrow> Value \<Rightarrow> ValueType \<Rightarrow> IR" where
  "Value_SetType ir v t = ir(Def v := (ir (Def v))\<lparr>ret_type := t\<rparr>)"

definition Value_SetCastType :: "Value \<Rightarrow> ValueType \<Rightarrow> Value" where
  "Value_SetCastType v t = Value (Def v) t"

section \<open>Use registration and pseudo-operation chains\<close>

text \<open>
  The chain walks follow raw pointers; a null dereference or an endless walk is \<^const>\<open>None\<close>.
\<close>

partial_function (option) pseudo_tail :: "IR \<Rightarrow> InstPtr \<Rightarrow> InstPtr option" where
  "pseudo_tail ir p = (case next_pseudo_inst (ir p) of None \<Rightarrow> Some p | Some q \<Rightarrow> pseudo_tail ir q)"

partial_function (option) pseudo_pred :: "IR \<Rightarrow> InstPtr \<Rightarrow> InstPtr \<Rightarrow> InstPtr option" where
  "pseudo_pred ir this p =
     (case next_pseudo_inst (ir p) of
        None \<Rightarrow> None
      | Some q \<Rightarrow> if q = this then Some p else pseudo_pred ir this q)"

definition Use :: "IR \<Rightarrow> InstPtr \<Rightarrow> Value \<Rightarrow> IR option" where
  "Use ir this v =
     (let d = Def v; ir1 = ir(d := (ir d)\<lparr>num_use := num_use (ir d) + 1\<rparr>) in
      if IsPseudoOperation (ir1 this) then do {
        t \<leftarrow> pseudo_tail ir1 d;
        Some (ir1(t := (ir1 t)\<lparr>next_pseudo_inst := Some this\<rparr>)) }
      else Some ir1)"

definition UnUse :: "IR \<Rightarrow> InstPtr \<Rightarrow> Value \<Rightarrow> IR option" where
  "UnUse ir this v =
     (let d = Def v; ir1 = ir(d := (ir d)\<lparr>num_use := num_use (ir d) - 1\<rparr>) in
      if IsPseudoOperation (ir1 this) then do {
        t \<leftarrow> pseudo_pred ir1 this d;
        let ir2 = ir1(t := (ir1 t)\<lparr>next_pseudo_inst := next_pseudo_inst (ir1 this)\<rparr>);
        Some (ir2(this := (ir2 this)\<lparr>next_pseudo_inst := None\<rparr>)) }
      else Some ir1)"

fun use_all :: "IR \<Rightarrow> InstPtr \<Rightarrow> Value list \<Rightarrow> IR option" where
  "use_all ir this [] = Some ir"
| "use_all ir this (v # vs) = do { ir1 \<leftarrow> Use ir this v; use_all ir1 this vs }"

fun unuse_all :: "IR \<Rightarrow> InstPtr \<Rightarrow> Value list \<Rightarrow> IR option" where
  "unuse_all ir this [] = Some ir"
| "unuse_all ir this (v # vs) = do { ir1 \<leftarrow> UnUse ir this v; unuse_all ir1 this vs }"

text \<open>
  The pseudo-operations of a definition, in chain order; the walk asserts that each of them
  names the definition as its first argument.
\<close>

partial_function (option) pseudo_walk :: "IR \<Rightarrow> InstPtr \<Rightarrow> InstPtr option \<Rightarrow> InstPtr list option"
where
  "pseudo_walk ir this p =
     (case p of
        None \<Rightarrow> Some []
      | Some q \<Rightarrow>
          (case GetArg_Value (ir q) 0 of
             None \<Rightarrow> None
           | Some v \<Rightarrow>
               if Def v = this
               then Option.bind (pseudo_walk ir this (next_pseudo_inst (ir q))) (\<lambda>qs. Some (q # qs))
               else None))"

definition GetPseudoOperations :: "IR \<Rightarrow> InstPtr \<Rightarrow> InstPtr list option" where
  "GetPseudoOperations ir this = pseudo_walk ir this (next_pseudo_inst (ir this))"

definition GetPseudoOperations_op :: "IR \<Rightarrow> InstPtr \<Rightarrow> OpCode \<Rightarrow> InstPtr list option" where
  "GetPseudoOperations_op ir this code =
     map_option (filter (\<lambda>q. op_code (ir q) = code)) (GetPseudoOperations ir this)"

definition GetUses :: "IR \<Rightarrow> InstPtr \<Rightarrow> bool \<Rightarrow> u8 option" where
  "GetUses ir this exclude_pseudo =
     (if \<not> exclude_pseudo then Some (num_use (ir this))
      else map_option (\<lambda>qs. num_use (ir this) - of_nat (length qs)) (GetPseudoOperations ir this))"

section \<open>Attaching and releasing arguments\<close>

definition set_slot :: "IR \<Rightarrow> InstPtr \<Rightarrow> nat \<Rightarrow> Arg \<Rightarrow> IR" where
  "set_slot ir this k a = ir(this := (ir this)\<lparr>arguments := (arguments (ir this))[k := a]\<rparr>)"

definition DestroyArg :: "IR \<Rightarrow> InstPtr \<Rightarrow> nat \<Rightarrow> IR option" where
  "DestroyArg ir this k = do {
     ir1 \<leftarrow> unuse_all ir this (values_of_arg (ArgAt (ir this) k));
     Some (set_slot ir1 this k AVoid) }"

text \<open>The overloads of \<^verbatim>\<open>Inst::SetArg\<close>, one constructor per parameter type.\<close>

datatype ArgIn = InVoid | InValue Value | InImm Imm | InCond Cond | InFlags u64
  | InOperandOp OperandOp | InLocal Local | InUniform Uniform | InLambda Lambda
  | InOperand Operand | InParams Params

definition default_ret_type :: "IR \<Rightarrow> InstPtr \<Rightarrow> ValueType \<Rightarrow> IR" where
  "default_ret_type ir this t =
     (if HasValue (ir this) \<and> ret_type (ir this) = VOID
      then ir(this := (ir this)\<lparr>ret_type := t\<rparr>) else ir)"

fun SetArg :: "IR \<Rightarrow> InstPtr \<Rightarrow> nat \<Rightarrow> ArgIn \<Rightarrow> IR option" where
  "SetArg ir this k InVoid = DestroyArg ir this k"
| "SetArg ir this k (InValue v) = do {
     ir1 \<leftarrow> DestroyArg ir this k;
     ir2 \<leftarrow> Use (set_slot ir1 this k (AValue v)) this v;
     Some (default_ret_type ir2 this (Value_Type ir2 v)) }"
| "SetArg ir this k (InImm i) = do {
     ir1 \<leftarrow> DestroyArg ir this k;
     Some (default_ret_type (set_slot ir1 this k (AImm i)) this (imm_type i)) }"
| "SetArg ir this k (InCond c) = do {
     ir1 \<leftarrow> DestroyArg ir this k; Some (set_slot ir1 this k (ACond c)) }"
| "SetArg ir this k (InFlags f) = do {
     ir1 \<leftarrow> DestroyArg ir this k; Some (set_slot ir1 this k (AFlags f)) }"
| "SetArg ir this k (InOperandOp p) = do {
     ir1 \<leftarrow> DestroyArg ir this k; Some (set_slot ir1 this k (AOperandOp p)) }"
| "SetArg ir this k (InLocal l) = do {
     ir1 \<leftarrow> DestroyArg ir this k;
     let ir2 = set_slot ir1 this k (ALocal l);
     Some (if ret_type (ir2 this) = VOID \<and> return_type (op_code (ir2 this)) \<noteq> ArgVoid
           then ir2(this := (ir2 this)\<lparr>ret_type := local_type l\<rparr>) else ir2) }"
| "SetArg ir this k (InUniform u) = do {
     ir1 \<leftarrow> DestroyArg ir this k;
     Some (default_ret_type (set_slot ir1 this k (AUniform u)) this (uniform_type u)) }"
| "SetArg ir this k (InLambda l) = do {
     ir1 \<leftarrow> DestroyArg ir this k;
     use_all (set_slot ir1 this k (ALambda l)) this (values_of_arg (ALambda l)) }"
| "SetArg ir this k (InOperand p) = do {
     ASSERT (k + PhysicalSlots ArgOperand - 1 < max_args);
     ir1 \<leftarrow> DestroyArg ir this k;
     let ir2 = set_slot ir1 this k (AOperandOp (operand_op p));
     ir3 \<leftarrow> DestroyArg ir2 this (k + 1);
     let ir4 = set_slot ir3 this (k + 1) (ToArgClass (operand_left p));
     ir5 \<leftarrow> DestroyArg ir4 this (k + 2);
     let ir6 = set_slot ir5 this (k + 2) (ToArgClass (operand_right p));
     use_all ir6 this (values_of_params [operand_left p, operand_right p]) }"
| "SetArg ir this k (InParams ps) = do {
     ir1 \<leftarrow> DestroyArg ir this k;
     use_all (set_slot ir1 this k (AParams ps)) this (values_of_params ps) }"

definition slots_in :: "ArgIn \<Rightarrow> nat" where
  "slots_in a = (case a of InOperand _ \<Rightarrow> PhysicalSlots ArgOperand
      | InOperandOp _ \<Rightarrow> PhysicalSlots ArgOperand | _ \<Rightarrow> PhysicalSlots ArgVoid)"

fun SetArgs :: "IR \<Rightarrow> InstPtr \<Rightarrow> nat \<Rightarrow> ArgIn list \<Rightarrow> IR option" where
  "SetArgs ir this k [] = Some ir"
| "SetArgs ir this k (a # as) = do {
     ir1 \<leftarrow> SetArg ir this k a;
     SetArgs ir1 this (k + slots_in a) as }"

definition SetInst :: "IR \<Rightarrow> InstPtr \<Rightarrow> OpCode \<Rightarrow> ArgIn list \<Rightarrow> IR option" where
  "SetInst ir this op as = SetArgs (ir(this := (ir this)\<lparr>op_code := op\<rparr>)) this 0 as"

fun DestroyArgs_from :: "IR \<Rightarrow> InstPtr \<Rightarrow> nat list \<Rightarrow> IR option" where
  "DestroyArgs_from ir this [] = Some ir"
| "DestroyArgs_from ir this (k # ks) = do {
     ir1 \<leftarrow> DestroyArg ir this k; DestroyArgs_from ir1 this ks }"

definition DestroyArgs :: "IR \<Rightarrow> InstPtr \<Rightarrow> IR option" where
  "DestroyArgs ir this = DestroyArgs_from ir this [0..<max_args]"

definition ReleaseArgs :: "IR \<Rightarrow> InstPtr \<Rightarrow> IR" where
  "ReleaseArgs ir this = ir(this := (ir this)\<lparr>arguments := replicate max_args AVoid,
     next_pseudo_inst := None, num_use := 0\<rparr>)"

definition Reset :: "IR \<Rightarrow> InstPtr \<Rightarrow> IR option" where
  "Reset ir this = do {
     ir1 \<leftarrow> DestroyArgs ir this;
     Some (ir1(this := (ir1 this)\<lparr>op_code := Void_op\<rparr>)) }"

text \<open>\<^verbatim>\<open>Inst::Validate\<close>: the physical slots carry the kinds of the signature.\<close>

fun validate_args :: "Inst \<Rightarrow> nat \<Rightarrow> ArgType list \<Rightarrow> bool" where
  "validate_args i k [] = True"
| "validate_args i k (t # ts) =
     (k < max_args \<longrightarrow> Arg_GetType (ArgAt i k) = t \<and> validate_args i (k + PhysicalSlots t) ts)"

definition Validate :: "Inst \<Rightarrow> bool" where
  "Validate i =
     (if op_code i = Help CallLambda \<or> op_code i = Help CallLocation \<or> op_code i = Help CallDynamic
      then Arg_GetType (ArgAt i 0) = ArgLambda
      else if op_code i = Void_op then False
      else validate_args i 0 (arg_types (op_code i)))"

end
