(* ===== verification/Interp_State.thy ===== *)
theory Interp_State
  imports IR_Inst
begin

text \<open>
  The interpreter's machine state and value accessors
  (\<^verbatim>\<open>backend/interp/interpreter.h\<close>, \<^verbatim>\<open>interpreter_internal.h\<close>, the accessor part of
  \<^verbatim>\<open>interpreter.cpp\<close>, \<^verbatim>\<open>backend/context.h\<close>).  The value stack is a function from slot
  indices to 64-bit words; instruction \<open>k\<close> owns slots \<open>2 * k\<close> and \<open>2 * k + 1\<close>.  Host memory
  is a function from addresses to bytes; the uniform buffer and the local buffer are regions
  of it named by their base addresses.
\<close>

section \<open>Machine state\<close>

datatype HaltReason = HaltNone | HaltStep | HaltSignal | HaltPageFatal | HaltCodeMiss
  | HaltModuleMiss | HaltCacheMiss | HaltReservedLinkage | HaltIllegalCode | HaltCallHost

type_synonym memory = "u64 \<Rightarrow> u8"

record State =
  halt_reason :: HaltReason
  current_loc :: u64
  prev_loc :: u64
  pt :: u64
  local_buffer :: u64
  host_cpu_flags :: u64
  guest_addr_limit :: u64
  guest_addr_mask :: u64
  interp_range_check :: "(u64 \<Rightarrow> u64 \<Rightarrow> bool) option"
  uniform_buffer_begin :: u64
  mem :: memory

text \<open>Little-endian memory access of \<open>n\<close> bytes, the effect of \<^verbatim>\<open>std::memcpy\<close> on a word.\<close>

fun load_le :: "memory \<Rightarrow> u64 \<Rightarrow> nat \<Rightarrow> 'a::len word" where
  "load_le m a 0 = 0"
| "load_le m a (Suc n) = ucast (m a) OR push_bit 8 (load_le m (a + 1) n)"

fun store_le :: "memory \<Rightarrow> u64 \<Rightarrow> nat \<Rightarrow> 'a::len word \<Rightarrow> memory" where
  "store_le m a 0 v = m"
| "store_le m a (Suc n) v = (store_le m (a + 1) n (drop_bit 8 v))(a := ucast v)"

section \<open>Value slots\<close>

definition kHostFlagN :: nat where "kHostFlagN = 31"
definition kHostFlagZ :: nat where "kHostFlagZ = 30"
definition kHostFlagC :: nat where "kHostFlagC = 29"
definition kHostFlagV :: nat where "kHostFlagV = 28"
definition kHostAF :: nat where "kHostAF = 26"
definition kHostParityByte :: nat where "kHostParityByte = 0"

lemmas host_flag_bits = kHostFlagN_def kHostFlagZ_def kHostFlagC_def kHostFlagV_def kHostAF_def
  kHostParityByte_def

definition TypeBits :: "ValueType \<Rightarrow> nat option" where
  "TypeBits t = map_option (\<lambda>n. n * 8) (GetValueSizeByte t)"

definition IsVector :: "ValueType \<Rightarrow> bool" where
  "IsVector t = (V8 \<le> t \<and> t \<le> V256)"

definition MaskBits :: "nat \<Rightarrow> u64" where
  "MaskBits bits = (if bits \<ge> 64 then NOT 0 else push_bit bits 1 - 1)"

definition SignExtendTo :: "u64 \<Rightarrow> nat \<Rightarrow> u64" where
  "SignExtendTo value bits =
     (if bits \<ge> 64 then value
      else let sign = push_bit (bits - 1) 1 in (value XOR sign) - sign)"

definition MaskFor :: "ValueType \<Rightarrow> u64 option" where
  "MaskFor t = map_option MaskBits (TypeBits t)"

type_synonym InterpStack = "nat \<Rightarrow> u64"

definition kSlotStride :: nat where "kSlotStride = 2"

definition slot :: "IR \<Rightarrow> InstPtr \<Rightarrow> nat" where
  "slot ir i = unat (inst_id (ir i)) * kSlotStride"

definition ReadScalar :: "IR \<Rightarrow> InterpStack \<Rightarrow> Value \<Rightarrow> u64" where
  "ReadScalar ir st v = st (slot ir (Def v))"

definition ReadVec :: "IR \<Rightarrow> InterpStack \<Rightarrow> Value \<Rightarrow> u128" where
  "ReadVec ir st v =
     ucast (st (slot ir (Def v))) OR push_bit 64 (ucast (st (slot ir (Def v) + 1)))"

definition ReadScalarBits :: "IR \<Rightarrow> InterpStack \<Rightarrow> Value \<Rightarrow> u64" where
  "ReadScalarBits ir st v =
     (if IsFloatValueType (Value_Type ir v) then ucast (ReadVec ir st v) else ReadScalar ir st v)"

definition WriteVec :: "IR \<Rightarrow> InterpStack \<Rightarrow> InstPtr \<Rightarrow> u128 \<Rightarrow> InterpStack" where
  "WriteVec ir st i v = st(slot ir i := ucast v, slot ir i + 1 := ucast (drop_bit 64 v))"

definition WriteScalar :: "IR \<Rightarrow> InterpStack \<Rightarrow> InstPtr \<Rightarrow> u64 \<Rightarrow> InterpStack option" where
  "WriteScalar ir st i value =
     (let t = ret_type (ir i) in
      if t = VOID then Some st
      else if IsVector t then Some (WriteVec ir st i (ucast value))
      else do { m \<leftarrow> MaskFor t; Some (st(slot ir i := value AND m)) })"

definition WritePairResult ::
  "IR \<Rightarrow> InterpStack \<Rightarrow> InstPtr \<Rightarrow> u64 \<times> u64 \<Rightarrow> OpCode \<Rightarrow> InterpStack option" where
  "WritePairResult ir st i result secondary = do {
     st1 \<leftarrow> WriteScalar ir st i (fst result);
     secondary_results \<leftarrow> GetPseudoOperations_op ir i secondary;
     ASSERT (length secondary_results \<le> 1);
     (case secondary_results of [] \<Rightarrow> Some st1 | q # _ \<Rightarrow> WriteScalar ir st1 q (snd result)) }"

section \<open>Operands\<close>

fun EvalDataClass :: "IR \<Rightarrow> InterpStack \<Rightarrow> DataClass \<Rightarrow> u64" where
  "EvalDataClass ir st (DValue v) = ReadScalar ir st v"
| "EvalDataClass ir st (DImm i) = Imm_Get i"
| "EvalDataClass ir st DNull = 0"

definition EvalOperand :: "IR \<Rightarrow> InterpStack \<Rightarrow> Operand \<Rightarrow> u64 option" where
  "EvalOperand ir st p =
     (let left = EvalDataClass ir st (operand_left p) in
      if operand_right p = DNull then Some left
      else
        let rval = EvalDataClass ir st (operand_right p) in
        case op_type (operand_op p) of
          OpNone \<Rightarrow> Some left
        | OpPlus \<Rightarrow> Some (left + rval)
        | OpLSL \<Rightarrow> shl left (unat (rval AND 63))
        | OpLSR \<Rightarrow> do {
            m \<leftarrow> MaskFor (case operand_left p of DValue v \<Rightarrow> Value_Type ir v | _ \<Rightarrow> U64);
            shr (left AND m) (unat (rval AND 63)) }
        | OpPlusExt \<Rightarrow> do {
            r \<leftarrow> shl rval (unat (shift_ext (operand_op p)));
            Some (left + r) })"

definition EvalLambda :: "IR \<Rightarrow> InterpStack \<Rightarrow> Lambda \<Rightarrow> u64 option" where
  "EvalLambda ir st l =
     (if Lambda_IsValue l then map_option (ReadScalar ir st) (Lambda_GetValue l)
      else map_option Imm_Get (Lambda_GetImm l))"

section \<open>Host interface\<close>

text \<open>
  The code behind host function pointers is not part of the interpreter: a host call is a
  function of the callee address, the eight argument words and the machine state.  The x87
  dispatcher and the SSE4.2 string evaluator are called the same way; the cpuid helper
  returns a pair.  The SHA-256 handlers call AArch64 intrinsics, which exist only when the
  host has them.  The floating-point vector operations are a function of the operands read
  as vectors, the immediates and the result type.
\<close>

record NeonSha =
  vsha256su0q_u32 :: "u128 \<Rightarrow> u128 \<Rightarrow> u128"
  vsha256su1q_u32 :: "u128 \<Rightarrow> u128 \<Rightarrow> u128 \<Rightarrow> u128"
  vsha256hq_u32 :: "u128 \<Rightarrow> u128 \<Rightarrow> u128 \<Rightarrow> u128"
  vsha256h2q_u32 :: "u128 \<Rightarrow> u128 \<Rightarrow> u128 \<Rightarrow> u128"

record HostEnv =
  host_fn :: "u64 \<Rightarrow> u64 list \<Rightarrow> State \<Rightarrow> u64 \<times> State"
  x87_dispatch :: "u64 \<Rightarrow> u64 \<Rightarrow> u64 \<Rightarrow> State \<Rightarrow> u64 \<times> State"
  sse42str_eval :: "u64 \<Rightarrow> u64 \<Rightarrow> u64 \<Rightarrow> u64 \<Rightarrow> u64 \<Rightarrow> u64"
  cpuid_fn :: "u64 \<Rightarrow> u64 \<Rightarrow> u64 \<Rightarrow> u64 \<Rightarrow> u64 \<times> u64"
  neon_sha :: "NeonSha option"
  float_fn :: "FloatOp \<Rightarrow> ValueType \<Rightarrow> u128 list \<Rightarrow> u64 list \<Rightarrow> u128 option"

definition pad8 :: "u64 list \<Rightarrow> u64 list" where
  "pad8 xs = take 8 xs @ replicate (8 - length xs) 0"

definition CallHostFunc ::
  "HostEnv \<Rightarrow> IR \<Rightarrow> InterpStack \<Rightarrow> State \<Rightarrow> Lambda \<Rightarrow> DataClass list \<Rightarrow> (u64 \<times> State) option" where
  "CallHostFunc env ir st s lambda args = do {
     let argv = pad8 (map (EvalDataClass ir st) args);
     addr \<leftarrow> EvalLambda ir st lambda;
     Some (host_fn env addr argv s) }"

section \<open>Accessor laws\<close>

lemma TypeBits_simps [simp]:
  "TypeBits VOID = None"
  "TypeBits U8 = Some 8" "TypeBits U16 = Some 16" "TypeBits U32 = Some 32" "TypeBits U64 = Some 64"
  "TypeBits S8 = Some 8" "TypeBits S16 = Some 16" "TypeBits S32 = Some 32" "TypeBits S64 = Some 64"
  "TypeBits V8 = Some 8" "TypeBits V16 = Some 16" "TypeBits V32 = Some 32" "TypeBits V64 = Some 64"
  "TypeBits V128 = Some 128" "TypeBits V256 = Some 256"
  by (simp_all add: TypeBits_def)

lemma IsVector_simps [simp]:
  "\<not> IsVector VOID" "\<not> IsVector U8" "\<not> IsVector U16" "\<not> IsVector U32" "\<not> IsVector U64"
  "\<not> IsVector S8" "\<not> IsVector S16" "\<not> IsVector S32" "\<not> IsVector S64"
  "IsVector V8" "IsVector V16" "IsVector V32" "IsVector V64" "IsVector V128" "IsVector V256"
  by (simp_all add: IsVector_def ValueType_order)

lemma MaskBits_mask: "MaskBits n = mask n"
proof (cases "n \<ge> 64")
  case True
  then show ?thesis
    by (simp add: MaskBits_def) (rule bit_word_eqI, simp add: bit_mask_iff)
next
  case False
  then show ?thesis by (simp add: MaskBits_def mask_eq_exp_minus_1 push_bit_of_1)
qed

lemma scalar_type_bits:
  "\<not> IsVector t \<Longrightarrow> t \<noteq> VOID \<Longrightarrow> \<exists>n \<in> {8, 16, 32, 64}. TypeBits t = Some n"
  by (cases t) simp_all

definition write_value :: "IR \<Rightarrow> InterpStack \<Rightarrow> InstPtr \<Rightarrow> u64 \<Rightarrow> InterpStack" where
  "write_value ir st i value =
     (let t = ret_type (ir i) in
      if t = VOID then st
      else if IsVector t then WriteVec ir st i (ucast value)
      else st(slot ir i := value AND MaskBits (the (TypeBits t))))"

lemma WriteScalar_total: "WriteScalar ir st i v = Some (write_value ir st i v)"
  using scalar_type_bits [of "ret_type (ir i)"]
  by (auto simp: WriteScalar_def write_value_def MaskFor_def Let_def)

lemma slot_even: "slot ir i mod 2 = 0"
  by (simp add: slot_def kSlotStride_def)

lemma slot_half: "slot ir i div 2 = unat (inst_id (ir i))"
  by (simp add: slot_def kSlotStride_def)

lemma slot_eq_iff: "slot ir i = slot ir' j \<longleftrightarrow> inst_id (ir i) = inst_id (ir' j)"
  by (simp add: slot_def kSlotStride_def word_unat_eq_iff)

lemma slot_parity_neq: "slot ir i \<noteq> slot ir' j + 1" "slot ir i + 1 \<noteq> slot ir' j"
  by (metis slot_even even_add odd_one parity_cases mod_2_eq_odd zero_neq_one)+

text \<open>An instruction writes no slot but its own two.\<close>

lemma WriteVec_frame: "k div 2 \<noteq> unat (inst_id (ir i)) \<Longrightarrow> WriteVec ir st i v k = st k"
  by (auto simp: WriteVec_def slot_def kSlotStride_def)

lemma write_value_frame: "k div 2 \<noteq> unat (inst_id (ir i)) \<Longrightarrow> write_value ir st i v k = st k"
  by (auto simp: write_value_def Let_def slot_half WriteVec_frame)

lemma ReadVec_WriteVec [simp]: "Def v = i \<Longrightarrow> ReadVec ir (WriteVec ir st i x) v = x"
  by (rule bit_word_eqI)
    (auto simp: ReadVec_def WriteVec_def bit_or_iff bit_push_bit_iff bit_ucast_iff bit_drop_bit_eq)

lemma ReadScalar_write_value:
  assumes "Def v = i" "ret_type (ir i) \<noteq> VOID" "\<not> IsVector (ret_type (ir i))"
  shows "ReadScalar ir (write_value ir st i x) v = x AND MaskBits (the (TypeBits (ret_type (ir i))))"
  using assms by (simp add: ReadScalar_def write_value_def Let_def)

end
