(* ===== verification/Word_Arith.thy ===== *)
theory Word_Arith
  imports Prelude
begin

text \<open>
  Arithmetic of 64-bit words at a smaller width: reading the low \<open>b\<close> bits as an unsigned or a
  two's complement number, and how carries, borrows and signed overflow show in the bits of a
  sum or a difference.
\<close>

lemma bit_test: "drop_bit n (w::'a::len word) AND 1 \<noteq> 0 \<longleftrightarrow> bit w n"
  by (simp add: and_one_eq_of_bool bit_drop_bit_eq)

lemma byte_split:
  obtains q r :: nat where "p = 8 * q + r" "r < 8"
  by (metis mult_div_mod_eq mod_less_divisor zero_less_numeral)

lemma xor_exp_word:
  fixes x :: "'a::len word"
  assumes "n < LENGTH('a)"
  shows "x XOR 2 ^ n = (if bit x n then x - 2 ^ n else x + 2 ^ n)"
  using assms flip_bit_eq_if [of n x] unfolding flip_bit_def set_bit_eq unset_bit_eq
  by (simp split: if_splits)

lemma bit_int_diff_exp: "k < n \<Longrightarrow> bit ((x::int) - 2 ^ n) k = bit x k"
  by (metis bit_take_bit_iff minus_mod_self2 take_bit_eq_mod)

lemma bit_diff_exp:
  fixes x :: "'a::len word"
  shows "k < n \<Longrightarrow> bit (x - 2 ^ n) k = bit x k"
  by transfer (simp add: bit_int_diff_exp)

text \<open>The value of the low \<open>bits\<close> bits read as a two's complement number.\<close>

definition sval :: "nat \<Rightarrow> u64 \<Rightarrow> int" where
  "sval bits x = signed_take_bit (bits - 1) (uint x)"

lemma uint_less_exp: "take_bit n x = x \<Longrightarrow> uint (x::u64) < 2 ^ n"
  by (metis take_bit_int_less_exp unsigned_take_bit_eq)

lemma div_two_cases: "0 \<le> (X::int) \<Longrightarrow> X < 2 * H \<Longrightarrow> X div H = (if H \<le> X then 1 else 0)"
  by (auto simp: div_pos_geq div_pos_pos_trivial)

lemma exp_split: "0 < n \<Longrightarrow> (2::'a::semiring_1) ^ n = 2 * 2 ^ (n - 1)"
  by (metis Suc_diff_1 power_Suc)

lemma top_bit_iff:
  fixes x :: u64
  assumes "0 < bits" "bits \<le> 64" "take_bit bits x = x"
  shows "bit x (bits - 1) \<longleftrightarrow> 2 ^ (bits - 1) \<le> uint x"
proof -
  have "bit x (bits - 1) \<longleftrightarrow> bit (uint x) (bits - 1)"
    using assms by (auto simp: bit_uint_iff)
  then show ?thesis
    using uint_less_exp [OF assms(3)] exp_split [OF assms(1), where 'a = int]
    by (simp add: bit_iff_odd div_two_cases)
qed

lemma sval_eq:
  assumes "0 < bits" "bits \<le> 64" "take_bit bits x = x"
  shows "sval bits x = (if 2 ^ (bits - 1) \<le> uint x then uint x - 2 * 2 ^ (bits - 1) else uint x)"
proof -
  have "take_bit bits (uint x) = uint x"
    using uint_less_exp [OF assms(3)] by (simp add: take_bit_int_eq_self)
  then have "sval bits x = uint x - 2 ^ bits * of_bool (bit (uint x) (bits - 1))"
    using assms(1) by (simp add: sval_def signed_take_bit_eq_take_bit_minus)
  moreover have "bit (uint x) (bits - 1) \<longleftrightarrow> 2 ^ (bits - 1) \<le> uint x"
    using top_bit_iff [OF assms] assms(1,2) by (auto simp: bit_uint_iff)
  ultimately show ?thesis using exp_split [OF assms(1), where 'a = int] by simp
qed

lemma mod_sub_once: "M \<le> (X::int) \<Longrightarrow> X < 2 * M \<Longrightarrow> X mod M = X - M"
  using mod_pos_pos_trivial [of "X - M" M] by simp

lemma mod_add_once: "- M \<le> (X::int) \<Longrightarrow> X < 0 \<Longrightarrow> X mod M = X + M"
  using mod_pos_pos_trivial [of "X + M" M] by simp

lemma add_overflow_int:
  fixes L R c H :: int
  assumes r: "0 \<le> L" "L < 2 * H" "0 \<le> R" "R < 2 * H" and c: "c = 0 \<or> c = 1"
    and Res: "Res = (L + R + c) mod (2 * H)"
    and s: "sL = (if H \<le> L then L - 2 * H else L)" "sR = (if H \<le> R then R - 2 * H else R)"
  shows "((H \<le> L) = (H \<le> R) \<and> (H \<le> L) \<noteq> (H \<le> Res)) \<longleftrightarrow>
    \<not> (- H \<le> sL + sR + c \<and> sL + sR + c < H)"
proof -
  have c': "0 \<le> c" "c \<le> 1" using c by auto
  have "Res = (if L + R + c < 2 * H then L + R + c else L + R + c - 2 * H)"
    using r c' mod_sub_once [of "2 * H" "L + R + c"] mod_pos_pos_trivial [of "L + R + c" "2 * H"]
    unfolding Res by simp
  from r c' this show ?thesis
    unfolding s by - (cases "H \<le> L"; cases "H \<le> R"; cases "L + R + c < 2 * H"; auto)
qed

lemma sub_overflow_int:
  fixes L R c H :: int
  assumes r: "0 \<le> L" "L < 2 * H" "0 \<le> R" "R < 2 * H" and c: "c = 0 \<or> c = 1"
    and Res: "Res = (L - R - c) mod (2 * H)"
    and s: "sL = (if H \<le> L then L - 2 * H else L)" "sR = (if H \<le> R then R - 2 * H else R)"
  shows "((H \<le> L) \<noteq> (H \<le> R) \<and> (H \<le> L) \<noteq> (H \<le> Res)) \<longleftrightarrow>
    \<not> (- H \<le> sL - sR - c \<and> sL - sR - c < H)"
    and "c = 0 \<Longrightarrow> ((H \<le> Res) = (\<not> (- H \<le> sL - sR \<and> sL - sR < H))) \<longleftrightarrow> sR \<le> sL"
proof -
  have c': "0 \<le> c" "c \<le> 1" using c by auto
  have Res': "Res = (if 0 \<le> L - R - c then L - R - c else L - R - c + 2 * H)"
    using r c' mod_add_once [of "2 * H" "L - R - c"] mod_pos_pos_trivial [of "L - R - c" "2 * H"]
    unfolding Res by simp
  from r c' Res' show "((H \<le> L) \<noteq> (H \<le> R) \<and> (H \<le> L) \<noteq> (H \<le> Res)) \<longleftrightarrow>
    \<not> (- H \<le> sL - sR - c \<and> sL - sR - c < H)"
    unfolding s by - (cases "H \<le> L"; cases "H \<le> R"; cases "0 \<le> L - R - c"; auto)
  show "((H \<le> Res) = (\<not> (- H \<le> sL - sR \<and> sL - sR < H))) \<longleftrightarrow> sR \<le> sL" if "c = 0"
    using r Res' unfolding s that
    by - (cases "H \<le> L"; cases "H \<le> R"; cases "0 \<le> L - R"; auto)
qed

lemma uint_ucast128 [simp]: "uint (ucast (x::u64) :: u128) = uint x"
  using uint_lt2p [of x] by (simp add: unsigned_ucast_eq take_bit_int_eq_self)

lemma uint_wide_sum:
  "uint ((ucast (l::u64) :: u128) + ucast (r::u64) + ucast (c::u64)) = uint l + uint r + uint c"
proof -
  have "uint l < 2 ^ 64" "uint r < 2 ^ 64" "uint c < 2 ^ 64"
    using uint_lt2p [of l] uint_lt2p [of r] uint_lt2p [of c] by simp_all
  then show ?thesis by (simp add: uint_word_ariths)
qed

lemma uint_take_bit_sum:
  assumes "n \<le> 64"
  shows "uint (take_bit n ((l::u64) + r + c)) = (uint l + uint r + uint c) mod 2 ^ n"
proof -
  have "uint (l + r + c) = take_bit 64 (uint l + uint r + uint c)"
    by (simp add: uint_word_ariths take_bit_eq_mod mod_simps)
  then show ?thesis
    using assms by (simp only: unsigned_take_bit_eq take_bit_take_bit) (simp add: take_bit_eq_mod)
qed

lemma uint_take_bit_diff:
  assumes "n \<le> 64"
  shows "uint (take_bit n ((l::u64) - r - c)) = (uint l - uint r - uint c) mod 2 ^ n"
proof -
  have "uint (l - r - c) = take_bit 64 (uint l - uint r - uint c)"
    by (simp add: uint_word_ariths take_bit_eq_mod mod_simps)
  then show ?thesis
    using assms by (simp only: unsigned_take_bit_eq take_bit_take_bit) (simp add: take_bit_eq_mod)
qed

lemma bit_of_sum:
  assumes "0 < bits" "bits \<le> 64" "uint W < 2 * 2 ^ bits"
  shows "bit (W::u128) bits \<longleftrightarrow> 2 ^ bits \<le> uint W"
proof -
  have "bit W bits \<longleftrightarrow> bit (uint W) bits" using assms by (simp add: bit_uint_iff)
  then show ?thesis using assms(3) by (simp add: bit_iff_odd div_two_cases)
qed

lemma sval_take_bit [simp]: "0 < b \<Longrightarrow> sval b (take_bit b x) = sval b x"
  by (cases b) (simp_all add: sval_def unsigned_take_bit_eq signed_take_bit_take_bit)

lemma sval_neg_iff:
  assumes "0 < b" "b \<le> 64"
  shows "sval b x < 0 \<longleftrightarrow> bit x (b - 1)"
  using assms by (auto simp: sval_def signed_take_bit_negative_iff bit_uint_iff)

lemma sval_inject:
  assumes "0 < b" "b \<le> 64"
  shows "sval b x = sval b y \<longleftrightarrow> take_bit b x = take_bit b y"
proof -
  have "sval b x = sval b y \<longleftrightarrow> take_bit b (uint x) = take_bit b (uint y)"
    using assms(1) by (simp add: sval_def signed_take_bit_eq_iff_take_bit_eq)
  also have "\<dots> \<longleftrightarrow> take_bit b x = take_bit b y"
    by (simp add: word_uint_eq_iff unsigned_take_bit_eq)
  finally show ?thesis .
qed

lemma take_bit_diff_u64:
  assumes "n \<le> 64"
  shows "take_bit n (take_bit n a - take_bit n b) = take_bit n (a - b :: u64)"
proof (rule word_uint_eqI)
  show "uint (take_bit n (take_bit n a - take_bit n b)) = uint (take_bit n (a - b))"
    using uint_take_bit_diff [OF assms, of "take_bit n a" "take_bit n b" 0]
      uint_take_bit_diff [OF assms, of a b 0]
    by (simp add: unsigned_take_bit_eq) (simp add: take_bit_eq_mod mod_diff_eq)
qed

lemma uint_take_bit_mod: "uint (take_bit n (w::'a::len word)) = uint w mod 2 ^ n"
  by (subst unsigned_take_bit_eq) (rule take_bit_eq_mod)

lemma mod_sum3: "(A mod M + B mod M + C) mod M = (A + B + C) mod (M::int)"
  using mod_add_left_eq [of "A mod M + B mod M" M C] mod_add_left_eq [of "A + B" M C]
  by (simp only: mod_add_eq)

lemma mod_diff3: "(A mod M - B mod M - C) mod M = (A - B - C) mod (M::int)"
  using mod_diff_left_eq [of "A mod M - B mod M" M C] mod_diff_left_eq [of "A - B" M C]
  by (simp only: mod_diff_eq)

lemma take_bit_sum_u64:
  assumes "n \<le> 64"
  shows "take_bit n (take_bit n a + take_bit n b + c) = take_bit n (a + b + c :: u64)"
proof (rule word_uint_eqI)
  show "uint (take_bit n (take_bit n a + take_bit n b + c)) = uint (take_bit n (a + b + c))"
    using uint_take_bit_sum [OF assms, of "take_bit n a" "take_bit n b" c]
      uint_take_bit_sum [OF assms, of a b c]
    by (simp only: uint_take_bit_mod mod_sum3)
qed

lemma take_bit_diff_u64':
  assumes "n \<le> 64"
  shows "take_bit n (take_bit n a - take_bit n b - c) = take_bit n (a - b - c :: u64)"
proof (rule word_uint_eqI)
  show "uint (take_bit n (take_bit n a - take_bit n b - c)) = uint (take_bit n (a - b - c))"
    using uint_take_bit_diff [OF assms, of "take_bit n a" "take_bit n b" c]
      uint_take_bit_diff [OF assms, of a b c]
    by (simp only: uint_take_bit_mod mod_diff3)
qed

lemma ff_mask: "(0xFF::u64) = mask 8"
  by (simp add: mask_eq_exp_minus_1)

lemma low_bit_flip: "(w AND 1) XOR 1 \<noteq> 0 \<longleftrightarrow> \<not> bit (w::u64) 0"
  by (simp add: and_one_eq_of_bool)

lemma fold_bit: "bit (w XOR drop_bit n w) k \<longleftrightarrow> bit w k \<noteq> bit (w::u64) (k + n)"
  by (simp add: bit_xor_iff bit_drop_bit_eq add.commute)

lemma even_count: "even ((if p then 1 else 0) + (n::nat)) \<longleftrightarrow> (p \<noteq> even n)"
  by simp

lemma neq_ac:
  "((a::bool) \<noteq> b) = (b \<noteq> a)" "((a \<noteq> b) \<noteq> c) = (a \<noteq> (b \<noteq> c))" "(a \<noteq> (b \<noteq> c)) = (b \<noteq> (a \<noteq> c))"
  by auto

lemma bit_word_odd: "n < 64 \<Longrightarrow> bit (w::u64) n \<longleftrightarrow> odd (uint w div 2 ^ n)"
  by (simp add: bit_iff_odd [symmetric] bit_uint_iff)

lemma div_add3:
  fixes X Y C M :: int
  assumes "M \<noteq> 0"
  shows "(X + Y + C) div M = X div M + Y div M + (X mod M + Y mod M + C) div M"
proof -
  have "X + Y + C = (X mod M + Y mod M + C) + M * (X div M + Y div M)"
    using mult_div_mod_eq [of M X] mult_div_mod_eq [of M Y] by (simp add: distrib_left)
  then show ?thesis using assms by (metis add.commute div_mult_self2)
qed

lemma bit_sum3:
  assumes "n < 64"
  shows "bit (l + r + c :: u64) n \<longleftrightarrow> odd ((uint l + uint r + uint c) div 2 ^ n)"
proof -
  have "uint (l + r + c) = take_bit 64 (uint l + uint r + uint c)"
    by (simp add: uint_word_ariths take_bit_eq_mod mod_simps)
  then have "bit (uint (l + r + c)) n = bit (uint l + uint r + uint c) n"
    using assms by (simp add: bit_take_bit_iff)
  then show ?thesis
    using assms by (simp only: bit_word_odd bit_iff_odd [where 'a = int])
qed

lemma bit_diff3:
  assumes "n < 64"
  shows "bit (l - r - c :: u64) n \<longleftrightarrow> odd ((uint l - uint r - uint c) div 2 ^ n)"
proof -
  have "uint (l - r - c) = take_bit 64 (uint l - uint r - uint c)"
    by (simp add: uint_word_ariths take_bit_eq_mod mod_simps)
  then have "bit (uint (l - r - c)) n = bit (uint l - uint r - uint c) n"
    using assms by (simp add: bit_take_bit_iff)
  then show ?thesis
    using assms by (simp only: bit_word_odd bit_iff_odd [where 'a = int])
qed

lemma div_neg_once: "- M \<le> (X::int) \<Longrightarrow> X < 0 \<Longrightarrow> X div M = - 1"
  using div_pos_pos_trivial [of "X + M" M] div_add_self2 [of M X] by auto

lemma carry_into_bit:
  fixes l r c :: u64
  assumes n: "n < 64" and c: "c = 0 \<or> c = 1"
  shows "bit (l XOR r XOR (l + r + c)) n \<longleftrightarrow> 2 ^ n \<le> uint l mod 2 ^ n + uint r mod 2 ^ n + uint c"
proof -
  let ?s = "uint l mod 2 ^ n + uint r mod 2 ^ n + uint c"
  have "0 \<le> ?s" "uint l mod 2 ^ n < 2 ^ n" "uint r mod 2 ^ n < 2 ^ n" by simp_all
  moreover have "uint c \<le> 1" using c by auto
  ultimately have "?s < 2 * 2 ^ n" by linarith
  with \<open>0 \<le> ?s\<close> have "?s div 2 ^ n = (if 2 ^ n \<le> ?s then 1 else 0)"
    by (rule div_two_cases)
  then have "odd (?s div 2 ^ n) \<longleftrightarrow> 2 ^ n \<le> ?s" by simp
  moreover have "bit (l + r + c) n \<longleftrightarrow>
      odd (uint l div 2 ^ n + uint r div 2 ^ n + ?s div 2 ^ n)"
    unfolding bit_sum3 [OF n] by (subst div_add3) simp_all
  ultimately show ?thesis
    using n by (simp add: bit_xor_iff bit_word_odd [of n l] bit_word_odd [of n r]) blast
qed

lemma borrow_into_bit:
  fixes l r c :: u64
  assumes n: "n < 64" and c: "c = 0 \<or> c = 1"
  shows "bit (l XOR r XOR (l - r - c)) n \<longleftrightarrow> uint l mod 2 ^ n < uint r mod 2 ^ n + uint c"
proof -
  let ?X = "uint l" and ?Y = "uint r" and ?M = "2 ^ n :: int"
  let ?s = "?X mod ?M - ?Y mod ?M - uint c"
  have b: "0 \<le> ?X mod ?M" "?X mod ?M < ?M" "0 \<le> ?Y mod ?M" "?Y mod ?M < ?M" by simp_all
  have c': "0 \<le> uint c" "uint c \<le> 1" using c by auto
  have bs: "- ?M \<le> ?s" "?s < ?M" using b c' by linarith+
  have "?s div ?M = (if 0 \<le> ?s then 0 else - 1)"
    using bs div_neg_once [of ?M ?s] div_pos_pos_trivial [of ?s ?M] by (cases "0 \<le> ?s") simp_all
  then have o: "odd (?s div ?M) \<longleftrightarrow> ?X mod ?M < ?Y mod ?M + uint c" by auto
  have "?X - ?Y - uint c = ?s + ?M * (?X div ?M - ?Y div ?M)"
    using mult_div_mod_eq [of ?M ?X] mult_div_mod_eq [of ?M ?Y] unfolding right_diff_distrib
    by linarith
  then have "(?X - ?Y - uint c) div ?M = (?X div ?M - ?Y div ?M) + ?s div ?M"
    by (simp only:) simp
  then have "bit (l - r - c) n \<longleftrightarrow> odd (?X div ?M - ?Y div ?M + ?s div ?M)"
    unfolding bit_diff3 [OF n] by simp
  with o show ?thesis
    using n by (simp add: bit_xor_iff bit_word_odd [of n l] bit_word_odd [of n r]) blast
qed

lemma and_push1: "(fl AND push_bit n 1 \<noteq> (0::u64)) \<longleftrightarrow> bit fl n"
  by (simp add: and_exp_eq_0_iff_not_bit)

end
