(* ===== verification/Interp_Flags.thy ===== *)
theory Interp_Flags
  imports Interp_State Word_Arith
begin

text \<open>
  The virtual flags word (\<^verbatim>\<open>backend/interp/interpreter_flags.cpp\<close> and the flag handlers of
  \<^verbatim>\<open>interpreter.cpp\<close>): how N, Z, C, V, the parity byte and AF are captured from an
  arithmetic instruction, tested, cleared and published.  The lemmas relate the captured bits
  to integer arithmetic at the instruction's width.
\<close>

section \<open>Capturing flags\<close>

definition set_flag :: "u64 \<Rightarrow> nat \<Rightarrow> bool \<Rightarrow> u64" where
  "set_flag fl b on = (if on then fl OR push_bit b 1 else fl AND NOT (push_bit b 1))"

text \<open>
  Carry and overflow of the defining operation: \<open>Some None\<close> when the operation does not
  define them.
\<close>

definition add_cv :: "nat \<Rightarrow> u64 \<Rightarrow> u64 \<Rightarrow> u64 \<Rightarrow> u64 \<Rightarrow> bool \<times> bool" where
  "add_cv bits l r cin result =
     (let wide = (ucast l :: u128) + ucast r + ucast cin;
          sl = SignExtendTo l bits; sr = SignExtendTo r bits; sres = SignExtendTo result bits
      in (drop_bit bits wide AND 1 \<noteq> 0,
          drop_bit (bits - 1) (NOT (sl XOR sr) AND (sl XOR sres)) AND 1 \<noteq> 0))"

definition sub_cv :: "nat \<Rightarrow> u64 \<Rightarrow> u64 \<Rightarrow> u64 \<Rightarrow> u64 \<Rightarrow> bool \<times> bool" where
  "sub_cv bits l r bin result =
     (let sl = SignExtendTo l bits; sr = SignExtendTo r bits; sres = SignExtendTo result bits
      in ((ucast l :: u128) \<ge> ucast r + ucast bin,
          drop_bit (bits - 1) ((sl XOR sr) AND (sl XOR sres)) AND 1 \<noteq> 0))"

definition mul_cv :: "bool \<Rightarrow> nat \<Rightarrow> u64 \<Rightarrow> u64 \<Rightarrow> u64 \<Rightarrow> bool" where
  "mul_cv signed_op bits l r result =
     (if signed_op
      then (scast (SignExtendTo l bits) :: u128) * scast (SignExtendTo r bits)
             \<noteq> scast (SignExtendTo result bits)
      else drop_bit bits ((ucast l :: u128) * ucast r) \<noteq> 0)"

definition flag_carry_in :: "u64 \<Rightarrow> u64" where
  "flag_carry_in fl = drop_bit kHostFlagC fl AND 1"

definition save_cv ::
  "IR \<Rightarrow> InterpStack \<Rightarrow> InstPtr \<Rightarrow> nat \<Rightarrow> u64 \<Rightarrow> u64 \<Rightarrow> (bool \<times> bool) option option" where
  "save_cv ir st d bits result fl =
     (let op = op_code (ir d) in
      if op = Calc Add \<or> op = Calc Adc then do {
        let cin = (if op = Calc Adc then flag_carry_in fl else 0);
        lv \<leftarrow> GetArg_Value (ir d) 0;
        rp \<leftarrow> GetArg_Operand (ir d) 1;
        rv \<leftarrow> EvalOperand ir st rp;
        Some (Some (add_cv bits (ReadScalar ir st lv AND MaskBits bits) (rv AND MaskBits bits)
                      cin result)) }
      else if op = Calc Sub \<or> op = Calc Sbb then do {
        let bin = (if op = Calc Sbb then 1 - flag_carry_in fl else 0);
        lv \<leftarrow> GetArg_Value (ir d) 0;
        rp \<leftarrow> GetArg_Operand (ir d) 1;
        rv \<leftarrow> EvalOperand ir st rp;
        Some (Some (sub_cv bits (ReadScalar ir st lv AND MaskBits bits) (rv AND MaskBits bits)
                      bin result)) }
      else if op = Calc And \<or> op = Calc Or \<or> op = Calc Xor \<or> op = Calc AndNot then
        Some (Some (False, False))
      else if op = Calc Mul \<and> bits < 64 then do {
        lv \<leftarrow> GetArg_Value (ir d) 0;
        rp \<leftarrow> GetArg_Operand (ir d) 1;
        rv \<leftarrow> EvalOperand ir st rp;
        let o' = mul_cv (IsSignValueType (Value_Type ir lv)) bits
                   (ReadScalar ir st lv AND MaskBits bits) (rv AND MaskBits bits) result;
        Some (Some (o', o')) }
      else Some None)"

definition save_af :: "IR \<Rightarrow> InterpStack \<Rightarrow> InstPtr \<Rightarrow> u64 \<Rightarrow> u64 \<Rightarrow> u64 option" where
  "save_af ir st d result fl =
     (let op = op_code (ir d) in
      if op = Calc Add \<or> op = Calc Adc \<or> op = Calc Sub \<or> op = Calc Sbb then do {
        lv \<leftarrow> GetArg_Value (ir d) 0;
        rp \<leftarrow> GetArg_Operand (ir d) 1;
        rv \<leftarrow> EvalOperand ir st rp;
        Some (set_flag fl kHostAF (drop_bit 4 (ReadScalar ir st lv XOR rv XOR result) AND 1 \<noteq> 0)) }
      else Some fl)"

definition store_nz :: "u64 \<Rightarrow> nat \<Rightarrow> u64 \<Rightarrow> u64 \<Rightarrow> u64" where
  "store_nz f bits result fl =
     (let fl1 = (if has_flag f Flags_Negate
                 then set_flag fl kHostFlagN (drop_bit (bits - 1) result AND 1 \<noteq> 0) else fl)
      in if has_flag f Flags_Zero then set_flag fl1 kHostFlagZ (result = 0) else fl1)"

definition store_cv :: "u64 \<Rightarrow> (bool \<times> bool) option \<Rightarrow> u64 \<Rightarrow> u64" where
  "store_cv f cv fl =
     (case cv of
        None \<Rightarrow> fl
      | Some (carry, overflow) \<Rightarrow>
          let fl1 = (if has_flag f Flags_Carry then set_flag fl kHostFlagC carry else fl)
          in if has_flag f Flags_Overflow then set_flag fl1 kHostFlagV overflow else fl1)"

definition store_parity :: "u64 \<Rightarrow> u64 \<Rightarrow> u64 \<Rightarrow> u64" where
  "store_parity f result fl =
     (if has_flag f Flags_Parity
      then (fl AND NOT (push_bit kHostParityByte 0xFF)) OR push_bit kHostParityByte (result AND 0xFF)
      else fl)"

definition SaveGuestFlags :: "IR \<Rightarrow> InterpStack \<Rightarrow> InstPtr \<Rightarrow> u64 \<Rightarrow> u64 \<Rightarrow> u64 option" where
  "SaveGuestFlags ir st d f fl0 = do {
     bits \<leftarrow> TypeBits (ret_type (ir d));
     if bits = 0 \<or> bits > 64 then Some fl0
     else do {
       let result = ReadScalar ir st (Value d VOID);
       let fl1 = store_nz f bits result fl0;
       fl2 \<leftarrow> (if has_flag f (Flags_Carry OR Flags_Overflow)
               then map_option (\<lambda>cv. store_cv f cv fl1) (save_cv ir st d bits result fl1)
               else Some fl1);
       let fl3 = store_parity f result fl2;
       if has_flag f Flags_AuxiliaryCarry then save_af ir st d result fl3 else Some fl3 } }"

section \<open>Testing and clearing flags\<close>

definition nzcv_mask :: "u64 \<Rightarrow> u64" where
  "nzcv_mask f =
     (if has_flag f Flags_Negate then push_bit kHostFlagN 1 else 0)
     OR (if has_flag f Flags_Zero then push_bit kHostFlagZ 1 else 0)
     OR (if has_flag f Flags_Carry then push_bit kHostFlagC 1 else 0)
     OR (if has_flag f Flags_Overflow then push_bit kHostFlagV 1 else 0)"

definition parity_fold :: "u64 \<Rightarrow> bool" where
  "parity_fold fl =
     (let b0 = drop_bit kHostParityByte fl AND 0xFF;
          b1 = b0 XOR drop_bit 4 b0;
          b2 = b1 XOR drop_bit 2 b1;
          b3 = b2 XOR drop_bit 1 b2
      in (b3 AND 1) XOR 1 \<noteq> 0)"

definition TestGuestFlags :: "u64 \<Rightarrow> u64 \<Rightarrow> bool" where
  "TestGuestFlags f fl =
     (let nzcv = nzcv_mask f;
          (r1, first1) = (if nzcv \<noteq> 0 then (fl AND nzcv \<noteq> 0, False) else (False, True));
          (r2, first2) = (if has_flag f Flags_Parity
             then (if first1 then parity_fold fl else r1 \<and> parity_fold fl, False)
             else (r1, first1));
          af = (drop_bit kHostAF fl AND 1 \<noteq> 0)
      in if has_flag f Flags_AuxiliaryCarry then (if first2 then af else r2 \<and> af) else r2)"

definition clear_bit_if :: "bool \<Rightarrow> nat \<Rightarrow> u64 \<Rightarrow> u64" where
  "clear_bit_if b k fl = (if b then fl AND NOT (push_bit k 1) else fl)"

definition reset_parity_if :: "bool \<Rightarrow> u64 \<Rightarrow> u64" where
  "reset_parity_if b fl =
     (if b then (fl AND NOT (push_bit kHostParityByte 0xFF)) OR push_bit kHostParityByte 1 else fl)"

definition ClearGuestFlags :: "u64 \<Rightarrow> u64 \<Rightarrow> u64" where
  "ClearGuestFlags f fl =
     (let fl1 = clear_bit_if (has_flag f Flags_Negate) kHostFlagN fl;
          fl2 = clear_bit_if (has_flag f Flags_Zero) kHostFlagZ fl1;
          fl3 = clear_bit_if (has_flag f Flags_Carry) kHostFlagC fl2;
          fl4 = clear_bit_if (has_flag f Flags_Overflow) kHostFlagV fl3;
          fl5 = reset_parity_if (has_flag f Flags_Parity) fl4
      in clear_bit_if (has_flag f Flags_AuxiliaryCarry) kHostAF fl5)"

fun cond_holds :: "Cond \<Rightarrow> bool \<Rightarrow> bool \<Rightarrow> bool \<Rightarrow> bool \<Rightarrow> bool" where
  "cond_holds EQ n z c v = z"
| "cond_holds NE n z c v = (\<not> z)"
| "cond_holds CS n z c v = c"
| "cond_holds CC n z c v = (\<not> c)"
| "cond_holds MI n z c v = n"
| "cond_holds PL n z c v = (\<not> n)"
| "cond_holds VS n z c v = v"
| "cond_holds VC n z c v = (\<not> v)"
| "cond_holds HI n z c v = (c \<and> \<not> z)"
| "cond_holds LS n z c v = (\<not> c \<or> z)"
| "cond_holds GE n z c v = (n = v)"
| "cond_holds LT n z c v = (n \<noteq> v)"
| "cond_holds GT n z c v = (\<not> z \<and> n = v)"
| "cond_holds LE n z c v = (z \<or> n \<noteq> v)"
| "cond_holds AL n z c v = True"
| "cond_holds NV n z c v = True"

definition EvalCondition :: "Cond \<Rightarrow> u64 \<Rightarrow> bool" where
  "EvalCondition cond fl =
     cond_holds cond (drop_bit kHostFlagN fl AND 1 \<noteq> 0) (drop_bit kHostFlagZ fl AND 1 \<noteq> 0)
       (drop_bit kHostFlagC fl AND 1 \<noteq> 0) (drop_bit kHostFlagV fl AND 1 \<noteq> 0)"

section \<open>Flag handlers\<close>

definition RunGetFlags :: "IR \<Rightarrow> InstPtr \<Rightarrow> InterpStack \<Rightarrow> State \<Rightarrow> InterpStack option" where
  "RunGetFlags ir i st s = WriteScalar ir st i (host_cpu_flags s)"

definition RunSaveFlags :: "IR \<Rightarrow> InstPtr \<Rightarrow> InterpStack \<Rightarrow> State \<Rightarrow> State option" where
  "RunSaveFlags ir i st s = do {
     v \<leftarrow> GetArg_Value (ir i) 0;
     f \<leftarrow> GetArg_Flags (ir i) 1;
     fl \<leftarrow> SaveGuestFlags ir st (Def v) f (host_cpu_flags s);
     Some (s\<lparr>host_cpu_flags := fl\<rparr>) }"

definition RunBranchOnlyFlags :: "IR \<Rightarrow> InstPtr \<Rightarrow> InterpStack \<Rightarrow> State \<Rightarrow> State option" where
  "RunBranchOnlyFlags ir i st s = do {
     v \<leftarrow> GetArg_Value (ir i) 0;
     f \<leftarrow> GetArg_Flags (ir i) 1;
     fl \<leftarrow> SaveGuestFlags ir st (Def v) f (host_cpu_flags s);
     Some (s\<lparr>host_cpu_flags := fl\<rparr>) }"

definition RunTestFlags :: "IR \<Rightarrow> InstPtr \<Rightarrow> InterpStack \<Rightarrow> State \<Rightarrow> InterpStack option" where
  "RunTestFlags ir i st s = do {
     f \<leftarrow> GetArg_Flags (ir i) 0;
     WriteScalar ir st i (if TestGuestFlags f (host_cpu_flags s) then 1 else 0) }"

definition RunTestNotFlags :: "IR \<Rightarrow> InstPtr \<Rightarrow> InterpStack \<Rightarrow> State \<Rightarrow> InterpStack option" where
  "RunTestNotFlags ir i st s = do {
     f \<leftarrow> GetArg_Flags (ir i) 0;
     WriteScalar ir st i (if TestGuestFlags f (host_cpu_flags s) then 0 else 1) }"

definition RunClearFlags :: "IR \<Rightarrow> InstPtr \<Rightarrow> State \<Rightarrow> State option" where
  "RunClearFlags ir i s = do {
     f \<leftarrow> GetArg_Flags (ir i) 0;
     Some (s\<lparr>host_cpu_flags := ClearGuestFlags f (host_cpu_flags s)\<rparr>) }"

definition RunSetCarry :: "IR \<Rightarrow> InstPtr \<Rightarrow> InterpStack \<Rightarrow> State \<Rightarrow> State option" where
  "RunSetCarry ir i st s = do {
     v \<leftarrow> GetArg_Value (ir i) 0;
     let on = (ReadScalar ir st v AND 1 \<noteq> 0);
     Some (s\<lparr>host_cpu_flags := set_flag (host_cpu_flags s) kHostFlagC on\<rparr>) }"

definition RunSetOverflow :: "IR \<Rightarrow> InstPtr \<Rightarrow> InterpStack \<Rightarrow> State \<Rightarrow> State option" where
  "RunSetOverflow ir i st s = do {
     v \<leftarrow> GetArg_Value (ir i) 0;
     let on = (ReadScalar ir st v AND 1 \<noteq> 0);
     Some (s\<lparr>host_cpu_flags := set_flag (host_cpu_flags s) kHostFlagV on\<rparr>) }"

definition RunInvertCarry :: "State \<Rightarrow> State" where
  "RunInvertCarry s = s\<lparr>host_cpu_flags := host_cpu_flags s XOR push_bit kHostFlagC 1\<rparr>"

definition RunPublishFCmpFlags :: "IR \<Rightarrow> InstPtr \<Rightarrow> InterpStack \<Rightarrow> State \<Rightarrow> State option" where
  "RunPublishFCmpFlags ir i st s = do {
     v \<leftarrow> GetArg_Value (ir i) 0;
     m \<leftarrow> GetArg_Imm (ir i) 1;
     let packed = ReadScalar ir st v;
     let compact = of_bool64 (Imm_Get m \<noteq> 0);
     let replaced = push_bit kHostFlagN 1 OR push_bit kHostFlagZ 1 OR push_bit kHostFlagC 1
           OR push_bit kHostFlagV 1 OR push_bit kHostAF 1 OR push_bit kHostParityByte 0xff;
     let fl0 = host_cpu_flags s AND NOT replaced;
     let fl1 = fl0 OR push_bit kHostFlagC ((packed AND 1) XOR compact);
     let fl2 = fl1 OR push_bit kHostFlagZ (drop_bit 2 packed AND 1);
     let fl3 = fl2 OR push_bit kHostParityByte ((drop_bit 1 packed AND 1) XOR 1);
     Some (s\<lparr>host_cpu_flags := fl3\<rparr>) }"

definition sse42_publish :: "u64 \<Rightarrow> u64 \<Rightarrow> u64 \<Rightarrow> nat \<Rightarrow> nat \<Rightarrow> u64 \<Rightarrow> u64" where
  "sse42_publish packed requested flag source target fl =
     (if has_flag requested flag
      then (fl AND NOT (push_bit target 1)) OR push_bit target (drop_bit source packed AND 1)
      else fl)"

definition RunPublishSse42StrFlags :: "IR \<Rightarrow> InstPtr \<Rightarrow> InterpStack \<Rightarrow> State \<Rightarrow> State option" where
  "RunPublishSse42StrFlags ir i st s = do {
     v \<leftarrow> GetArg_Value (ir i) 0;
     requested \<leftarrow> GetArg_Flags (ir i) 1;
     let packed = ReadScalar ir st v;
     let fl1 = sse42_publish packed requested Flags_Negate 24 kHostFlagN (host_cpu_flags s);
     let fl2 = sse42_publish packed requested Flags_Zero 25 kHostFlagZ fl1;
     let fl3 = sse42_publish packed requested Flags_Carry 26 kHostFlagC fl2;
     let fl4 = sse42_publish packed requested Flags_Overflow 27 kHostFlagV fl3;
     let fl5 = clear_bit_if (has_flag requested Flags_AuxiliaryCarry) kHostAF fl4;
     let fl6 = reset_parity_if (has_flag requested Flags_Parity) fl5;
     Some (s\<lparr>host_cpu_flags := fl6\<rparr>) }"

definition RunCondSet :: "IR \<Rightarrow> InstPtr \<Rightarrow> InterpStack \<Rightarrow> State \<Rightarrow> InterpStack option" where
  "RunCondSet ir i st s = do {
     ASSERT (ret_type (ir i) \<noteq> VOID);
     c \<leftarrow> GetArg_Cond (ir i) 0;
     WriteScalar ir st i (if EvalCondition c (host_cpu_flags s) then 1 else 0) }"

definition RunLocalCondSet :: "IR \<Rightarrow> InstPtr \<Rightarrow> InterpStack \<Rightarrow> State \<Rightarrow> InterpStack option" where
  "RunLocalCondSet ir i st s = do {
     c \<leftarrow> GetArg_Cond (ir i) 0;
     WriteScalar ir st i (if EvalCondition c (host_cpu_flags s) then 1 else 0) }"

definition popcount8 :: "u8 \<Rightarrow> nat" where
  "popcount8 w = sum_list (map (\<lambda>k. if bit w k then 1 else 0) [0..<8])"

definition RunLocalParitySet :: "IR \<Rightarrow> InstPtr \<Rightarrow> InterpStack \<Rightarrow> InterpStack option" where
  "RunLocalParitySet ir i st = do {
     v \<leftarrow> GetArg_Value (ir i) 0;
     m \<leftarrow> GetArg_Imm (ir i) 1;
     let even0 = (popcount8 (ucast (ReadScalar ir st v)) mod 2 = 0);
     let even1 = (if Imm_Get m \<noteq> 0 then \<not> even0 else even0);
     WriteScalar ir st i (if even1 then 1 else 0) }"

definition fcmp_take :: "Cond \<Rightarrow> u64 \<Rightarrow> bool" where
  "fcmp_take cond packed =
     (let less = (packed AND 7 = 1); equal = (packed AND 7 = 4); unordered = (packed AND 7 = 7)
      in cond_holds cond less equal (\<not> less) unordered)"

definition RunFCmpCondSet :: "IR \<Rightarrow> InstPtr \<Rightarrow> InterpStack \<Rightarrow> InterpStack option" where
  "RunFCmpCondSet ir i st = do {
     v \<leftarrow> GetArg_Value (ir i) 0;
     c \<leftarrow> GetArg_Cond (ir i) 1;
     WriteScalar ir st i (if fcmp_take c (ReadScalar ir st v) then 1 else 0) }"

lemmas flag_run_defs [run_defs] = RunGetFlags_def RunSaveFlags_def RunBranchOnlyFlags_def
  RunTestFlags_def RunTestNotFlags_def RunClearFlags_def RunSetCarry_def RunSetOverflow_def
  RunInvertCarry_def RunPublishFCmpFlags_def RunPublishSse42StrFlags_def RunCondSet_def
  RunLocalCondSet_def RunLocalParitySet_def RunFCmpCondSet_def

section \<open>Bits and integers\<close>

lemma bit_set_flag [simp]: "b < 64 \<Longrightarrow> bit (set_flag fl b on) k \<longleftrightarrow> (if k = b then on else bit fl k)"
  by (auto simp: set_flag_def bit_or_iff bit_and_iff bit_not_iff bit_exp_iff
      dest: bit_imp_le_length)

lemma SignExtendTo_if:
  assumes "0 < bits" "bits < 64"
  shows "SignExtendTo x bits = (if bit x (bits - 1) then x - 2 ^ bits else x)"
proof -
  have "(2::u64) ^ bits = 2 ^ (bits - 1) + 2 ^ (bits - 1)"
    using assms by (cases bits) simp_all
  then show ?thesis
    using assms xor_exp_word [of "bits - 1" x] by (simp add: SignExtendTo_def Let_def)
qed

lemma bit_SignExtendTo:
  "0 < bits \<Longrightarrow> bits \<le> 64 \<Longrightarrow> k < bits \<Longrightarrow> bit (SignExtendTo x bits) k = bit x k"
  by (cases "bits < 64") (simp_all add: SignExtendTo_if bit_diff_exp, simp add: SignExtendTo_def)

lemma add_cv_spec:
  fixes l r cin result :: u64
  assumes bits: "0 < bits" "bits \<le> 64"
    and lr: "take_bit bits l = l" "take_bit bits r = r" and cin: "cin = 0 \<or> cin = 1"
    and res: "result = take_bit bits (l + r + cin)"
  shows "fst (add_cv bits l r cin result) \<longleftrightarrow> 2 ^ bits \<le> uint l + uint r + uint cin"
    and "snd (add_cv bits l r cin result) \<longleftrightarrow>
      \<not> (- (2 ^ (bits - 1)) \<le> sval bits l + sval bits r + uint cin \<and>
         sval bits l + sval bits r + uint cin < 2 ^ (bits - 1))"
proof -
  note E = exp_split [OF bits(1), where 'a = int]
  have L: "uint l < 2 ^ bits" "uint r < 2 ^ bits" using lr by (simp_all add: uint_less_exp)
  have c: "uint cin = 0 \<or> uint cin = 1" using cin by auto
  have tres: "take_bit bits result = result" using res by simp
  have less: "bits - 1 < 64" using bits by simp
  have L': "uint l < 2 * 2 ^ (bits - 1)" "uint r < 2 * 2 ^ (bits - 1)" using L E by simp_all
  note top = top_bit_iff [OF bits lr(1)] top_bit_iff [OF bits lr(2)] top_bit_iff [OF bits tres]
  have ures: "uint result = (uint l + uint r + uint cin) mod (2 * 2 ^ (bits - 1))"
    using res uint_take_bit_sum [OF bits(2)] E by simp
  show "fst (add_cv bits l r cin result) \<longleftrightarrow> 2 ^ bits \<le> uint l + uint r + uint cin"
    unfolding add_cv_def Let_def fst_conv bit_test
    by (subst bit_of_sum) (use bits L c in \<open>auto simp: uint_wide_sum\<close>)
  show "snd (add_cv bits l r cin result) \<longleftrightarrow>
      \<not> (- (2 ^ (bits - 1)) \<le> sval bits l + sval bits r + uint cin \<and>
         sval bits l + sval bits r + uint cin < 2 ^ (bits - 1))"
  proof -
    have "bit (NOT (SignExtendTo l bits XOR SignExtendTo r bits) AND
          (SignExtendTo l bits XOR SignExtendTo result bits)) (bits - 1) \<longleftrightarrow>
        bit l (bits - 1) = bit r (bits - 1) \<and> bit l (bits - 1) \<noteq> bit result (bits - 1)"
      using bits less by (simp add: bit_and_iff bit_xor_iff bit_not_iff bit_SignExtendTo)
    also have "\<dots> \<longleftrightarrow> (2 ^ (bits - 1) \<le> uint l) = (2 ^ (bits - 1) \<le> uint r) \<and>
        (2 ^ (bits - 1) \<le> uint l) \<noteq> (2 ^ (bits - 1) \<le> uint result)" by (simp only: top)
    also note add_overflow_int [OF _ L'(1) _ L'(2) c ures sval_eq [OF bits lr(1)]
        sval_eq [OF bits lr(2)], OF uint_ge_0 uint_ge_0]
    finally show ?thesis unfolding add_cv_def Let_def snd_conv bit_test .
  qed
qed

lemma sub_cv_spec:
  fixes l r bin result :: u64
  assumes bits: "0 < bits" "bits \<le> 64"
    and lr: "take_bit bits l = l" "take_bit bits r = r" and bin: "bin = 0 \<or> bin = 1"
    and res: "result = take_bit bits (l - r - bin)"
  shows "fst (sub_cv bits l r bin result) \<longleftrightarrow> uint r + uint bin \<le> uint l"
    and "snd (sub_cv bits l r bin result) \<longleftrightarrow>
      \<not> (- (2 ^ (bits - 1)) \<le> sval bits l - sval bits r - uint bin \<and>
         sval bits l - sval bits r - uint bin < 2 ^ (bits - 1))"
proof -
  note E = exp_split [OF bits(1), where 'a = int]
  have L: "uint l < 2 ^ bits" "uint r < 2 ^ bits" using lr by (simp_all add: uint_less_exp)
  have c: "uint bin = 0 \<or> uint bin = 1" using bin by auto
  have tres: "take_bit bits result = result" using res by simp
  have less: "bits - 1 < 64" using bits by simp
  have L': "uint l < 2 * 2 ^ (bits - 1)" "uint r < 2 * 2 ^ (bits - 1)" using L E by simp_all
  note top = top_bit_iff [OF bits lr(1)] top_bit_iff [OF bits lr(2)] top_bit_iff [OF bits tres]
  have ures: "uint result = (uint l - uint r - uint bin) mod (2 * 2 ^ (bits - 1))"
    using res uint_take_bit_diff [OF bits(2)] E by simp
  show "fst (sub_cv bits l r bin result) \<longleftrightarrow> uint r + uint bin \<le> uint l"
    using uint_wide_sum [of r bin 0] by (simp add: sub_cv_def Let_def word_le_def)
  show "snd (sub_cv bits l r bin result) \<longleftrightarrow>
      \<not> (- (2 ^ (bits - 1)) \<le> sval bits l - sval bits r - uint bin \<and>
         sval bits l - sval bits r - uint bin < 2 ^ (bits - 1))"
  proof -
    have "bit ((SignExtendTo l bits XOR SignExtendTo r bits) AND
          (SignExtendTo l bits XOR SignExtendTo result bits)) (bits - 1) \<longleftrightarrow>
        bit l (bits - 1) \<noteq> bit r (bits - 1) \<and> bit l (bits - 1) \<noteq> bit result (bits - 1)"
      using bits less by (simp add: bit_and_iff bit_xor_iff bit_SignExtendTo)
    also have "\<dots> \<longleftrightarrow> (2 ^ (bits - 1) \<le> uint l) \<noteq> (2 ^ (bits - 1) \<le> uint r) \<and>
        (2 ^ (bits - 1) \<le> uint l) \<noteq> (2 ^ (bits - 1) \<le> uint result)" by (simp only: top)
    also note sub_overflow_int(1) [OF _ L'(1) _ L'(2) c ures sval_eq [OF bits lr(1)]
        sval_eq [OF bits lr(2)], OF uint_ge_0 uint_ge_0]
    finally show ?thesis unfolding sub_cv_def Let_def snd_conv bit_test .
  qed
qed

section \<open>Comparison through the flags\<close>

fun cmp_spec :: "Cond \<Rightarrow> nat \<Rightarrow> u64 \<Rightarrow> u64 \<Rightarrow> bool" where
  "cmp_spec EQ b l r = (take_bit b l = take_bit b r)"
| "cmp_spec NE b l r = (take_bit b l \<noteq> take_bit b r)"
| "cmp_spec CS b l r = (take_bit b r \<le> take_bit b l)"
| "cmp_spec CC b l r = (take_bit b l < take_bit b r)"
| "cmp_spec MI b l r = (sval b (l - r) < 0)"
| "cmp_spec PL b l r = (0 \<le> sval b (l - r))"
| "cmp_spec VS b l r = (\<not> (- (2 ^ (b - 1)) \<le> sval b l - sval b r \<and> sval b l - sval b r < 2 ^ (b - 1)))"
| "cmp_spec VC b l r = (- (2 ^ (b - 1)) \<le> sval b l - sval b r \<and> sval b l - sval b r < 2 ^ (b - 1))"
| "cmp_spec HI b l r = (take_bit b r < take_bit b l)"
| "cmp_spec LS b l r = (take_bit b l \<le> take_bit b r)"
| "cmp_spec GE b l r = (sval b r \<le> sval b l)"
| "cmp_spec LT b l r = (sval b l < sval b r)"
| "cmp_spec GT b l r = (sval b r < sval b l)"
| "cmp_spec LE b l r = (sval b l \<le> sval b r)"
| "cmp_spec AL b l r = True"
| "cmp_spec NV b l r = True"

lemma nzcv_sub_cond:
  assumes bits: "0 < b" "b \<le> 64"
    and lr: "l = take_bit b l0" "r = take_bit b r0" and res: "res = take_bit b (l0 - r0)"
  shows "cond_holds c (bit res (b - 1)) (res = 0) (fst (sub_cv b l r 0 res)) (snd (sub_cv b l r 0 res))
    = cmp_spec c b l0 r0"
proof -
  note E = exp_split [OF bits(1), where 'a = int]
  have tb: "take_bit b l = l" "take_bit b r = r" "take_bit b res = res" using lr res by simp_all
  have res': "res = take_bit b (l - r - 0)"
    using lr res bits by (simp add: take_bit_diff_u64)
  have ures: "uint res = (uint l - uint r - 0) mod (2 * 2 ^ (b - 1))"
    using res' uint_take_bit_diff [OF bits(2), of l r 0] E by simp
  have L: "uint l < 2 * 2 ^ (b - 1)" "uint r < 2 * 2 ^ (b - 1)"
    using uint_less_exp [OF tb(1)] uint_less_exp [OF tb(2)] E by simp_all
  have "uint res = 0 \<longleftrightarrow> uint l mod (2 * 2 ^ (b - 1)) = uint r mod (2 * 2 ^ (b - 1))"
    by (simp only: ures mod_eq_dvd_iff dvd_eq_mod_eq_0 diff_zero)
  then have z: "res = 0 \<longleftrightarrow> l = r"
    using L uint_0_iff [of res] by (simp add: mod_pos_pos_trivial word_uint_eq_iff [of l])
  have n: "bit res (b - 1) \<longleftrightarrow> sval b (l0 - r0) < 0"
    using bits res by (auto simp: sval_neg_iff bit_take_bit_iff)
  have c: "fst (sub_cv b l r 0 res) \<longleftrightarrow> r \<le> l"
    using sub_cv_spec(1) [OF bits tb(1,2) _ res'] by (simp add: word_le_def)
  have sv: "sval b l0 = sval b l" "sval b r0 = sval b r" using lr bits by simp_all
  have v: "snd (sub_cv b l r 0 res) \<longleftrightarrow>
      \<not> (- (2 ^ (b - 1)) \<le> sval b l0 - sval b r0 \<and> sval b l0 - sval b r0 < 2 ^ (b - 1))"
    using sub_cv_spec(2) [OF bits tb(1,2) _ res'] sv by simp
  have g: "(bit res (b - 1) = snd (sub_cv b l r 0 res)) \<longleftrightarrow> sval b r0 \<le> sval b l0"
    using sub_overflow_int(2) [OF _ L(1) _ L(2) _ ures sval_eq [OF bits tb(1)] sval_eq [OF bits tb(2)]]
      top_bit_iff [OF bits tb(3)] v sv by simp
  have e: "sval b l0 = sval b r0 \<longleftrightarrow> l = r" using sval_inject [OF bits] lr by simp
  have o: "(r \<le> l \<and> l \<noteq> r) = (r < l)" "(l < r \<or> l = r) = (l \<le> r)"
    "(l \<noteq> r \<and> sval b r0 \<le> sval b l0) = (sval b r0 < sval b l0)"
    "(l = r \<or> sval b l0 < sval b r0) = (sval b l0 \<le> sval b r0)"
    using e by auto
  show ?thesis
    unfolding z n v c
    by (cases c) (simp_all only: cond_holds.simps cmp_spec.simps g [unfolded n v] o not_le not_less
        not_not lr [symmetric])
qed

section \<open>What a flag capture writes\<close>

lemma has_flag_or: "has_flag f (a OR b) \<longleftrightarrow> has_flag f a \<or> has_flag f b"
  by (simp add: has_flag_def bit.conj_disj_distrib or_eq_0_iff)

lemma flag_carry_in_set_flag [simp]:
  "b < 64 \<Longrightarrow> b \<noteq> kHostFlagC \<Longrightarrow> flag_carry_in (set_flag fl b on) = flag_carry_in fl"
  by (simp add: flag_carry_in_def and_one_eq_of_bool bit_drop_bit_eq)

lemma save_cv_carry_only: "flag_carry_in fl = flag_carry_in fl' \<Longrightarrow> save_cv ir st d b res fl = save_cv ir st d b res fl'"
  by (simp add: save_cv_def Let_def)

lemma store_nz_bits:
  "bit (store_nz f b res fl) k \<longleftrightarrow>
    (if k = kHostFlagN \<and> has_flag f Flags_Negate then bit res (b - 1)
     else if k = kHostFlagZ \<and> has_flag f Flags_Zero then res = 0 else bit fl k)"
  unfolding store_nz_def Let_def bit_test by (auto simp: host_flag_bits)

lemma store_cv_bits:
  "bit (store_cv f cv fl) k \<longleftrightarrow>
    (case cv of None \<Rightarrow> bit fl k | Some (c, v) \<Rightarrow>
       if k = kHostFlagC \<and> has_flag f Flags_Carry then c
       else if k = kHostFlagV \<and> has_flag f Flags_Overflow then v else bit fl k)"
  by (auto simp: store_cv_def Let_def host_flag_bits split: option.splits)

lemma store_parity_bits:
  "bit (store_parity f res fl) k \<longleftrightarrow>
    (if k < 8 \<and> has_flag f Flags_Parity then bit res k else bit fl k)"
  by (auto simp: store_parity_def host_flag_bits ff_mask bit_or_iff bit_and_iff bit_not_iff
      bit_mask_iff dest: bit_imp_le_length)

lemma save_af_bits:
  "save_af ir st d res fl = Some fl' \<Longrightarrow> k \<noteq> kHostAF \<Longrightarrow> bit fl' k = bit fl k"
  by (auto simp: save_af_def Let_def host_flag_bits bind_eq_Some_conv split: if_splits)

lemma carry_in_store_nz [simp]: "flag_carry_in (store_nz f b res fl) = flag_carry_in fl"
  by (simp add: flag_carry_in_def and_one_eq_of_bool bit_drop_bit_eq store_nz_bits)
    (simp add: host_flag_bits)

text \<open>The carry and overflow a capture stores; \<^const>\<open>None\<close> when it leaves both alone.\<close>

definition captured_cv :: "IR \<Rightarrow> InterpStack \<Rightarrow> InstPtr \<Rightarrow> nat \<Rightarrow> u64 \<Rightarrow> (bool \<times> bool) option" where
  "captured_cv ir st d b fl =
     Option.bind (save_cv ir st d b (ReadScalar ir st (Value d VOID)) fl) (\<lambda>x. x)"

lemma SaveGuestFlags_bits:
  assumes run: "SaveGuestFlags ir st d f fl = Some fl'"
    and b: "TypeBits (ret_type (ir d)) = Some b" "0 < b" "b \<le> 64" and k: "k \<noteq> kHostAF"
  shows "bit fl' k \<longleftrightarrow>
    bit (store_parity f (ReadScalar ir st (Value d VOID))
      (store_cv f (captured_cv ir st d b fl) (store_nz f b (ReadScalar ir st (Value d VOID)) fl))) k"
proof -
  define res where "res = ReadScalar ir st (Value d VOID)"
  note cv = save_cv_carry_only [OF carry_in_store_nz, of ir st d b res]
  obtain fl2 where fl2: "(if has_flag f (Flags_Carry OR Flags_Overflow)
      then map_option (\<lambda>cv. store_cv f cv (store_nz f b res fl)) (save_cv ir st d b res (store_nz f b res fl))
      else Some (store_nz f b res fl)) = Some fl2"
    and fl': "(if has_flag f Flags_AuxiliaryCarry then save_af ir st d res (store_parity f res fl2)
      else Some (store_parity f res fl2)) = Some fl'"
    using run b by (auto simp: SaveGuestFlags_def res_def [symmetric] Let_def bind_eq_Some_conv)
  have "fl2 = store_cv f (captured_cv ir st d b fl) (store_nz f b res fl)"
    using fl2 unfolding cv captured_cv_def res_def [symmetric]
    by - (cases "save_cv ir st d b res fl"; auto simp: store_cv_def has_flag_or Let_def
        split: if_splits option.splits)
  moreover have "bit fl' k = bit (store_parity f res fl2) k"
    using fl' save_af_bits [OF _ k] by (auto split: if_splits)
  ultimately show ?thesis by (simp add: res_def)
qed

lemma SaveGuestFlags_total:
  assumes "TypeBits (ret_type (ir d)) = Some b"
    and "GetArg_Value (ir d) 0 = Some lv" "GetArg_Operand (ir d) 1 = Some rp"
    and "EvalOperand ir st rp = Some r"
  shows "\<exists>fl'. SaveGuestFlags ir st d f fl = Some fl'"
  using assms by (auto simp: SaveGuestFlags_def save_cv_def save_af_def Let_def)

lemma take_bit_MaskBits: "x AND MaskBits b = take_bit b x"
  by (simp add: MaskBits_mask take_bit_eq_mask)

text \<open>
  Capturing all four condition flags of a subtraction and testing a condition code compares
  the operands.
\<close>

lemma SaveGuestFlags_sub_cond:
  assumes op: "op_code (ir d) = Calc Sub"
    and b: "TypeBits (ret_type (ir d)) = Some b" "0 < b" "b \<le> 64"
    and args: "GetArg_Value (ir d) 0 = Some lv" "GetArg_Operand (ir d) 1 = Some rp"
      "EvalOperand ir st rp = Some r"
    and res: "ReadScalar ir st (Value d VOID) = (ReadScalar ir st lv - r) AND MaskBits b"
    and f: "has_flag f Flags_Negate" "has_flag f Flags_Zero" "has_flag f Flags_Carry"
      "has_flag f Flags_Overflow"
    and run: "SaveGuestFlags ir st d f fl = Some fl'"
  shows "EvalCondition c fl' = cmp_spec c b (ReadScalar ir st lv) r"
proof -
  let ?l = "take_bit b (ReadScalar ir st lv)" and ?r = "take_bit b r"
  let ?res = "take_bit b (ReadScalar ir st lv - r)"
  have cv: "captured_cv ir st d b fl = Some (sub_cv b ?l ?r 0 ?res)"
    using op args res by (simp add: captured_cv_def save_cv_def take_bit_MaskBits)
  have res': "ReadScalar ir st (Value d VOID) = ?res" using res by (simp add: take_bit_MaskBits)
  note bits = SaveGuestFlags_bits [OF run b, unfolded store_parity_bits store_cv_bits store_nz_bits cv res']
  have "bit fl' kHostFlagN = bit ?res (b - 1)" "bit fl' kHostFlagZ = (?res = 0)"
    "bit fl' kHostFlagC = fst (sub_cv b ?l ?r 0 ?res)" "bit fl' kHostFlagV = snd (sub_cv b ?l ?r 0 ?res)"
    using f bits [of kHostFlagN] bits [of kHostFlagZ] bits [of kHostFlagC] bits [of kHostFlagV]
    by (simp_all add: host_flag_bits split: prod.splits)
  then show ?thesis
    unfolding EvalCondition_def bit_test using nzcv_sub_cond [OF b(2,3) refl refl refl, of c] by simp
qed

text \<open>The condition flags of an addition or subtraction, with incoming carry.\<close>

lemma SaveGuestFlags_add_flags:
  assumes op: "op_code (ir d) = Calc Add \<and> cin = 0 \<or> op_code (ir d) = Calc Adc \<and> cin = flag_carry_in fl"
    and b: "TypeBits (ret_type (ir d)) = Some b" "0 < b" "b \<le> 64"
    and args: "GetArg_Value (ir d) 0 = Some lv" "GetArg_Operand (ir d) 1 = Some rp"
      "EvalOperand ir st rp = Some r"
    and res: "ReadScalar ir st (Value d VOID) = (ReadScalar ir st lv + r + cin) AND MaskBits b"
    and run: "SaveGuestFlags ir st d f fl = Some fl'"
  defines "l \<equiv> take_bit b (ReadScalar ir st lv)" and "r' \<equiv> take_bit b r"
  shows "has_flag f Flags_Negate \<Longrightarrow> bit fl' kHostFlagN \<longleftrightarrow> sval b (l + r' + cin) < 0"
    and "has_flag f Flags_Zero \<Longrightarrow> bit fl' kHostFlagZ \<longleftrightarrow> take_bit b (l + r' + cin) = 0"
    and "has_flag f Flags_Carry \<Longrightarrow> bit fl' kHostFlagC \<longleftrightarrow> 2 ^ b \<le> uint l + uint r' + uint cin"
    and "has_flag f Flags_Overflow \<Longrightarrow> bit fl' kHostFlagV \<longleftrightarrow>
      \<not> (- (2 ^ (b - 1)) \<le> sval b l + sval b r' + uint cin \<and> sval b l + sval b r' + uint cin < 2 ^ (b - 1))"
proof -
  have c: "cin = 0 \<or> cin = 1" using op by (auto simp: flag_carry_in_def and_one_eq_of_bool)
  let ?res = "take_bit b (l + r' + cin)"
  have res': "ReadScalar ir st (Value d VOID) = ?res"
    using res take_bit_sum_u64 [OF b(3)] by (simp add: take_bit_MaskBits l_def r'_def)
  have cv: "captured_cv ir st d b fl = Some (add_cv b l r' cin ?res)"
    using op args res' by (auto simp: captured_cv_def save_cv_def take_bit_MaskBits l_def r'_def)
  have tb: "take_bit b l = l" "take_bit b r' = r'" by (simp_all add: l_def r'_def)
  note bits = SaveGuestFlags_bits [OF run b, unfolded store_parity_bits store_cv_bits store_nz_bits cv res']
  note cvs = add_cv_spec [OF b(2,3) tb c refl]
  show "has_flag f Flags_Negate \<Longrightarrow> bit fl' kHostFlagN \<longleftrightarrow> sval b (l + r' + cin) < 0"
    using bits [of kHostFlagN] b by (auto simp: host_flag_bits sval_neg_iff bit_take_bit_iff split: prod.splits)
  show "has_flag f Flags_Zero \<Longrightarrow> bit fl' kHostFlagZ \<longleftrightarrow> ?res = 0"
    using bits [of kHostFlagZ] by (auto simp: host_flag_bits split: prod.splits)
  show "has_flag f Flags_Carry \<Longrightarrow> bit fl' kHostFlagC \<longleftrightarrow> 2 ^ b \<le> uint l + uint r' + uint cin"
    using bits [of kHostFlagC] cvs(1) by (simp add: host_flag_bits split: prod.splits)
  show "has_flag f Flags_Overflow \<Longrightarrow> bit fl' kHostFlagV \<longleftrightarrow>
      \<not> (- (2 ^ (b - 1)) \<le> sval b l + sval b r' + uint cin \<and> sval b l + sval b r' + uint cin < 2 ^ (b - 1))"
    using bits [of kHostFlagV] cvs(2) by (simp add: host_flag_bits split: prod.splits)
qed

lemma SaveGuestFlags_sbb_flags:
  assumes op: "op_code (ir d) = Calc Sub \<and> bin = 0 \<or> op_code (ir d) = Calc Sbb \<and> bin = 1 - flag_carry_in fl"
    and b: "TypeBits (ret_type (ir d)) = Some b" "0 < b" "b \<le> 64"
    and args: "GetArg_Value (ir d) 0 = Some lv" "GetArg_Operand (ir d) 1 = Some rp"
      "EvalOperand ir st rp = Some r"
    and res: "ReadScalar ir st (Value d VOID) = (ReadScalar ir st lv - r - bin) AND MaskBits b"
    and run: "SaveGuestFlags ir st d f fl = Some fl'"
  defines "l \<equiv> take_bit b (ReadScalar ir st lv)" and "r' \<equiv> take_bit b r"
  shows "has_flag f Flags_Negate \<Longrightarrow> bit fl' kHostFlagN \<longleftrightarrow> sval b (l - r' - bin) < 0"
    and "has_flag f Flags_Zero \<Longrightarrow> bit fl' kHostFlagZ \<longleftrightarrow> take_bit b (l - r' - bin) = 0"
    and "has_flag f Flags_Carry \<Longrightarrow> bit fl' kHostFlagC \<longleftrightarrow> uint r' + uint bin \<le> uint l"
    and "has_flag f Flags_Overflow \<Longrightarrow> bit fl' kHostFlagV \<longleftrightarrow>
      \<not> (- (2 ^ (b - 1)) \<le> sval b l - sval b r' - uint bin \<and> sval b l - sval b r' - uint bin < 2 ^ (b - 1))"
proof -
  have c: "bin = 0 \<or> bin = 1"
    using op by (auto simp: flag_carry_in_def and_one_eq_of_bool split: if_splits)
  let ?res = "take_bit b (l - r' - bin)"
  have res': "ReadScalar ir st (Value d VOID) = ?res"
    using res take_bit_diff_u64' [OF b(3)] by (simp add: take_bit_MaskBits l_def r'_def)
  have cv: "captured_cv ir st d b fl = Some (sub_cv b l r' bin ?res)"
    using op args res' by (auto simp: captured_cv_def save_cv_def take_bit_MaskBits l_def r'_def)
  have tb: "take_bit b l = l" "take_bit b r' = r'" by (simp_all add: l_def r'_def)
  note bits = SaveGuestFlags_bits [OF run b, unfolded store_parity_bits store_cv_bits store_nz_bits cv res']
  note cvs = sub_cv_spec [OF b(2,3) tb c refl]
  show "has_flag f Flags_Negate \<Longrightarrow> bit fl' kHostFlagN \<longleftrightarrow> sval b (l - r' - bin) < 0"
    using bits [of kHostFlagN] b by (auto simp: host_flag_bits sval_neg_iff bit_take_bit_iff split: prod.splits)
  show "has_flag f Flags_Zero \<Longrightarrow> bit fl' kHostFlagZ \<longleftrightarrow> ?res = 0"
    using bits [of kHostFlagZ] by (auto simp: host_flag_bits split: prod.splits)
  show "has_flag f Flags_Carry \<Longrightarrow> bit fl' kHostFlagC \<longleftrightarrow> uint r' + uint bin \<le> uint l"
    using bits [of kHostFlagC] cvs(1) by (simp add: host_flag_bits split: prod.splits)
  show "has_flag f Flags_Overflow \<Longrightarrow> bit fl' kHostFlagV \<longleftrightarrow>
      \<not> (- (2 ^ (b - 1)) \<le> sval b l - sval b r' - uint bin \<and> sval b l - sval b r' - uint bin < 2 ^ (b - 1))"
    using bits [of kHostFlagV] cvs(2) by (simp add: host_flag_bits split: prod.splits)
qed

section \<open>Parity and auxiliary carry\<close>

lemma low_byte_bit: "k < 8 \<Longrightarrow> bit (drop_bit kHostParityByte fl AND 0xFF) k = bit (fl::u64) k"
  by (simp add: host_flag_bits ff_mask bit_and_iff bit_mask_iff)

lemma parity_fold_xor:
  "parity_fold fl \<longleftrightarrow>
    \<not> (((bit fl 0 \<noteq> bit fl 4) \<noteq> (bit fl 2 \<noteq> bit fl 6)) \<noteq> ((bit fl 1 \<noteq> bit fl 5) \<noteq> (bit fl 3 \<noteq> bit fl 7)))"
  unfolding parity_fold_def Let_def low_bit_flip fold_bit
  by (simp add: low_byte_bit numeral_2_eq_2 numeral_3_eq_3)

lemma popcount8_parity:
  "even (popcount8 w) \<longleftrightarrow>
    (((bit w 0 \<noteq> bit w 4) \<noteq> (bit w 2 \<noteq> bit w 6)) \<noteq> ((bit w 1 \<noteq> bit w 5) \<noteq> (bit w 3 \<noteq> bit w 7))) \<noteq> True"
proof -
  have "[0..<8] = [0, 1, 2, 3, 4, 5, 6, 7::nat]" by (simp add: upt_rec)
  moreover have "even (0::nat) = True" by simp
  ultimately show ?thesis
    unfolding popcount8_def
    by (simp only: list.map sum_list.Cons sum_list.Nil even_count neq_ac)
qed

lemma parity_fold_popcount: "parity_fold fl \<longleftrightarrow> even (popcount8 (ucast fl))"
  by (simp add: parity_fold_xor popcount8_parity bit_ucast_iff)

text \<open>AF is the carry, or the borrow, between the low nibbles.\<close>

lemma SaveGuestFlags_af:
  assumes op: "op_code (ir d) = Calc Add \<and> cin = 0 \<or> op_code (ir d) = Calc Adc \<and> cin = flag_carry_in fl"
    and b: "TypeBits (ret_type (ir d)) = Some b" "8 \<le> b" "b \<le> 64"
    and args: "GetArg_Value (ir d) 0 = Some lv" "GetArg_Operand (ir d) 1 = Some rp"
      "EvalOperand ir st rp = Some r"
    and res: "ReadScalar ir st (Value d VOID) = (ReadScalar ir st lv + r + cin) AND MaskBits b"
    and f: "has_flag f Flags_AuxiliaryCarry"
    and run: "SaveGuestFlags ir st d f fl = Some fl'"
  shows "bit fl' kHostAF \<longleftrightarrow> 16 \<le> uint (ReadScalar ir st lv) mod 16 + uint r mod 16 + uint cin"
proof -
  have c: "cin = 0 \<or> cin = 1" using op by (auto simp: flag_carry_in_def and_one_eq_of_bool)
  obtain fl3 where "save_af ir st d (ReadScalar ir st (Value d VOID)) fl3 = Some fl'"
    using run b f by (auto simp: SaveGuestFlags_def Let_def bind_eq_Some_conv)
  then have "bit fl' kHostAF \<longleftrightarrow>
      bit (ReadScalar ir st lv XOR r XOR take_bit b (ReadScalar ir st lv + r + cin)) 4"
    using op args res unfolding save_af_def Let_def bit_test
    by (auto simp: take_bit_MaskBits host_flag_bits)
  also have "\<dots> \<longleftrightarrow> bit (ReadScalar ir st lv XOR r XOR (ReadScalar ir st lv + r + cin)) 4"
    using b by (simp add: bit_xor_iff bit_take_bit_iff)
  finally show ?thesis using carry_into_bit [of 4, OF _ c] by simp
qed

lemma SaveGuestFlags_af_sub:
  assumes op: "op_code (ir d) = Calc Sub \<and> bin = 0 \<or> op_code (ir d) = Calc Sbb \<and> bin = 1 - flag_carry_in fl"
    and b: "TypeBits (ret_type (ir d)) = Some b" "8 \<le> b" "b \<le> 64"
    and args: "GetArg_Value (ir d) 0 = Some lv" "GetArg_Operand (ir d) 1 = Some rp"
      "EvalOperand ir st rp = Some r"
    and res: "ReadScalar ir st (Value d VOID) = (ReadScalar ir st lv - r - bin) AND MaskBits b"
    and f: "has_flag f Flags_AuxiliaryCarry"
    and run: "SaveGuestFlags ir st d f fl = Some fl'"
  shows "bit fl' kHostAF \<longleftrightarrow> uint (ReadScalar ir st lv) mod 16 < uint r mod 16 + uint bin"
proof -
  have c: "bin = 0 \<or> bin = 1"
    using op by (auto simp: flag_carry_in_def and_one_eq_of_bool split: if_splits)
  obtain fl3 where "save_af ir st d (ReadScalar ir st (Value d VOID)) fl3 = Some fl'"
    using run b f by (auto simp: SaveGuestFlags_def Let_def bind_eq_Some_conv)
  then have "bit fl' kHostAF \<longleftrightarrow>
      bit (ReadScalar ir st lv XOR r XOR take_bit b (ReadScalar ir st lv - r - bin)) 4"
    using op args res unfolding save_af_def Let_def bit_test
    by (auto simp: take_bit_MaskBits host_flag_bits)
  also have "\<dots> \<longleftrightarrow> bit (ReadScalar ir st lv XOR r XOR (ReadScalar ir st lv - r - bin)) 4"
    using b by (simp add: bit_xor_iff bit_take_bit_iff)
  finally show ?thesis using borrow_into_bit [of 4, OF _ c] by simp
qed

section \<open>Testing and clearing\<close>

lemma has_flag_singles [simp]:
  "has_flag Flags_Negate Flags_Negate" "\<not> has_flag Flags_Negate Flags_Zero"
  "\<not> has_flag Flags_Negate Flags_Carry" "\<not> has_flag Flags_Negate Flags_Overflow"
  "\<not> has_flag Flags_Negate Flags_Parity" "\<not> has_flag Flags_Negate Flags_AuxiliaryCarry"
  "\<not> has_flag Flags_Zero Flags_Negate" "has_flag Flags_Zero Flags_Zero"
  "\<not> has_flag Flags_Zero Flags_Carry" "\<not> has_flag Flags_Zero Flags_Overflow"
  "\<not> has_flag Flags_Zero Flags_Parity" "\<not> has_flag Flags_Zero Flags_AuxiliaryCarry"
  "\<not> has_flag Flags_Carry Flags_Negate" "\<not> has_flag Flags_Carry Flags_Zero"
  "has_flag Flags_Carry Flags_Carry" "\<not> has_flag Flags_Carry Flags_Overflow"
  "\<not> has_flag Flags_Carry Flags_Parity" "\<not> has_flag Flags_Carry Flags_AuxiliaryCarry"
  "\<not> has_flag Flags_Overflow Flags_Negate" "\<not> has_flag Flags_Overflow Flags_Zero"
  "\<not> has_flag Flags_Overflow Flags_Carry" "has_flag Flags_Overflow Flags_Overflow"
  "\<not> has_flag Flags_Overflow Flags_Parity" "\<not> has_flag Flags_Overflow Flags_AuxiliaryCarry"
  "\<not> has_flag Flags_Parity Flags_Negate" "\<not> has_flag Flags_Parity Flags_Zero"
  "\<not> has_flag Flags_Parity Flags_Carry" "\<not> has_flag Flags_Parity Flags_Overflow"
  "has_flag Flags_Parity Flags_Parity" "\<not> has_flag Flags_Parity Flags_AuxiliaryCarry"
  "\<not> has_flag Flags_AuxiliaryCarry Flags_Negate" "\<not> has_flag Flags_AuxiliaryCarry Flags_Zero"
  "\<not> has_flag Flags_AuxiliaryCarry Flags_Carry" "\<not> has_flag Flags_AuxiliaryCarry Flags_Overflow"
  "\<not> has_flag Flags_AuxiliaryCarry Flags_Parity" "has_flag Flags_AuxiliaryCarry Flags_AuxiliaryCarry"
  "\<not> has_flag Flags_None f"
  by (simp_all add: has_flag_def Flags_defs)

lemma TestGuestFlags_single:
  "TestGuestFlags Flags_Negate fl = bit fl kHostFlagN"
  "TestGuestFlags Flags_Zero fl = bit fl kHostFlagZ"
  "TestGuestFlags Flags_Carry fl = bit fl kHostFlagC"
  "TestGuestFlags Flags_Overflow fl = bit fl kHostFlagV"
  "TestGuestFlags Flags_AuxiliaryCarry fl = bit fl kHostAF"
  "TestGuestFlags Flags_Parity fl = even (popcount8 (ucast fl))"
  "TestGuestFlags Flags_None fl = False"
  unfolding TestGuestFlags_def Let_def nzcv_mask_def bit_test parity_fold_popcount
  by (simp_all add: and_exp_eq_0_iff_not_bit) (simp_all add: host_flag_bits)

lemma clear_bit_if_bits: "n < 64 \<Longrightarrow> bit (clear_bit_if b n fl) k \<longleftrightarrow> bit fl k \<and> \<not> (b \<and> k = n)"
  by (auto simp: clear_bit_if_def bit_and_iff bit_not_iff bit_exp_iff dest: bit_imp_le_length)

lemma reset_parity_bits:
  "bit (reset_parity_if b fl) k \<longleftrightarrow> (if b \<and> k < 8 then k = 0 else bit fl k)"
  by (auto simp: reset_parity_if_def host_flag_bits ff_mask bit_or_iff bit_and_iff bit_not_iff bit_mask_iff bit_1_iff
      dest: bit_imp_le_length)

lemma host_flag_less [simp]:
  "kHostFlagN < 64" "kHostFlagZ < 64" "kHostFlagC < 64" "kHostFlagV < 64" "kHostAF < 64"
  by (simp_all add: host_flag_bits)

lemma ClearGuestFlags_bits:
  "bit (ClearGuestFlags f fl) kHostFlagN \<longleftrightarrow> \<not> has_flag f Flags_Negate \<and> bit fl kHostFlagN"
  "bit (ClearGuestFlags f fl) kHostFlagZ \<longleftrightarrow> \<not> has_flag f Flags_Zero \<and> bit fl kHostFlagZ"
  "bit (ClearGuestFlags f fl) kHostFlagC \<longleftrightarrow> \<not> has_flag f Flags_Carry \<and> bit fl kHostFlagC"
  "bit (ClearGuestFlags f fl) kHostFlagV \<longleftrightarrow> \<not> has_flag f Flags_Overflow \<and> bit fl kHostFlagV"
  "bit (ClearGuestFlags f fl) kHostAF \<longleftrightarrow> \<not> has_flag f Flags_AuxiliaryCarry \<and> bit fl kHostAF"
  "k < 8 \<Longrightarrow> bit (ClearGuestFlags f fl) k \<longleftrightarrow> (if has_flag f Flags_Parity then k = 0 else bit fl k)"
  unfolding ClearGuestFlags_def Let_def
  by (auto simp: clear_bit_if_bits reset_parity_bits) (auto simp: host_flag_bits)

lemma TestGuestFlags_cleared:
  assumes "F \<in> {Flags_Negate, Flags_Zero, Flags_Carry, Flags_Overflow, Flags_AuxiliaryCarry, Flags_Parity}"
    and "has_flag f F"
  shows "\<not> TestGuestFlags F (ClearGuestFlags f fl)"
  using assms
  by (elim insertE emptyE)
    (simp_all add: TestGuestFlags_single ClearGuestFlags_bits popcount8_parity bit_ucast_iff)

end
