(* ===== verification/Interp_Scalar.thy ===== *)
theory Interp_Scalar
  imports Interp_Flags "HOL-Library.Signed_Division"
begin

text \<open>
  Scalar handlers of \<^verbatim>\<open>backend/interp/interpreter.cpp\<close>: selection, host calls, moves,
  integer arithmetic, division (with \<^verbatim>\<open>common/div128.cpp\<close>), logic, shifts, rotates and bit
  fields.  A handler that only writes its result slot returns the new value stack; one that
  also changes the machine state returns that state.
\<close>

section \<open>Selection and moves\<close>

definition RunSelect :: "IR \<Rightarrow> InstPtr \<Rightarrow> InterpStack \<Rightarrow> InterpStack option" where
  "RunSelect ir i st = do {
     c \<leftarrow> GetArg_Value (ir i) 0;
     v \<leftarrow> GetArg_Value (ir i) (if ReadScalar ir st c \<noteq> 0 then 1 else 2);
     WriteScalar ir st i (ReadScalar ir st v) }"

definition RunSelectZero :: "IR \<Rightarrow> InstPtr \<Rightarrow> InterpStack \<Rightarrow> InterpStack option" where
  "RunSelectZero ir i st = do {
     c \<leftarrow> GetArg_Value (ir i) 0;
     v \<leftarrow> GetArg_Value (ir i) (if ReadScalar ir st c = 0 then 1 else 2);
     WriteScalar ir st i (ReadScalar ir st v) }"

definition RunCondSelect :: "IR \<Rightarrow> InstPtr \<Rightarrow> InterpStack \<Rightarrow> State \<Rightarrow> InterpStack option" where
  "RunCondSelect ir i st s = do {
     c \<leftarrow> GetArg_Cond (ir i) 0;
     v \<leftarrow> GetArg_Value (ir i) (if EvalCondition c (host_cpu_flags s) then 1 else 2);
     WriteScalar ir st i (ReadScalar ir st v) }"

definition RunZero :: "IR \<Rightarrow> InstPtr \<Rightarrow> InterpStack \<Rightarrow> InterpStack option" where
  "RunZero ir i st =
     (if IsVector (ret_type (ir i)) then Some (WriteVec ir st i 0) else WriteScalar ir st i 0)"

definition RunGetHostGPR :: "IR \<Rightarrow> InstPtr \<Rightarrow> InterpStack \<Rightarrow> InterpStack option" where
  "RunGetHostGPR ir i st = WriteScalar ir st i 0"

definition RunGetHostFPR :: "IR \<Rightarrow> InstPtr \<Rightarrow> InterpStack \<Rightarrow> InterpStack option" where
  "RunGetHostFPR ir i st = WriteScalar ir st i 0"

definition RunBitCast :: "IR \<Rightarrow> InstPtr \<Rightarrow> InterpStack \<Rightarrow> InterpStack option" where
  "RunBitCast ir i st = do {
     v \<leftarrow> GetArg_Value (ir i) 0;
     Some (WriteVec ir st i (ReadVec ir st v)) }"

definition RunGetOperand :: "IR \<Rightarrow> InstPtr \<Rightarrow> InterpStack \<Rightarrow> InterpStack option" where
  "RunGetOperand ir i st = do {
     p \<leftarrow> GetArg_Operand (ir i) 0;
     x \<leftarrow> EvalOperand ir st p;
     WriteScalar ir st i x }"

definition RunGetResult :: "IR \<Rightarrow> InstPtr \<Rightarrow> InterpStack \<Rightarrow> InterpStack option" where
  "RunGetResult ir i st = do {
     v \<leftarrow> GetArg_Value (ir i) 0;
     Some (WriteVec ir st i (ReadVec ir st v)) }"

definition RunLoadImm :: "IR \<Rightarrow> InstPtr \<Rightarrow> InterpStack \<Rightarrow> InterpStack option" where
  "RunLoadImm ir i st = do {
     m \<leftarrow> GetArg_Imm (ir i) 0;
     WriteScalar ir st i (Imm_Get m) }"

definition RunSetLocation :: "IR \<Rightarrow> InstPtr \<Rightarrow> InterpStack \<Rightarrow> State \<Rightarrow> State option" where
  "RunSetLocation ir i st s = do {
     l \<leftarrow> GetArg_Lambda (ir i) 0;
     a \<leftarrow> EvalLambda ir st l;
     Some (s\<lparr>current_loc := a\<rparr>) }"

definition RunGetLocation :: "IR \<Rightarrow> InstPtr \<Rightarrow> InterpStack \<Rightarrow> State \<Rightarrow> InterpStack option" where
  "RunGetLocation ir i st s = WriteScalar ir st i (current_loc s)"

section \<open>Host calls\<close>

definition lambda_call_arg :: "Inst \<Rightarrow> nat \<Rightarrow> DataClass list option" where
  "lambda_call_arg inst k =
     (case ArgAt inst k of
        AValue _ \<Rightarrow> map_option (\<lambda>v. [DValue v]) (GetArg_Value inst k)
      | AImm _ \<Rightarrow> map_option (\<lambda>m. [DImm m]) (GetArg_Imm inst k)
      | _ \<Rightarrow> Some [])"

definition RunCallLambda ::
  "HostEnv \<Rightarrow> IR \<Rightarrow> InstPtr \<Rightarrow> InterpStack \<Rightarrow> State \<Rightarrow> (InterpStack \<times> State) option" where
  "RunCallLambda env ir i st s = do {
     l \<leftarrow> GetArg_Lambda (ir i) 0;
     a1 \<leftarrow> lambda_call_arg (ir i) 1;
     a2 \<leftarrow> lambda_call_arg (ir i) 2;
     a3 \<leftarrow> lambda_call_arg (ir i) 3;
     (x, s') \<leftarrow> CallHostFunc env ir st s l (a1 @ a2 @ a3);
     st' \<leftarrow> WriteScalar ir st i x;
     Some (st', s') }"

definition RunCallLocation ::
  "HostEnv \<Rightarrow> IR \<Rightarrow> InstPtr \<Rightarrow> InterpStack \<Rightarrow> State \<Rightarrow> (InterpStack \<times> State) option" where
  "RunCallLocation env ir i st s = do {
     l \<leftarrow> GetArg_Lambda (ir i) 0;
     ps \<leftarrow> GetArg_Params (ir i) 1;
     (x, s') \<leftarrow> CallHostFunc env ir st s l ps;
     st' \<leftarrow> WriteScalar ir st i x;
     Some (st', s') }"

definition RunCallDynamic ::
  "HostEnv \<Rightarrow> IR \<Rightarrow> InstPtr \<Rightarrow> InterpStack \<Rightarrow> State \<Rightarrow> (InterpStack \<times> State) option" where
  "RunCallDynamic env ir i st s = do {
     l \<leftarrow> GetArg_Lambda (ir i) 0;
     ps \<leftarrow> GetArg_Params (ir i) 1;
     (x, s') \<leftarrow> CallHostFunc env ir st s l ps;
     st' \<leftarrow> WriteScalar ir st i x;
     Some (st', s') }"

definition RunX87Op ::
  "HostEnv \<Rightarrow> IR \<Rightarrow> InstPtr \<Rightarrow> InterpStack \<Rightarrow> State \<Rightarrow> (InterpStack \<times> State) option" where
  "RunX87Op env ir i st s = do {
     c \<leftarrow> GetArg_Value (ir i) 0;
     m \<leftarrow> GetArg_Imm (ir i) 1;
     a \<leftarrow> GetArg_Value (ir i) 2;
     let (x, s') = x87_dispatch env (ReadScalar ir st c) (Imm_Get m) (ReadScalar ir st a) s;
     st' \<leftarrow> WriteScalar ir st i x;
     Some (st', s') }"

definition RunSse42Str :: "HostEnv \<Rightarrow> IR \<Rightarrow> InstPtr \<Rightarrow> InterpStack \<Rightarrow> InterpStack option" where
  "RunSse42Str env ir i st = do {
     av \<leftarrow> GetArg_Value (ir i) 0;
     bv \<leftarrow> GetArg_Value (ir i) 1;
     m \<leftarrow> GetArg_Imm (ir i) 2;
     let a = ReadVec ir st av;
     let b = ReadVec ir st bv;
     WriteScalar ir st i (sse42str_eval env (ucast a) (ucast (drop_bit 64 a))
       (ucast b) (ucast (drop_bit 64 b)) (Imm_Get m)) }"

definition RunCpuid :: "HostEnv \<Rightarrow> IR \<Rightarrow> InstPtr \<Rightarrow> InterpStack \<Rightarrow> InterpStack option" where
  "RunCpuid env ir i st = do {
     h \<leftarrow> GetArg_Imm (ir i) 3;
     a \<leftarrow> GetArg_Value (ir i) 0;
     b \<leftarrow> GetArg_Value (ir i) 1;
     m \<leftarrow> GetArg_Imm (ir i) 2;
     WritePairResult ir st i
       (cpuid_fn env (Imm_Get h) (ReadScalar ir st a) (ReadScalar ir st b) (Imm_Get m))
       (Calc CpuidUpper) }"

section \<open>Division\<close>

definition dividend128 :: "u64 \<Rightarrow> u64 \<Rightarrow> u128" where
  "dividend128 high low = push_bit 64 (ucast high) OR ucast low"

definition DivideUnsigned128 :: "u64 \<Rightarrow> u64 \<Rightarrow> u64 \<Rightarrow> u64 \<times> u64" where
  "DivideUnsigned128 high low divisor =
     (if divisor = 0 then (0, 0)
      else (ucast (dividend128 high low div ucast divisor),
            ucast (dividend128 high low mod ucast divisor)))"

definition DivideSigned128 :: "u64 \<Rightarrow> u64 \<Rightarrow> u64 \<Rightarrow> u64 \<times> u64" where
  "DivideSigned128 high low divisor =
     (if sint divisor = 0 then (0, 0)
      else if sint divisor = -1 \<and> high = push_bit 63 1 \<and> low = 0 then (0, 0)
      else (word_of_int (sint (dividend128 high low) sdiv sint divisor),
            word_of_int (sint (dividend128 high low) smod sint divisor)))"

definition RunDiv128 :: "IR \<Rightarrow> InstPtr \<Rightarrow> InterpStack \<Rightarrow> InterpStack option" where
  "RunDiv128 ir i st = do {
     h \<leftarrow> GetArg_Value (ir i) 0;
     l \<leftarrow> GetArg_Value (ir i) 1;
     d \<leftarrow> GetArg_Value (ir i) 2;
     m \<leftarrow> GetArg_Imm (ir i) 3;
     let f = (if Imm_Get m \<noteq> 0 then DivideSigned128 else DivideUnsigned128);
     WritePairResult ir st i (f (ReadScalar ir st h) (ReadScalar ir st l) (ReadScalar ir st d))
       (Calc Div128Remainder) }"

definition div_result :: "bool \<Rightarrow> nat \<Rightarrow> u64 \<Rightarrow> u64 \<Rightarrow> u64" where
  "div_result signed_op bits l r =
     (if r = 0 then 0
      else if signed_op then
        (let sl = sint (SignExtendTo l bits); sr = sint (SignExtendTo r bits) in
         if sr = -1 then (0 - SignExtendTo l bits) AND MaskBits bits
         else word_of_int (sl sdiv sr))
      else l div r)"

definition RunDiv :: "IR \<Rightarrow> InstPtr \<Rightarrow> InterpStack \<Rightarrow> InterpStack option" where
  "RunDiv ir i st = do {
     lv \<leftarrow> GetArg_Value (ir i) 0;
     bits \<leftarrow> TypeBits (Value_Type ir lv);
     p \<leftarrow> GetArg_Operand (ir i) 1;
     rv \<leftarrow> EvalOperand ir st p;
     WriteScalar ir st i (div_result (IsSignValueType (Value_Type ir lv)) bits
       (ReadScalar ir st lv AND MaskBits bits) (rv AND MaskBits bits)) }"

definition signed_div64 :: "u64 \<Rightarrow> u64 \<Rightarrow> u64" where
  "signed_div64 dividend divisor =
     (if sint divisor = -1 then 0 - dividend
      else if sint divisor \<noteq> 0 then word_of_int (sint dividend sdiv sint divisor)
      else 0)"

definition RunSignedDiv64 :: "IR \<Rightarrow> InstPtr \<Rightarrow> InterpStack \<Rightarrow> InterpStack option" where
  "RunSignedDiv64 ir i st = do {
     a \<leftarrow> GetArg_Value (ir i) 0;
     b \<leftarrow> GetArg_Value (ir i) 1;
     WriteScalar ir st i (signed_div64 (ReadScalar ir st a) (ReadScalar ir st b)) }"

section \<open>Arithmetic and logic\<close>

text \<open>The common shape of the two-operand handlers: a value and an evaluated operand.\<close>

definition value_operand ::
  "IR \<Rightarrow> InstPtr \<Rightarrow> InterpStack \<Rightarrow> (u64 \<Rightarrow> u64 \<Rightarrow> u64) \<Rightarrow> InterpStack option" where
  "value_operand ir i st f = do {
     lv \<leftarrow> GetArg_Value (ir i) 0;
     p \<leftarrow> GetArg_Operand (ir i) 1;
     r \<leftarrow> EvalOperand ir st p;
     WriteScalar ir st i (f (ReadScalar ir st lv) r) }"

definition RunAdd :: "IR \<Rightarrow> InstPtr \<Rightarrow> InterpStack \<Rightarrow> InterpStack option" where
  "RunAdd ir i st = value_operand ir i st (\<lambda>l r. l + r)"

definition RunSub :: "IR \<Rightarrow> InstPtr \<Rightarrow> InterpStack \<Rightarrow> InterpStack option" where
  "RunSub ir i st = value_operand ir i st (\<lambda>l r. l - r)"

definition RunNeg :: "IR \<Rightarrow> InstPtr \<Rightarrow> InterpStack \<Rightarrow> InterpStack option" where
  "RunNeg ir i st = do {
     v \<leftarrow> GetArg_Value (ir i) 0;
     WriteScalar ir st i (0 - ReadScalar ir st v) }"

definition RunAdc :: "IR \<Rightarrow> InstPtr \<Rightarrow> InterpStack \<Rightarrow> State \<Rightarrow> InterpStack option" where
  "RunAdc ir i st s = value_operand ir i st (\<lambda>l r. l + r + flag_carry_in (host_cpu_flags s))"

definition RunSbb :: "IR \<Rightarrow> InstPtr \<Rightarrow> InterpStack \<Rightarrow> State \<Rightarrow> InterpStack option" where
  "RunSbb ir i st s = value_operand ir i st (\<lambda>l r. l - r - (1 - flag_carry_in (host_cpu_flags s)))"

definition RunMul :: "IR \<Rightarrow> InstPtr \<Rightarrow> InterpStack \<Rightarrow> InterpStack option" where
  "RunMul ir i st = value_operand ir i st (\<lambda>l r. l * r)"

definition RunMulSub :: "IR \<Rightarrow> InstPtr \<Rightarrow> InterpStack \<Rightarrow> InterpStack option" where
  "RunMulSub ir i st = do {
     a \<leftarrow> GetArg_Value (ir i) 0;
     b \<leftarrow> GetArg_Value (ir i) 1;
     c \<leftarrow> GetArg_Value (ir i) 2;
     WriteScalar ir st i (ReadScalar ir st c - ReadScalar ir st a * ReadScalar ir st b) }"

definition mul_high :: "bool \<Rightarrow> u64 \<Rightarrow> u64 \<Rightarrow> u64" where
  "mul_high signed_op l r =
     (if signed_op then ucast (drop_bit 64 ((scast l :: u128) * scast r))
      else ucast (drop_bit 64 ((ucast l :: u128) * ucast r)))"

definition RunMulHigh :: "IR \<Rightarrow> InstPtr \<Rightarrow> InterpStack \<Rightarrow> InterpStack option" where
  "RunMulHigh ir i st = do {
     a \<leftarrow> GetArg_Value (ir i) 0;
     b \<leftarrow> GetArg_Value (ir i) 1;
     m \<leftarrow> GetArg_Imm (ir i) 2;
     WriteScalar ir st i (mul_high (Imm_Get m \<noteq> 0) (ReadScalar ir st a) (ReadScalar ir st b)) }"

definition RunZeroExtend32 :: "IR \<Rightarrow> InstPtr \<Rightarrow> InterpStack \<Rightarrow> InterpStack option" where
  "RunZeroExtend32 ir i st = do {
     v \<leftarrow> GetArg_Value (ir i) 0;
     WriteScalar ir st i (ReadScalar ir st v) }"

definition RunZeroExtend32To64 :: "IR \<Rightarrow> InstPtr \<Rightarrow> InterpStack \<Rightarrow> InterpStack option" where
  "RunZeroExtend32To64 ir i st = do {
     v \<leftarrow> GetArg_Value (ir i) 0;
     WriteScalar ir st i (ReadScalar ir st v AND 0xFFFFFFFF) }"

definition RunZeroExtend64 :: "IR \<Rightarrow> InstPtr \<Rightarrow> InterpStack \<Rightarrow> InterpStack option" where
  "RunZeroExtend64 ir i st = do {
     v \<leftarrow> GetArg_Value (ir i) 0;
     WriteScalar ir st i (ReadScalar ir st v) }"

definition RunSignExtend :: "IR \<Rightarrow> InstPtr \<Rightarrow> InterpStack \<Rightarrow> InterpStack option" where
  "RunSignExtend ir i st = do {
     v \<leftarrow> GetArg_Value (ir i) 0;
     bits \<leftarrow> TypeBits (Value_Type ir v);
     WriteScalar ir st i (SignExtendTo (ReadScalar ir st v) bits) }"

definition RunAnd :: "IR \<Rightarrow> InstPtr \<Rightarrow> InterpStack \<Rightarrow> InterpStack option" where
  "RunAnd ir i st = value_operand ir i st (\<lambda>l r. l AND r)"

definition RunOr :: "IR \<Rightarrow> InstPtr \<Rightarrow> InterpStack \<Rightarrow> InterpStack option" where
  "RunOr ir i st = value_operand ir i st (\<lambda>l r. l OR r)"

definition RunXor :: "IR \<Rightarrow> InstPtr \<Rightarrow> InterpStack \<Rightarrow> InterpStack option" where
  "RunXor ir i st = value_operand ir i st (\<lambda>l r. l XOR r)"

definition RunNot :: "IR \<Rightarrow> InstPtr \<Rightarrow> InterpStack \<Rightarrow> InterpStack option" where
  "RunNot ir i st =
     (if ArgAt (ir i) 1 = AVoid then do {
        v \<leftarrow> GetArg_Value (ir i) 0;
        WriteScalar ir st i (if ReadScalar ir st v = 0 then 1 else 0) }
      else do {
        p \<leftarrow> GetArg_Operand (ir i) 1;
        r \<leftarrow> EvalOperand ir st p;
        WriteScalar ir st i (NOT r) })"

definition RunAndNot :: "IR \<Rightarrow> InstPtr \<Rightarrow> InterpStack \<Rightarrow> InterpStack option" where
  "RunAndNot ir i st = value_operand ir i st (\<lambda>l r. l AND NOT r)"

section \<open>Shifts and bit fields\<close>

definition shift_amount :: "nat \<Rightarrow> u64 \<Rightarrow> nat" where
  "shift_amount bits x = unat (x AND of_nat (bits - 1))"

definition lsl_bits :: "nat \<Rightarrow> u64 \<Rightarrow> u64 \<Rightarrow> u64 option" where
  "lsl_bits bits value amount = shl (value AND MaskBits bits) (shift_amount bits amount)"

definition lsr_bits :: "nat \<Rightarrow> u64 \<Rightarrow> u64 \<Rightarrow> u64 option" where
  "lsr_bits bits value amount = shr (value AND MaskBits bits) (shift_amount bits amount)"

definition ror_bits :: "nat \<Rightarrow> u64 \<Rightarrow> u64 \<Rightarrow> u64 option" where
  "ror_bits bits value0 amount0 =
     (let value = value0 AND MaskBits bits; amount = shift_amount bits amount0 in
      if amount \<noteq> 0 then do {
        a \<leftarrow> shr value amount;
        b \<leftarrow> shl value (bits - amount);
        Some (a OR b) }
      else Some value)"

text \<open>Shift handlers take their count from an immediate or from a value.\<close>

definition imm_amount :: "IR \<Rightarrow> InstPtr \<Rightarrow> InterpStack \<Rightarrow> u64 option" where
  "imm_amount ir i st = map_option Imm_Get (GetArg_Imm (ir i) 1)"

definition value_amount :: "IR \<Rightarrow> InstPtr \<Rightarrow> InterpStack \<Rightarrow> u64 option" where
  "value_amount ir i st = map_option (ReadScalar ir st) (GetArg_Value (ir i) 1)"

definition run_shift ::
  "IR \<Rightarrow> InstPtr \<Rightarrow> InterpStack \<Rightarrow> (nat \<Rightarrow> u64 \<Rightarrow> u64 \<Rightarrow> u64 option) \<Rightarrow> u64 option \<Rightarrow> InterpStack option"
where
  "run_shift ir i st f amount = do {
     bits \<leftarrow> TypeBits (ret_type (ir i));
     v \<leftarrow> GetArg_Value (ir i) 0;
     a \<leftarrow> amount;
     x \<leftarrow> f bits (ReadScalar ir st v) a;
     WriteScalar ir st i x }"

definition RunLslImm :: "IR \<Rightarrow> InstPtr \<Rightarrow> InterpStack \<Rightarrow> InterpStack option" where
  "RunLslImm ir i st = run_shift ir i st lsl_bits (imm_amount ir i st)"

definition RunLslValue :: "IR \<Rightarrow> InstPtr \<Rightarrow> InterpStack \<Rightarrow> InterpStack option" where
  "RunLslValue ir i st = run_shift ir i st lsl_bits (value_amount ir i st)"

definition RunLsrImm :: "IR \<Rightarrow> InstPtr \<Rightarrow> InterpStack \<Rightarrow> InterpStack option" where
  "RunLsrImm ir i st = run_shift ir i st lsr_bits (imm_amount ir i st)"

definition RunLsrValue :: "IR \<Rightarrow> InstPtr \<Rightarrow> InterpStack \<Rightarrow> InterpStack option" where
  "RunLsrValue ir i st = run_shift ir i st lsr_bits (value_amount ir i st)"

definition run_asr :: "IR \<Rightarrow> InstPtr \<Rightarrow> InterpStack \<Rightarrow> u64 option \<Rightarrow> InterpStack option" where
  "run_asr ir i st amount = do {
     v \<leftarrow> GetArg_Value (ir i) 0;
     bits \<leftarrow> TypeBits (ret_type (ir i));
     a \<leftarrow> amount;
     vbits \<leftarrow> TypeBits (Value_Type ir v);
     x \<leftarrow> asr (SignExtendTo (ReadScalar ir st v) vbits) (shift_amount bits a);
     WriteScalar ir st i x }"

definition RunAsrImm :: "IR \<Rightarrow> InstPtr \<Rightarrow> InterpStack \<Rightarrow> InterpStack option" where
  "RunAsrImm ir i st = run_asr ir i st (imm_amount ir i st)"

definition RunAsrValue :: "IR \<Rightarrow> InstPtr \<Rightarrow> InterpStack \<Rightarrow> InterpStack option" where
  "RunAsrValue ir i st = run_asr ir i st (value_amount ir i st)"

definition RunRorImm :: "IR \<Rightarrow> InstPtr \<Rightarrow> InterpStack \<Rightarrow> InterpStack option" where
  "RunRorImm ir i st = run_shift ir i st ror_bits (imm_amount ir i st)"

definition RunRorValue :: "IR \<Rightarrow> InstPtr \<Rightarrow> InterpStack \<Rightarrow> InterpStack option" where
  "RunRorValue ir i st = run_shift ir i st ror_bits (value_amount ir i st)"

fun bswap :: "nat \<Rightarrow> u64 \<Rightarrow> u64" where
  "bswap 0 v = 0"
| "bswap (Suc n) v = push_bit (8 * n) (take_bit 8 v) OR bswap n (drop_bit 8 v)"

definition RunByteSwap :: "IR \<Rightarrow> InstPtr \<Rightarrow> InterpStack \<Rightarrow> InterpStack option" where
  "RunByteSwap ir i st = do {
     v \<leftarrow> GetArg_Value (ir i) 0;
     m \<leftarrow> GetArg_Imm (ir i) 1;
     let width = (ucast (Imm_Get m) :: u32);
     if width = 16 then WriteScalar ir st i (bswap 2 (ReadScalar ir st v))
     else if width = 32 then WriteScalar ir st i (bswap 4 (ReadScalar ir st v))
     else if width = 64 then WriteScalar ir st i (bswap 8 (ReadScalar ir st v))
     else None }"

definition countl_zero :: "nat \<Rightarrow> u64 \<Rightarrow> nat" where
  "countl_zero n w = length (takeWhile Not (map (bit w) (rev [0..<n])))"

definition countr_zero :: "nat \<Rightarrow> u64 \<Rightarrow> nat" where
  "countr_zero n w = length (takeWhile Not (map (bit w) [0..<n]))"

definition run_count ::
  "IR \<Rightarrow> InstPtr \<Rightarrow> InterpStack \<Rightarrow> ValueType \<Rightarrow> (u64 \<Rightarrow> nat) \<Rightarrow> InterpStack option" where
  "run_count ir i st t f = do {
     v \<leftarrow> GetArg_Value (ir i) 0;
     ASSERT (Value_Type ir v = t);
     WriteScalar ir st i (of_nat (f (ReadScalar ir st v))) }"

definition RunCountLeadingZeros64 :: "IR \<Rightarrow> InstPtr \<Rightarrow> InterpStack \<Rightarrow> InterpStack option" where
  "RunCountLeadingZeros64 ir i st = run_count ir i st U64 (countl_zero 64)"

definition RunCountTrailingZeros64 :: "IR \<Rightarrow> InstPtr \<Rightarrow> InterpStack \<Rightarrow> InterpStack option" where
  "RunCountTrailingZeros64 ir i st = run_count ir i st U64 (countr_zero 64)"

definition RunCountLeadingZeros32 :: "IR \<Rightarrow> InstPtr \<Rightarrow> InterpStack \<Rightarrow> InterpStack option" where
  "RunCountLeadingZeros32 ir i st = run_count ir i st U32 (countl_zero 32)"

definition RunCountTrailingZeros32 :: "IR \<Rightarrow> InstPtr \<Rightarrow> InterpStack \<Rightarrow> InterpStack option" where
  "RunCountTrailingZeros32 ir i st = run_count ir i st U32 (countr_zero 32)"

definition mask_u32 :: "u64 \<Rightarrow> u64" where
  "mask_u32 width = MaskBits (unat (ucast width :: u32))"

definition RunBitExtract :: "IR \<Rightarrow> InstPtr \<Rightarrow> InterpStack \<Rightarrow> InterpStack option" where
  "RunBitExtract ir i st = do {
     v \<leftarrow> GetArg_Value (ir i) 0;
     lsb \<leftarrow> GetArg_Imm (ir i) 1;
     width \<leftarrow> GetArg_Imm (ir i) 2;
     x \<leftarrow> shr (ReadScalar ir st v) (unat (Imm_Get lsb));
     WriteScalar ir st i (x AND mask_u32 (Imm_Get width)) }"

definition RunBitInsert :: "IR \<Rightarrow> InstPtr \<Rightarrow> InterpStack \<Rightarrow> InterpStack option" where
  "RunBitInsert ir i st = do {
     d \<leftarrow> GetArg_Value (ir i) 0;
     v \<leftarrow> GetArg_Value (ir i) 1;
     lsb \<leftarrow> GetArg_Imm (ir i) 2;
     width \<leftarrow> GetArg_Imm (ir i) 3;
     m \<leftarrow> shl (mask_u32 (Imm_Get width)) (unat (Imm_Get lsb));
     x \<leftarrow> shl (ReadScalar ir st v) (unat (Imm_Get lsb));
     WriteScalar ir st i ((ReadScalar ir st d AND NOT m) OR (x AND m)) }"

definition RunBitClear :: "IR \<Rightarrow> InstPtr \<Rightarrow> InterpStack \<Rightarrow> InterpStack option" where
  "RunBitClear ir i st = do {
     v \<leftarrow> GetArg_Value (ir i) 0;
     lsb \<leftarrow> GetArg_Imm (ir i) 1;
     width \<leftarrow> GetArg_Imm (ir i) 2;
     m \<leftarrow> shl (mask_u32 (Imm_Get width)) (unat (Imm_Get lsb));
     WriteScalar ir st i (ReadScalar ir st v AND NOT m) }"

definition RunTestBit :: "IR \<Rightarrow> InstPtr \<Rightarrow> InterpStack \<Rightarrow> InterpStack option" where
  "RunTestBit ir i st = do {
     v \<leftarrow> GetArg_Value (ir i) 0;
     b \<leftarrow> GetArg_Imm (ir i) 1;
     x \<leftarrow> shr (ReadScalar ir st v) (unat (Imm_Get b));
     WriteScalar ir st i (x AND 1) }"

definition RunTestZero :: "IR \<Rightarrow> InstPtr \<Rightarrow> InterpStack \<Rightarrow> InterpStack option" where
  "RunTestZero ir i st = do {
     v \<leftarrow> GetArg_Value (ir i) 0;
     WriteScalar ir st i (if ReadScalar ir st v = 0 then 1 else 0) }"

definition RunTestNotZero :: "IR \<Rightarrow> InstPtr \<Rightarrow> InterpStack \<Rightarrow> InterpStack option" where
  "RunTestNotZero ir i st = do {
     v \<leftarrow> GetArg_Value (ir i) 0;
     WriteScalar ir st i (if ReadScalar ir st v \<noteq> 0 then 1 else 0) }"

lemmas scalar_run_defs [run_defs] = RunSelect_def RunSelectZero_def RunCondSelect_def RunZero_def
  RunGetHostGPR_def RunGetHostFPR_def RunBitCast_def RunGetOperand_def RunGetResult_def
  RunLoadImm_def RunSetLocation_def RunGetLocation_def RunSse42Str_def RunCpuid_def RunDiv128_def
  RunDiv_def RunSignedDiv64_def RunAdd_def RunSub_def RunNeg_def RunAdc_def RunSbb_def RunMul_def
  RunMulSub_def RunMulHigh_def RunZeroExtend32_def RunZeroExtend32To64_def RunZeroExtend64_def
  RunSignExtend_def RunAnd_def RunOr_def RunXor_def RunNot_def RunAndNot_def value_operand_def
  RunLslImm_def RunLslValue_def RunLsrImm_def RunLsrValue_def RunAsrImm_def RunAsrValue_def
  RunRorImm_def RunRorValue_def run_shift_def run_asr_def imm_amount_def value_amount_def
  RunByteSwap_def RunCountLeadingZeros64_def RunCountTrailingZeros64_def
  RunCountLeadingZeros32_def RunCountTrailingZeros32_def run_count_def RunBitExtract_def
  RunBitInsert_def RunBitClear_def RunTestBit_def RunTestZero_def RunTestNotZero_def

lemmas call_run_defs [run_defs] = RunCallLambda_def RunCallLocation_def RunCallDynamic_def
  RunX87Op_def CallHostFunc_def

end
