(* ===== verification/Interp_Memory.thy ===== *)
theory Interp_Memory
  imports Interp_Scalar
begin

text \<open>
  Memory handlers of \<^verbatim>\<open>backend/interp/interpreter_memory.cpp\<close>: locals, uniforms, guarded
  guest loads and stores, block copies and the atomic read-modify-write operations.  The
  interpreter runs one guest thread, so an atomic access has the effect of its sequential
  body on both of its paths, the aligned one and the locked unaligned one.  A vector copy
  wider than the sixteen bytes of a slot overruns the local variable it is copied through and
  has no defined result.
\<close>

section \<open>Locals and uniforms\<close>

definition vec_size :: "ValueType \<Rightarrow> nat option" where
  "vec_size t = do { n \<leftarrow> GetValueSizeByte t; ASSERT (n \<le> 16); Some n }"

definition RunLoadLocal :: "IR \<Rightarrow> InstPtr \<Rightarrow> InterpStack \<Rightarrow> State \<Rightarrow> InterpStack option" where
  "RunLoadLocal ir i st s = do {
     l \<leftarrow> GetArg_Local (ir i) 0;
     value \<leftarrow> (if local_buffer s \<noteq> 0 then do {
         n \<leftarrow> GetValueSizeByte (local_type l);
         ASSERT (n \<le> 8);
         Some (load_le (mem s) (local_buffer s + ucast (local_id l) * 8) n) }
       else Some 0);
     WriteScalar ir st i value }"

definition RunStoreLocal :: "IR \<Rightarrow> InstPtr \<Rightarrow> InterpStack \<Rightarrow> State \<Rightarrow> State option" where
  "RunStoreLocal ir i st s = do {
     l \<leftarrow> GetArg_Local (ir i) 0;
     if local_buffer s = 0 then Some s
     else do {
       v \<leftarrow> GetArg_Value (ir i) 1;
       n \<leftarrow> GetValueSizeByte (local_type l);
       ASSERT (n \<le> 8);
       Some (s\<lparr>mem := store_le (mem s) (local_buffer s + ucast (local_id l) * 8) n
                        (ReadScalar ir st v)\<rparr>) } }"

definition RunLoadUniform :: "IR \<Rightarrow> InstPtr \<Rightarrow> InterpStack \<Rightarrow> State \<Rightarrow> InterpStack option" where
  "RunLoadUniform ir i st s = do {
     u \<leftarrow> GetArg_Uniform (ir i) 0;
     let t = (if ret_type (ir i) = VOID then uniform_type u else ret_type (ir i));
     let base = uniform_buffer_begin s + ucast (uniform_offset u);
     if IsVector t then do {
       n \<leftarrow> vec_size t;
       Some (WriteVec ir st i (load_le (mem s) base n)) }
     else do {
       n \<leftarrow> GetValueSizeByte t;
       WriteScalar ir st i (load_le (mem s) base n) } }"

definition RunStoreUniform :: "IR \<Rightarrow> InstPtr \<Rightarrow> InterpStack \<Rightarrow> State \<Rightarrow> State option" where
  "RunStoreUniform ir i st s = do {
     u \<leftarrow> GetArg_Uniform (ir i) 0;
     v \<leftarrow> GetArg_Value (ir i) 1;
     let t = (if Value_Type ir v = VOID then uniform_type u else Value_Type ir v);
     let base = uniform_buffer_begin s + ucast (uniform_offset u);
     if IsVector t then do {
       n \<leftarrow> vec_size t;
       Some (s\<lparr>mem := store_le (mem s) base n (ReadVec ir st v)\<rparr>) }
     else do {
       n \<leftarrow> GetValueSizeByte t;
       Some (s\<lparr>mem := store_le (mem s) base n (ReadScalar ir st v)\<rparr>) } }"

definition RunGetUniformAddress :: "IR \<Rightarrow> InstPtr \<Rightarrow> InterpStack \<Rightarrow> State \<Rightarrow> InterpStack option" where
  "RunGetUniformAddress ir i st s = do {
     m \<leftarrow> GetArg_Imm (ir i) 0;
     WriteScalar ir st i (uniform_buffer_begin s + Imm_Get m) }"

section \<open>Guest loads and stores\<close>

text \<open>The wild-pointer guard shared by loads and stores: true when the access is refused.\<close>

definition access_faults :: "State \<Rightarrow> u64 \<Rightarrow> u64 \<Rightarrow> bool" where
  "access_faults s guest_addr access_size =
     (guest_addr \<ge> guest_addr_limit s \<or> guest_addr + access_size > guest_addr_limit s \<or>
      (case interp_range_check s of None \<Rightarrow> False | Some ok \<Rightarrow> \<not> ok guest_addr access_size))"

definition RunLoadMemory ::
  "IR \<Rightarrow> InstPtr \<Rightarrow> InterpStack \<Rightarrow> State \<Rightarrow> (InterpStack \<times> State) option" where
  "RunLoadMemory ir i st s = do {
     p \<leftarrow> GetArg_Operand (ir i) 0;
     let t = ret_type (ir i);
     addr0 \<leftarrow> EvalOperand ir st p;
     n \<leftarrow> GetValueSizeByte t;
     let guest_addr = addr0 AND guest_addr_mask s;
     if access_faults s guest_addr (of_nat n) then Some (st, s\<lparr>halt_reason := HaltPageFatal\<rparr>)
     else if IsVector t then do {
       n \<leftarrow> vec_size t;
       Some (WriteVec ir st i (load_le (mem s) (guest_addr + pt s) n), s) }
     else do {
       st' \<leftarrow> WriteScalar ir st i (load_le (mem s) (guest_addr + pt s) n);
       Some (st', s) } }"

definition RunStoreMemory :: "IR \<Rightarrow> InstPtr \<Rightarrow> InterpStack \<Rightarrow> State \<Rightarrow> State option" where
  "RunStoreMemory ir i st s = do {
     p \<leftarrow> GetArg_Operand (ir i) 0;
     v \<leftarrow> GetArg_Value (ir i) 1;
     let t = Value_Type ir v;
     addr0 \<leftarrow> EvalOperand ir st p;
     n \<leftarrow> GetValueSizeByte t;
     let guest_addr = addr0 AND guest_addr_mask s;
     if access_faults s guest_addr (of_nat n) then Some (s\<lparr>halt_reason := HaltPageFatal\<rparr>)
     else if IsVector t then do {
       n \<leftarrow> vec_size t;
       Some (s\<lparr>mem := store_le (mem s) (guest_addr + pt s) n (ReadVec ir st v)\<rparr>) }
     else
       Some (s\<lparr>mem := store_le (mem s) (guest_addr + pt s) n (ReadScalar ir st v)\<rparr>) }"

definition RunLoadMemoryTSO ::
  "IR \<Rightarrow> InstPtr \<Rightarrow> InterpStack \<Rightarrow> State \<Rightarrow> (InterpStack \<times> State) option" where
  "RunLoadMemoryTSO ir i st s = RunLoadMemory ir i st s"

definition RunStoreMemoryTSO :: "IR \<Rightarrow> InstPtr \<Rightarrow> InterpStack \<Rightarrow> State \<Rightarrow> State option" where
  "RunStoreMemoryTSO ir i st s = RunStoreMemory ir i st s"

definition memmove :: "memory \<Rightarrow> u64 \<Rightarrow> u64 \<Rightarrow> u64 \<Rightarrow> memory" where
  "memmove m dst src count = (\<lambda>a. if a - dst < count then m (src + (a - dst)) else m a)"

definition RunMemoryCopy :: "IR \<Rightarrow> InstPtr \<Rightarrow> InterpStack \<Rightarrow> State \<Rightarrow> State option" where
  "RunMemoryCopy ir i st s = do {
     dst \<leftarrow> GetArg_Lambda (ir i) 0;
     src \<leftarrow> GetArg_Lambda (ir i) 1;
     m \<leftarrow> GetArg_Imm (ir i) 2;
     d \<leftarrow> EvalLambda ir st dst;
     r \<leftarrow> EvalLambda ir st src;
     Some (s\<lparr>mem := memmove (mem s) ((d AND guest_addr_mask s) + pt s)
                      ((r AND guest_addr_mask s) + pt s) (Imm_Get m)\<rparr>) }"

definition RunMemoryCopyTSO :: "IR \<Rightarrow> InstPtr \<Rightarrow> InterpStack \<Rightarrow> State \<Rightarrow> State option" where
  "RunMemoryCopyTSO ir i st s = RunMemoryCopy ir i st s"

definition RunCheckMemoryAlignment :: "IR \<Rightarrow> InstPtr \<Rightarrow> InterpStack \<Rightarrow> State \<Rightarrow> State option" where
  "RunCheckMemoryAlignment ir i st s = do {
     a \<leftarrow> GetArg_Value (ir i) 0;
     m \<leftarrow> GetArg_Imm (ir i) 1;
     Some (if ReadScalar ir st a AND Imm_Get m \<noteq> 0
           then s\<lparr>halt_reason := HaltPageFatal\<rparr> else s) }"

section \<open>Atomics\<close>

text \<open>
  The operand width selects the template instance; the access works on \<open>n\<close> bytes, with
  expected, desired and old values truncated to them.
\<close>

definition atomic_bytes :: "ValueType \<Rightarrow> nat option" where
  "atomic_bytes t = do {
     bits \<leftarrow> TypeBits t;
     ASSERT (bits = 8 \<or> bits = 16 \<or> bits = 32 \<or> bits = 64);
     Some (bits div 8) }"

definition AtomicCompareExchange :: "memory \<Rightarrow> u64 \<Rightarrow> nat \<Rightarrow> u64 \<Rightarrow> u64 \<Rightarrow> u64 \<times> memory" where
  "AtomicCompareExchange m ptr n expected desired =
     (let old = load_le m ptr n in
      (old, if old = take_bit (8 * n) expected then store_le m ptr n desired else m))"

definition AtomicExchangeValue :: "memory \<Rightarrow> u64 \<Rightarrow> nat \<Rightarrow> u64 \<Rightarrow> u64 \<times> memory" where
  "AtomicExchangeValue m ptr n desired = (load_le m ptr n, store_le m ptr n desired)"

definition AtomicFetchAddValue :: "memory \<Rightarrow> u64 \<Rightarrow> nat \<Rightarrow> u64 \<Rightarrow> u64 \<times> memory" where
  "AtomicFetchAddValue m ptr n addend =
     (let old = load_le m ptr n in (old, store_le m ptr n (old + addend)))"

definition AtomicTransformValue :: "memory \<Rightarrow> u64 \<Rightarrow> nat \<Rightarrow> (u64 \<Rightarrow> u64) \<Rightarrow> u64 \<times> memory" where
  "AtomicTransformValue m ptr n transform =
     (let old = load_le m ptr n in (old, store_le m ptr n (transform old)))"

definition guest_ptr :: "State \<Rightarrow> u64 \<Rightarrow> u64" where
  "guest_ptr s addr = (addr AND guest_addr_mask s) + pt s"

definition finish_atomic ::
  "IR \<Rightarrow> InstPtr \<Rightarrow> InterpStack \<Rightarrow> State \<Rightarrow> u64 \<times> memory \<Rightarrow> (InterpStack \<times> State) option" where
  "finish_atomic ir i st s r = do {
     st' \<leftarrow> WriteScalar ir st i (fst r);
     Some (st', s\<lparr>mem := snd r\<rparr>) }"

definition RunCompareAndSwap ::
  "IR \<Rightarrow> InstPtr \<Rightarrow> InterpStack \<Rightarrow> State \<Rightarrow> (InterpStack \<times> State) option" where
  "RunCompareAndSwap ir i st s = do {
     a \<leftarrow> GetArg_Value (ir i) 0;
     expected \<leftarrow> GetArg_Value (ir i) 1;
     desired \<leftarrow> GetArg_Value (ir i) 2;
     n \<leftarrow> atomic_bytes (Value_Type ir expected);
     finish_atomic ir i st s (AtomicCompareExchange (mem s) (guest_ptr s (ReadScalar ir st a)) n
       (ReadScalar ir st expected AND MaskBits (8 * n)) (ReadScalar ir st desired AND MaskBits (8 * n))) }"

definition RunCompareAndSwap128 ::
  "IR \<Rightarrow> InstPtr \<Rightarrow> InterpStack \<Rightarrow> State \<Rightarrow> (InterpStack \<times> State) option" where
  "RunCompareAndSwap128 ir i st s = do {
     a \<leftarrow> GetArg_Value (ir i) 0;
     elo \<leftarrow> GetArg_Value (ir i) 1;
     ehi \<leftarrow> GetArg_Value (ir i) 2;
     dlo \<leftarrow> GetArg_Value (ir i) 3;
     dhi \<leftarrow> GetArg_Value (ir i) 4;
     let ptr = guest_ptr s (ReadScalar ir st a);
     let old = (load_le (mem s) ptr 16 :: u128);
     let expected = push_bit 64 (ucast (ReadScalar ir st ehi)) OR ucast (ReadScalar ir st elo);
     let desired = (push_bit 64 (ucast (ReadScalar ir st dhi)) OR ucast (ReadScalar ir st dlo) :: u128);
     let m = (if old = expected then store_le (mem s) ptr 16 desired else mem s);
     Some (WriteVec ir st i old, s\<lparr>mem := m\<rparr>) }"

definition RunAtomicExchange ::
  "IR \<Rightarrow> InstPtr \<Rightarrow> InterpStack \<Rightarrow> State \<Rightarrow> (InterpStack \<times> State) option" where
  "RunAtomicExchange ir i st s = do {
     a \<leftarrow> GetArg_Value (ir i) 0;
     desired \<leftarrow> GetArg_Value (ir i) 1;
     n \<leftarrow> atomic_bytes (Value_Type ir desired);
     finish_atomic ir i st s (AtomicExchangeValue (mem s) (guest_ptr s (ReadScalar ir st a)) n
       (ReadScalar ir st desired)) }"

definition RunAtomicFetchAdd ::
  "IR \<Rightarrow> InstPtr \<Rightarrow> InterpStack \<Rightarrow> State \<Rightarrow> (InterpStack \<times> State) option" where
  "RunAtomicFetchAdd ir i st s = do {
     a \<leftarrow> GetArg_Value (ir i) 0;
     addend \<leftarrow> GetArg_Value (ir i) 1;
     n \<leftarrow> atomic_bytes (Value_Type ir addend);
     finish_atomic ir i st s (AtomicFetchAddValue (mem s) (guest_ptr s (ReadScalar ir st a)) n
       (ReadScalar ir st addend)) }"

text \<open>The operation selector of \<^verbatim>\<open>ir/atomic_rmw.h\<close>; an unknown selector leaves the value alone.\<close>

definition rmw_transform :: "u64 \<Rightarrow> u64 \<Rightarrow> u64 \<Rightarrow> u64 \<Rightarrow> u64" where
  "rmw_transform op operand carry old =
     (if op = 0 then old + operand
      else if op = 1 then old - operand
      else if op = 2 then old AND operand
      else if op = 3 then old OR operand
      else if op = 4 then old XOR operand
      else if op = 5 then 0 - old
      else if op = 6 then old + operand + carry
      else if op = 7 then old - operand - carry
      else old)"

definition RunAtomicRMW ::
  "IR \<Rightarrow> InstPtr \<Rightarrow> InterpStack \<Rightarrow> State \<Rightarrow> (InterpStack \<times> State) option" where
  "RunAtomicRMW ir i st s = do {
     m \<leftarrow> GetArg_Imm (ir i) 0;
     a \<leftarrow> GetArg_Value (ir i) 1;
     operand_arg \<leftarrow> GetArg_Value (ir i) 2;
     carry_arg \<leftarrow> GetArg_Value (ir i) 3;
     n \<leftarrow> atomic_bytes (Value_Type ir operand_arg);
     let op = (ucast (ucast (Imm_Get m) :: u8) :: u64);
     finish_atomic ir i st s (AtomicTransformValue (mem s) (guest_ptr s (ReadScalar ir st a)) n
       (rmw_transform op (ReadScalar ir st operand_arg) (ReadScalar ir st carry_arg AND 1))) }"

lemmas memory_run_defs [run_defs] = RunLoadLocal_def RunStoreLocal_def RunLoadUniform_def
  RunStoreUniform_def RunGetUniformAddress_def RunLoadMemory_def RunStoreMemory_def
  RunLoadMemoryTSO_def RunStoreMemoryTSO_def RunMemoryCopy_def RunMemoryCopyTSO_def
  RunCheckMemoryAlignment_def RunCompareAndSwap_def RunCompareAndSwap128_def
  RunAtomicExchange_def RunAtomicFetchAdd_def RunAtomicRMW_def finish_atomic_def

end
