(* ===== verification/Interp_Vector.thy ===== *)
theory Interp_Vector
  imports Interp_Scalar
begin

text \<open>
  Integer vector handlers of \<^verbatim>\<open>backend/interp/interpreter_vector_integer.cpp\<close>.  A vector
  is a 128-bit word; a loop that accumulates \<^verbatim>\<open>result |= piece << position\<close> is \<open>or_lanes\<close>.
\<close>

section \<open>Lane combinators\<close>

definition or_lanes :: "nat \<Rightarrow> (nat \<Rightarrow> u128) \<Rightarrow> u128" where
  "or_lanes n f = fold (\<lambda>k r. r OR f k) [0..<n] 0"

definition lane :: "u128 \<Rightarrow> nat \<Rightarrow> nat \<Rightarrow> u64" where
  "lane v b w = ucast (drop_bit b v) AND MaskBits w"

definition lane_width_ok :: "nat \<Rightarrow> bool" where
  "lane_width_ok w = (w = 8 \<or> w = 16 \<or> w = 32 \<or> w = 64)"

definition Vec4Binary :: "(u32 \<Rightarrow> u32 \<Rightarrow> u32) \<Rightarrow> u128 \<Rightarrow> u128 \<Rightarrow> u128" where
  "Vec4Binary op a b =
     or_lanes 4 (\<lambda>i. push_bit (i * 32)
       (ucast (op (ucast (drop_bit (i * 32) a)) (ucast (drop_bit (i * 32) b)))))"

definition VecLaneBinary :: "nat \<Rightarrow> (u64 \<Rightarrow> u64 \<Rightarrow> u64) \<Rightarrow> u128 \<Rightarrow> u128 \<Rightarrow> u128 option" where
  "VecLaneBinary w op a b = do {
     ASSERT (lane_width_ok w);
     Some (or_lanes (128 div w) (\<lambda>k. push_bit (k * w)
       (ucast (op (lane a (k * w) w) (lane b (k * w) w) AND MaskBits w)))) }"

definition SignedLane :: "u64 \<Rightarrow> nat \<Rightarrow> int" where
  "SignedLane value w =
     (if w = 64 then sint value
      else sint ((value XOR push_bit (w - 1) 1) - push_bit (w - 1) 1))"

definition imm_u32 :: "IR \<Rightarrow> InstPtr \<Rightarrow> nat \<Rightarrow> nat option" where
  "imm_u32 ir i n = map_option (\<lambda>m. unat (ucast (Imm_Get m) :: u32)) (GetArg_Imm (ir i) n)"

definition imm_flag :: "IR \<Rightarrow> InstPtr \<Rightarrow> nat \<Rightarrow> bool option" where
  "imm_flag ir i n = map_option (\<lambda>m. Imm_Get m \<noteq> 0) (GetArg_Imm (ir i) n)"

definition vec1 :: "IR \<Rightarrow> InstPtr \<Rightarrow> InterpStack \<Rightarrow> (u128 \<Rightarrow> u128 option) \<Rightarrow> InterpStack option" where
  "vec1 ir i st f = do {
     a \<leftarrow> GetArg_Value (ir i) 0;
     x \<leftarrow> f (ReadVec ir st a);
     Some (WriteVec ir st i x) }"

definition vec2 ::
  "IR \<Rightarrow> InstPtr \<Rightarrow> InterpStack \<Rightarrow> (u128 \<Rightarrow> u128 \<Rightarrow> u128 option) \<Rightarrow> InterpStack option" where
  "vec2 ir i st f = do {
     a \<leftarrow> GetArg_Value (ir i) 0;
     b \<leftarrow> GetArg_Value (ir i) 1;
     x \<leftarrow> f (ReadVec ir st a) (ReadVec ir st b);
     Some (WriteVec ir st i x) }"

section \<open>Lane arithmetic\<close>

definition RunVec4Add :: "IR \<Rightarrow> InstPtr \<Rightarrow> InterpStack \<Rightarrow> InterpStack option" where
  "RunVec4Add ir i st = vec2 ir i st (\<lambda>a b. Some (Vec4Binary (\<lambda>x y. x + y) a b))"

definition RunVec4Sub :: "IR \<Rightarrow> InstPtr \<Rightarrow> InterpStack \<Rightarrow> InterpStack option" where
  "RunVec4Sub ir i st = vec2 ir i st (\<lambda>a b. Some (Vec4Binary (\<lambda>x y. x - y) a b))"

definition RunVec4Mul :: "IR \<Rightarrow> InstPtr \<Rightarrow> InterpStack \<Rightarrow> InterpStack option" where
  "RunVec4Mul ir i st = vec2 ir i st (\<lambda>a b. Some (Vec4Binary (\<lambda>x y. x * y) a b))"

definition RunVec4And :: "IR \<Rightarrow> InstPtr \<Rightarrow> InterpStack \<Rightarrow> InterpStack option" where
  "RunVec4And ir i st = vec2 ir i st (\<lambda>a b. Some (a AND b))"

definition RunVec4Or :: "IR \<Rightarrow> InstPtr \<Rightarrow> InterpStack \<Rightarrow> InterpStack option" where
  "RunVec4Or ir i st = vec2 ir i st (\<lambda>a b. Some (a OR b))"

definition RunVecXor :: "IR \<Rightarrow> InstPtr \<Rightarrow> InterpStack \<Rightarrow> InterpStack option" where
  "RunVecXor ir i st = vec2 ir i st (\<lambda>a b. Some (a XOR b))"

definition RunVecAnd :: "IR \<Rightarrow> InstPtr \<Rightarrow> InterpStack \<Rightarrow> InterpStack option" where
  "RunVecAnd ir i st = vec2 ir i st (\<lambda>a b. Some (a AND b))"

definition RunVecOr :: "IR \<Rightarrow> InstPtr \<Rightarrow> InterpStack \<Rightarrow> InterpStack option" where
  "RunVecOr ir i st = vec2 ir i st (\<lambda>a b. Some (a OR b))"

definition RunVecAndNot :: "IR \<Rightarrow> InstPtr \<Rightarrow> InterpStack \<Rightarrow> InterpStack option" where
  "RunVecAndNot ir i st = vec2 ir i st (\<lambda>a b. Some (a AND NOT b))"

text \<open>Lane operations whose lane width is the third argument.\<close>

definition lane_op ::
  "IR \<Rightarrow> InstPtr \<Rightarrow> InterpStack \<Rightarrow> (nat \<Rightarrow> u64 \<Rightarrow> u64 \<Rightarrow> u64) \<Rightarrow> InterpStack option" where
  "lane_op ir i st op = do {
     w \<leftarrow> imm_u32 ir i 2;
     vec2 ir i st (VecLaneBinary w (op w)) }"

definition RunVecAdd :: "IR \<Rightarrow> InstPtr \<Rightarrow> InterpStack \<Rightarrow> InterpStack option" where
  "RunVecAdd ir i st = lane_op ir i st (\<lambda>w x y. x + y)"

definition RunVecSub :: "IR \<Rightarrow> InstPtr \<Rightarrow> InterpStack \<Rightarrow> InterpStack option" where
  "RunVecSub ir i st = lane_op ir i st (\<lambda>w x y. x - y)"

definition RunVecMul :: "IR \<Rightarrow> InstPtr \<Rightarrow> InterpStack \<Rightarrow> InterpStack option" where
  "RunVecMul ir i st = lane_op ir i st (\<lambda>w x y. x * y)"

definition RunVecCmpEq :: "IR \<Rightarrow> InstPtr \<Rightarrow> InterpStack \<Rightarrow> InterpStack option" where
  "RunVecCmpEq ir i st = lane_op ir i st (\<lambda>w x y. if x = y then NOT 0 else 0)"

definition RunVecCmpGt :: "IR \<Rightarrow> InstPtr \<Rightarrow> InterpStack \<Rightarrow> InterpStack option" where
  "RunVecCmpGt ir i st = lane_op ir i st (\<lambda>w x y. if SignedLane x w > SignedLane y w then NOT 0 else 0)"

definition RunVecAvg :: "IR \<Rightarrow> InstPtr \<Rightarrow> InterpStack \<Rightarrow> InterpStack option" where
  "RunVecAvg ir i st = do {
     w \<leftarrow> imm_u32 ir i 2;
     ASSERT (w = 8 \<or> w = 16);
     vec2 ir i st (VecLaneBinary w (\<lambda>x y. drop_bit 1 (x + y + 1))) }"

definition lane_min :: "bool \<Rightarrow> nat \<Rightarrow> u64 \<Rightarrow> u64 \<Rightarrow> u64" where
  "lane_min is_signed w x y =
     (if is_signed then (if SignedLane x w < SignedLane y w then x else y) else min x y)"

definition lane_max :: "bool \<Rightarrow> nat \<Rightarrow> u64 \<Rightarrow> u64 \<Rightarrow> u64" where
  "lane_max is_signed w x y =
     (if is_signed then (if SignedLane x w > SignedLane y w then x else y) else max x y)"

definition RunVecMin :: "IR \<Rightarrow> InstPtr \<Rightarrow> InterpStack \<Rightarrow> InterpStack option" where
  "RunVecMin ir i st = do { sg \<leftarrow> imm_flag ir i 3; lane_op ir i st (lane_min sg) }"

definition RunVecMax :: "IR \<Rightarrow> InstPtr \<Rightarrow> InterpStack \<Rightarrow> InterpStack option" where
  "RunVecMax ir i st = do { sg \<leftarrow> imm_flag ir i 3; lane_op ir i st (lane_max sg) }"

definition mul_high16 :: "bool \<Rightarrow> u64 \<Rightarrow> u64 \<Rightarrow> u64" where
  "mul_high16 signed_lanes x y =
     (let product = (if signed_lanes
         then (word_of_int (sint (ucast x :: u16) * sint (ucast y :: u16)) :: u32)
         else ucast (ucast x :: u16) * ucast (ucast y :: u16))
      in ucast (drop_bit 16 product))"

definition RunVecMulHigh16 :: "IR \<Rightarrow> InstPtr \<Rightarrow> InterpStack \<Rightarrow> InterpStack option" where
  "RunVecMulHigh16 ir i st = do {
     sg \<leftarrow> imm_flag ir i 2;
     vec2 ir i st (VecLaneBinary 16 (mul_high16 sg)) }"

definition mul_widen :: "nat \<Rightarrow> bool \<Rightarrow> u128 \<Rightarrow> u128 \<Rightarrow> u128 option" where
  "mul_widen src_bits is_signed a b = do {
     ASSERT (src_bits = 8 \<or> src_bits = 16 \<or> src_bits = 32);
     let dst_bits = src_bits * 2;
     Some (or_lanes (128 div dst_bits) (\<lambda>k.
       let left = lane a (k * dst_bits) src_bits; right = lane b (k * dst_bits) src_bits;
           product = (if is_signed
             then word_of_int (SignedLane left src_bits * SignedLane right src_bits)
             else left * right)
       in push_bit (k * dst_bits) (ucast (product AND MaskBits dst_bits)))) }"

definition RunVecMulWiden :: "IR \<Rightarrow> InstPtr \<Rightarrow> InterpStack \<Rightarrow> InterpStack option" where
  "RunVecMulWiden ir i st = do {
     w \<leftarrow> imm_u32 ir i 2;
     sg \<leftarrow> imm_flag ir i 3;
     vec2 ir i st (mul_widen w sg) }"

definition clamp :: "int \<Rightarrow> int \<Rightarrow> int \<Rightarrow> int" where
  "clamp lo hi x = (if x < lo then lo else if hi < x then hi else x)"

definition sat_add :: "bool \<Rightarrow> nat \<Rightarrow> u64 \<Rightarrow> u64 \<Rightarrow> u64" where
  "sat_add signed_lanes w x y =
     (let m = push_bit w 1 - 1 in
      if \<not> signed_lanes then min (x + y) m
      else word_of_int (clamp (- (2 ^ (w - 1))) (2 ^ (w - 1) - 1) (SignedLane x w + SignedLane y w)) AND m)"

definition sat_sub :: "bool \<Rightarrow> nat \<Rightarrow> u64 \<Rightarrow> u64 \<Rightarrow> u64" where
  "sat_sub signed_lanes w x y =
     (let m = push_bit w 1 - 1 in
      if \<not> signed_lanes then (if x < y then 0 else x - y)
      else word_of_int (clamp (- (2 ^ (w - 1))) (2 ^ (w - 1) - 1) (SignedLane x w - SignedLane y w)) AND m)"

definition RunVecSatAdd :: "IR \<Rightarrow> InstPtr \<Rightarrow> InterpStack \<Rightarrow> InterpStack option" where
  "RunVecSatAdd ir i st = do {
     w \<leftarrow> imm_u32 ir i 2;
     sg \<leftarrow> imm_flag ir i 3;
     m \<leftarrow> shl 1 w;
     vec2 ir i st (VecLaneBinary w (sat_add sg w)) }"

definition RunVecSatSub :: "IR \<Rightarrow> InstPtr \<Rightarrow> InterpStack \<Rightarrow> InterpStack option" where
  "RunVecSatSub ir i st = do {
     w \<leftarrow> imm_u32 ir i 2;
     sg \<leftarrow> imm_flag ir i 3;
     m \<leftarrow> shl 1 w;
     vec2 ir i st (VecLaneBinary w (sat_sub sg w)) }"

definition vec_pack :: "nat \<Rightarrow> bool \<Rightarrow> u128 \<Rightarrow> u128 \<Rightarrow> u128 option" where
  "vec_pack source_bits unsigned_destination a b = do {
     ASSERT (2 \<le> source_bits \<and> source_bits < 64);
     let destination_bits = source_bits div 2;
     let lanes_per_source = 128 div source_bits;
     let lo = (if unsigned_destination then 0 else - (2 ^ (destination_bits - 1)));
     let hi = (if unsigned_destination then 2 ^ destination_bits - 1 else 2 ^ (destination_bits - 1) - 1);
     Some (or_lanes (2 * lanes_per_source) (\<lambda>output_lane.
       let src = (if output_lane < lanes_per_source then a else b);
           raw = lane src ((output_lane mod lanes_per_source) * source_bits) source_bits;
           encoded = word_of_int (clamp lo hi (SignedLane raw source_bits)) AND
             (push_bit destination_bits 1 - 1 :: u64)
       in push_bit (output_lane * destination_bits) (ucast encoded))) }"

definition RunVecPack :: "IR \<Rightarrow> InstPtr \<Rightarrow> InterpStack \<Rightarrow> InterpStack option" where
  "RunVecPack ir i st = do {
     w \<leftarrow> imm_u32 ir i 2;
     ud \<leftarrow> imm_flag ir i 3;
     vec2 ir i st (vec_pack w ud) }"

definition abs_diff_sum8 :: "u128 \<Rightarrow> u128 \<Rightarrow> nat \<Rightarrow> u64" where
  "abs_diff_sum8 a b half = fold (\<lambda>byte sum.
     let p = half * 64 + byte * 8;
         x = (ucast (drop_bit p a) :: u8); y = (ucast (drop_bit p b) :: u8)
     in sum + ucast (if y < x then x - y else y - x)) [0..<8] 0"

definition RunVecAbsDiffSum8 :: "IR \<Rightarrow> InstPtr \<Rightarrow> InterpStack \<Rightarrow> InterpStack option" where
  "RunVecAbsDiffSum8 ir i st = vec2 ir i st (\<lambda>a b.
     Some (or_lanes 2 (\<lambda>half. push_bit (half * 64) (ucast (abs_diff_sum8 a b half)))))"

definition madd16 :: "u128 \<Rightarrow> u128 \<Rightarrow> nat \<Rightarrow> u32" where
  "madd16 a b k =
     (let p = k * 32;
          a0 = sint (ucast (drop_bit p a) :: u16); a1 = sint (ucast (drop_bit (p + 16) a) :: u16);
          b0 = sint (ucast (drop_bit p b) :: u16); b1 = sint (ucast (drop_bit (p + 16) b) :: u16)
      in word_of_int (a0 * b0 + a1 * b1))"

definition RunVecMadd16 :: "IR \<Rightarrow> InstPtr \<Rightarrow> InterpStack \<Rightarrow> InterpStack option" where
  "RunVecMadd16 ir i st = vec2 ir i st (\<lambda>a b.
     Some (or_lanes 4 (\<lambda>k. push_bit (k * 32) (ucast (madd16 a b k)))))"

section \<open>Lane shifts\<close>

definition lane_shl :: "u64 \<Rightarrow> nat \<Rightarrow> u64 \<Rightarrow> u64 \<Rightarrow> u64" where
  "lane_shl count w x y = (if of_nat w \<le> count then 0 else push_bit (unat count) x)"

definition lane_shr :: "u64 \<Rightarrow> nat \<Rightarrow> u64 \<Rightarrow> u64 \<Rightarrow> u64" where
  "lane_shr count w x y = (if of_nat w \<le> count then 0 else drop_bit (unat count) x)"

definition lane_asr :: "u64 \<Rightarrow> nat \<Rightarrow> u64 \<Rightarrow> u64 \<Rightarrow> u64" where
  "lane_asr count w x y =
     word_of_int (drop_bit (unat (min count (of_nat (w - 1)))) (SignedLane x w))"

definition lane_shift_value ::
  "IR \<Rightarrow> InstPtr \<Rightarrow> InterpStack \<Rightarrow> (u64 \<Rightarrow> nat \<Rightarrow> u64 \<Rightarrow> u64 \<Rightarrow> u64) \<Rightarrow> InterpStack option" where
  "lane_shift_value ir i st f = do {
     c \<leftarrow> GetArg_Value (ir i) 1;
     w \<leftarrow> imm_u32 ir i 2;
     vec1 ir i st (\<lambda>a. VecLaneBinary w (f (ReadScalar ir st c) w) a 0) }"

definition lane_shift_imm ::
  "IR \<Rightarrow> InstPtr \<Rightarrow> InterpStack \<Rightarrow> (u64 \<Rightarrow> nat \<Rightarrow> u64 \<Rightarrow> u64 \<Rightarrow> u64) \<Rightarrow> InterpStack option" where
  "lane_shift_imm ir i st f = do {
     c \<leftarrow> GetArg_Imm (ir i) 1;
     w \<leftarrow> imm_u32 ir i 2;
     vec1 ir i st (\<lambda>a. VecLaneBinary w (f (Imm_Get c) w) a 0) }"

definition RunVecShiftLeft :: "IR \<Rightarrow> InstPtr \<Rightarrow> InterpStack \<Rightarrow> InterpStack option" where
  "RunVecShiftLeft ir i st = lane_shift_value ir i st lane_shl"

definition RunVecShiftRight :: "IR \<Rightarrow> InstPtr \<Rightarrow> InterpStack \<Rightarrow> InterpStack option" where
  "RunVecShiftRight ir i st = lane_shift_value ir i st lane_shr"

definition RunVecShiftRightArithmetic :: "IR \<Rightarrow> InstPtr \<Rightarrow> InterpStack \<Rightarrow> InterpStack option" where
  "RunVecShiftRightArithmetic ir i st = lane_shift_value ir i st lane_asr"

definition RunVecShiftLeftImm :: "IR \<Rightarrow> InstPtr \<Rightarrow> InterpStack \<Rightarrow> InterpStack option" where
  "RunVecShiftLeftImm ir i st = lane_shift_imm ir i st lane_shl"

definition RunVecShiftRightImm :: "IR \<Rightarrow> InstPtr \<Rightarrow> InterpStack \<Rightarrow> InterpStack option" where
  "RunVecShiftRightImm ir i st = lane_shift_imm ir i st lane_shr"

definition RunVecShiftRightArithmeticImm :: "IR \<Rightarrow> InstPtr \<Rightarrow> InterpStack \<Rightarrow> InterpStack option" where
  "RunVecShiftRightArithmeticImm ir i st = lane_shift_imm ir i st lane_asr"

definition vec_byte_shift :: "nat \<Rightarrow> bool \<Rightarrow> u128 \<Rightarrow> u128 option" where
  "vec_byte_shift count left v = do {
     ASSERT (0 < count \<and> count < 16);
     Some (if left then push_bit (count * 8) v else drop_bit (count * 8) v) }"

definition RunVecByteShift :: "IR \<Rightarrow> InstPtr \<Rightarrow> InterpStack \<Rightarrow> InterpStack option" where
  "RunVecByteShift ir i st = do {
     c \<leftarrow> imm_u32 ir i 2;
     l \<leftarrow> imm_flag ir i 3;
     vec1 ir i st (vec_byte_shift c l) }"

section \<open>Shuffles\<close>

definition control2 :: "nat \<Rightarrow> nat \<Rightarrow> nat" where
  "control2 control k = (control div 4 ^ k) mod 4"

definition shuffle32 :: "nat \<Rightarrow> u128 \<Rightarrow> u128" where
  "shuffle32 control v = or_lanes 4 (\<lambda>k.
     push_bit (k * 32) (ucast (ucast (drop_bit (control2 control k * 32) v) :: u32)))"

definition RunVecShuffle32 :: "IR \<Rightarrow> InstPtr \<Rightarrow> InterpStack \<Rightarrow> InterpStack option" where
  "RunVecShuffle32 ir i st = do {
     c \<leftarrow> imm_u32 ir i 1;
     vec1 ir i st (\<lambda>v. Some (shuffle32 c v)) }"

definition shuffle32_two :: "nat \<Rightarrow> u128 \<Rightarrow> u128 \<Rightarrow> u128" where
  "shuffle32_two control a b = or_lanes 4 (\<lambda>k.
     push_bit (k * 32)
       (ucast (ucast (drop_bit (control2 control k * 32) (if k < 2 then a else b)) :: u32)))"

definition RunVecShuffle32TwoSrc :: "IR \<Rightarrow> InstPtr \<Rightarrow> InterpStack \<Rightarrow> InterpStack option" where
  "RunVecShuffle32TwoSrc ir i st = do {
     c \<leftarrow> imm_u32 ir i 2;
     vec2 ir i st (\<lambda>a b. Some (shuffle32_two c a b)) }"

definition RunVecLoadConst :: "IR \<Rightarrow> InstPtr \<Rightarrow> InterpStack \<Rightarrow> InterpStack option" where
  "RunVecLoadConst ir i st = do {
     lo \<leftarrow> GetArg_Imm (ir i) 0;
     hi \<leftarrow> GetArg_Imm (ir i) 1;
     Some (WriteVec ir st i (ucast (Imm_Get lo) OR push_bit 64 (ucast (Imm_Get hi)))) }"

definition shuffle_bytes :: "u128 \<Rightarrow> u128 \<Rightarrow> u128" where
  "shuffle_bytes v indexes = or_lanes 16 (\<lambda>k.
     let index = (ucast (drop_bit (k * 8) indexes) :: u8) in
     if index < 16 then push_bit (k * 8) (ucast (ucast (drop_bit (unat index * 8) v) :: u8)) else 0)"

definition RunVecShuffle32Indexed :: "IR \<Rightarrow> InstPtr \<Rightarrow> InterpStack \<Rightarrow> InterpStack option" where
  "RunVecShuffle32Indexed ir i st = vec2 ir i st (\<lambda>a b. Some (shuffle_bytes a b))"

definition RunVecSharedZero :: "IR \<Rightarrow> InstPtr \<Rightarrow> InterpStack \<Rightarrow> InterpStack option" where
  "RunVecSharedZero ir i st = Some (WriteVec ir st i 0)"

definition shuffle16 :: "nat \<Rightarrow> bool \<Rightarrow> u128 \<Rightarrow> u128" where
  "shuffle16 control high v =
     (let base = (if high then 4 else 0);
          half_mask = push_bit (base * 16) (ucast (NOT (0 :: u64)) :: u128)
      in (v AND NOT half_mask) OR or_lanes 4 (\<lambda>k.
           push_bit ((base + k) * 16)
             (ucast (ucast (drop_bit ((base + control2 control k) * 16) v) :: u16))))"

definition RunVecShuffle16 :: "IR \<Rightarrow> InstPtr \<Rightarrow> InterpStack \<Rightarrow> InterpStack option" where
  "RunVecShuffle16 ir i st = do {
     c \<leftarrow> imm_u32 ir i 1;
     h \<leftarrow> imm_flag ir i 2;
     vec1 ir i st (\<lambda>v. Some (shuffle16 c h v)) }"

definition vec_zip :: "nat \<Rightarrow> bool \<Rightarrow> u128 \<Rightarrow> u128 \<Rightarrow> u128 option" where
  "vec_zip w high a b = do {
     ASSERT (lane_width_ok w);
     let half_lanes = 64 div w;
     let source_base = (if high then half_lanes else 0);
     Some (or_lanes half_lanes (\<lambda>k.
       let p = (source_base + k) * w in
       push_bit ((k * 2) * w) (ucast (lane a p w)) OR push_bit ((k * 2 + 1) * w) (ucast (lane b p w)))) }"

definition RunVecZip :: "IR \<Rightarrow> InstPtr \<Rightarrow> InterpStack \<Rightarrow> InterpStack option" where
  "RunVecZip ir i st = do {
     w \<leftarrow> imm_u32 ir i 2;
     h \<leftarrow> imm_flag ir i 3;
     vec2 ir i st (vec_zip w h) }"

definition vec_unzip :: "nat \<Rightarrow> bool \<Rightarrow> u128 \<Rightarrow> u128 \<Rightarrow> u128 option" where
  "vec_unzip w odd_lanes a b = do {
     ASSERT (lane_width_ok w);
     let half_lanes = 64 div w;
     let start = (if odd_lanes then 1 else 0);
     Some (or_lanes half_lanes (\<lambda>k.
       let p = (k * 2 + start) * w in
       push_bit (k * w) (ucast (lane a p w)) OR push_bit ((half_lanes + k) * w) (ucast (lane b p w)))) }"

definition RunVecUnzip :: "IR \<Rightarrow> InstPtr \<Rightarrow> InterpStack \<Rightarrow> InterpStack option" where
  "RunVecUnzip ir i st = do {
     w \<leftarrow> imm_u32 ir i 2;
     o' \<leftarrow> imm_flag ir i 3;
     vec2 ir i st (vec_unzip w o') }"

definition dup_pairs32 :: "bool \<Rightarrow> u128 \<Rightarrow> u128" where
  "dup_pairs32 odd_lanes v = or_lanes 2 (\<lambda>pair.
     let x = (ucast (drop_bit ((pair * 2 + (if odd_lanes then 1 else 0)) * 32) v) :: u32) in
     push_bit (pair * 64) (ucast x) OR push_bit (pair * 64 + 32) (ucast x))"

definition RunVecDupPairs32 :: "IR \<Rightarrow> InstPtr \<Rightarrow> InterpStack \<Rightarrow> InterpStack option" where
  "RunVecDupPairs32 ir i st = do {
     o' \<leftarrow> imm_flag ir i 1;
     vec1 ir i st (\<lambda>v. Some (dup_pairs32 o' v)) }"

definition extract_bytes :: "nat \<Rightarrow> u128 \<Rightarrow> u128 \<Rightarrow> u128 option" where
  "extract_bytes offset low high = do {
     ASSERT (0 < offset \<and> offset < 16);
     Some (drop_bit (offset * 8) low OR push_bit (128 - offset * 8) high) }"

definition RunVecExtractBytes :: "IR \<Rightarrow> InstPtr \<Rightarrow> InterpStack \<Rightarrow> InterpStack option" where
  "RunVecExtractBytes ir i st = do {
     k \<leftarrow> imm_u32 ir i 2;
     vec2 ir i st (extract_bytes k) }"

definition RunVecDup64 :: "IR \<Rightarrow> InstPtr \<Rightarrow> InterpStack \<Rightarrow> InterpStack option" where
  "RunVecDup64 ir i st = do {
     v \<leftarrow> GetArg_Value (ir i) 0;
     let x = (ucast (ReadScalar ir st v) :: u128);
     Some (WriteVec ir st i (x OR push_bit 64 x)) }"

definition RunVecExtract64 :: "IR \<Rightarrow> InstPtr \<Rightarrow> InterpStack \<Rightarrow> InterpStack option" where
  "RunVecExtract64 ir i st = do {
     v \<leftarrow> GetArg_Value (ir i) 0;
     k \<leftarrow> imm_u32 ir i 1;
     WriteScalar ir st i (ucast (drop_bit ((k mod 2) * 64) (ReadVec ir st v))) }"

definition RunVecExtract16 :: "IR \<Rightarrow> InstPtr \<Rightarrow> InterpStack \<Rightarrow> InterpStack option" where
  "RunVecExtract16 ir i st = do {
     v \<leftarrow> GetArg_Value (ir i) 0;
     k \<leftarrow> imm_u32 ir i 1;
     WriteScalar ir st i (ucast (ucast (drop_bit ((k mod 8) * 16) (ReadVec ir st v)) :: u16)) }"

definition insert16 :: "nat \<Rightarrow> u128 \<Rightarrow> u64 \<Rightarrow> u128" where
  "insert16 k v x =
     (let p = (k mod 8) * 16; m = push_bit p 0xFFFF in
      (v AND NOT m) OR push_bit p (ucast (ucast x :: u16)))"

definition RunVecInsert16 :: "IR \<Rightarrow> InstPtr \<Rightarrow> InterpStack \<Rightarrow> InterpStack option" where
  "RunVecInsert16 ir i st = do {
     d \<leftarrow> GetArg_Value (ir i) 0;
     v \<leftarrow> GetArg_Value (ir i) 1;
     k \<leftarrow> imm_u32 ir i 2;
     Some (WriteVec ir st i (insert16 k (ReadVec ir st d) (ReadScalar ir st v))) }"

definition mov_mask :: "nat \<Rightarrow> u128 \<Rightarrow> u64 option" where
  "mov_mask w v = do {
     ASSERT (w = 8 \<or> w = 32 \<or> w = 64);
     Some (fold (\<lambda>k r. r OR push_bit k (ucast (drop_bit (k * w + w - 1) v AND 1))) [0..<128 div w] 0) }"

definition RunVecMovMask :: "IR \<Rightarrow> InstPtr \<Rightarrow> InterpStack \<Rightarrow> InterpStack option" where
  "RunVecMovMask ir i st = do {
     v \<leftarrow> GetArg_Value (ir i) 0;
     w \<leftarrow> imm_u32 ir i 1;
     x \<leftarrow> mov_mask w (ReadVec ir st v);
     WriteScalar ir st i x }"

definition table_lookup8 :: "u128 \<Rightarrow> u128 \<Rightarrow> u128" where
  "table_lookup8 table control = or_lanes 16 (\<lambda>k.
     let index = (ucast (drop_bit (k * 8) control) :: u8) in
     if index AND 0x80 = 0
     then push_bit (k * 8) (ucast (ucast (drop_bit (unat (index AND 0x0F) * 8) table) :: u8)) else 0)"

definition RunVecTableLookup8 :: "IR \<Rightarrow> InstPtr \<Rightarrow> InterpStack \<Rightarrow> InterpStack option" where
  "RunVecTableLookup8 ir i st = vec2 ir i st (\<lambda>a b. Some (table_lookup8 a b))"

lemmas vector_run_defs [run_defs] = RunVec4Add_def RunVec4Sub_def RunVec4Mul_def RunVec4And_def
  RunVec4Or_def RunVecXor_def RunVecAnd_def RunVecOr_def RunVecAndNot_def RunVecAdd_def
  RunVecSub_def RunVecMul_def RunVecCmpEq_def RunVecCmpGt_def RunVecAvg_def RunVecMin_def
  RunVecMax_def RunVecMulHigh16_def RunVecMulWiden_def RunVecSatAdd_def RunVecSatSub_def
  RunVecPack_def RunVecAbsDiffSum8_def RunVecMadd16_def RunVecShiftLeft_def RunVecShiftRight_def
  RunVecShiftRightArithmetic_def RunVecShiftLeftImm_def RunVecShiftRightImm_def
  RunVecShiftRightArithmeticImm_def RunVecByteShift_def RunVecShuffle32_def
  RunVecShuffle32TwoSrc_def RunVecLoadConst_def RunVecShuffle32Indexed_def RunVecSharedZero_def
  RunVecShuffle16_def RunVecZip_def RunVecUnzip_def RunVecDupPairs32_def RunVecExtractBytes_def
  RunVecDup64_def RunVecExtract64_def RunVecExtract16_def RunVecInsert16_def RunVecMovMask_def
  RunVecTableLookup8_def lane_op_def lane_shift_value_def lane_shift_imm_def vec1_def vec2_def

end
