(* ===== verification/Interp_Crypto.thy ===== *)
theory Interp_Crypto
  imports Interp_Vector
begin

text \<open>
  Cryptographic vector handlers of \<^verbatim>\<open>backend/interp/interpreter_vector_crypto.cpp\<close>: AES
  rounds over the byte block of a vector, carry-less multiplication and the SHA-256 schedule
  steps, whose AArch64 intrinsics are parameters of the host environment.
\<close>

section \<open>Galois field arithmetic\<close>

definition gf_double :: "u8 \<Rightarrow> u8" where
  "gf_double a = (if a AND 0x80 \<noteq> 0 then push_bit 1 a XOR 0x1b else push_bit 1 a)"

function gf_mul_loop :: "u8 \<Rightarrow> u8 \<Rightarrow> u8 \<Rightarrow> u8" where
  "gf_mul_loop a b acc =
     (if b = 0 then acc
      else gf_mul_loop (gf_double a) (drop_bit 1 b) (if b AND 1 \<noteq> 0 then acc XOR a else acc))"
  by pat_completeness auto

lemma drop_bit_1_less: "b \<noteq> 0 \<Longrightarrow> unat (drop_bit (Suc 0) b) < unat (b :: 'a::len word)"
  by (subst unat_drop_bit_eq) (simp add: drop_bit_eq_div unat_gt_0)

termination gf_mul_loop
  by (relation "measure (\<lambda>(a, b, acc). unat b)") (simp_all add: drop_bit_1_less)

declare gf_mul_loop.simps [simp del]

definition GfMul :: "u8 \<Rightarrow> u8 \<Rightarrow> u8" where
  "GfMul a b = gf_mul_loop a b 0"

definition Rotl8 :: "u8 \<Rightarrow> nat \<Rightarrow> u8" where
  "Rotl8 v n = push_bit n v OR drop_bit (8 - n) v"

fun gf_pow :: "u8 \<Rightarrow> u8 \<Rightarrow> nat \<Rightarrow> u8" where
  "gf_pow acc base ex =
     (if ex = 0 then acc
      else gf_pow (if odd ex then GfMul acc base else acc) (GfMul base base) (ex div 2))"

declare gf_pow.simps [simp del]

definition AesSbox :: "u8 \<Rightarrow> u8" where
  "AesSbox v =
     (let iv = (if v \<noteq> 0 then gf_pow 1 v 254 else 0) in
      iv XOR Rotl8 iv 1 XOR Rotl8 iv 2 XOR Rotl8 iv 3 XOR Rotl8 iv 4 XOR 0x63)"

definition AesInvSbox :: "u8 \<Rightarrow> u8 option" where
  "AesInvSbox v = map_option of_nat (find (\<lambda>candidate. AesSbox (of_nat candidate) = v) [0..<256])"

section \<open>AES block operations\<close>

type_synonym AesBlock = "u8 list"

definition ToAesBlock :: "u128 \<Rightarrow> AesBlock" where
  "ToAesBlock v = map (\<lambda>k. ucast (drop_bit (8 * k) v)) [0..<16]"

definition FromAesBlock :: "AesBlock \<Rightarrow> u128" where
  "FromAesBlock bs = or_lanes 16 (\<lambda>k. push_bit (8 * k) (ucast (bs ! k)))"

definition AesShiftRows :: "bool \<Rightarrow> AesBlock \<Rightarrow> AesBlock" where
  "AesShiftRows inverted input =
     map (\<lambda>p. let column = p div 4; row = p mod 4;
                  source_column = (if inverted then (column + 4 - row) mod 4 else (column + row) mod 4)
              in input ! (4 * source_column + row)) [0..<16]"

definition mix_column :: "bool \<Rightarrow> u8 \<Rightarrow> u8 \<Rightarrow> u8 \<Rightarrow> u8 \<Rightarrow> u8 list" where
  "mix_column inverted a0 a1 a2 a3 =
     (if inverted then
        [GfMul a0 14 XOR GfMul a1 11 XOR GfMul a2 13 XOR GfMul a3 9,
         GfMul a0 9 XOR GfMul a1 14 XOR GfMul a2 11 XOR GfMul a3 13,
         GfMul a0 13 XOR GfMul a1 9 XOR GfMul a2 14 XOR GfMul a3 11,
         GfMul a0 11 XOR GfMul a1 13 XOR GfMul a2 9 XOR GfMul a3 14]
      else
        [GfMul a0 2 XOR GfMul a1 3 XOR a2 XOR a3,
         a0 XOR GfMul a1 2 XOR GfMul a2 3 XOR a3,
         a0 XOR a1 XOR GfMul a2 2 XOR GfMul a3 3,
         GfMul a0 3 XOR a1 XOR a2 XOR GfMul a3 2])"

definition AesMixColumns :: "bool \<Rightarrow> AesBlock \<Rightarrow> AesBlock" where
  "AesMixColumns inverted v =
     concat (map (\<lambda>column. mix_column inverted (v ! (4 * column)) (v ! (4 * column + 1))
       (v ! (4 * column + 2)) (v ! (4 * column + 3))) [0..<4])"

definition add_key :: "AesBlock \<Rightarrow> AesBlock \<Rightarrow> AesBlock" where
  "add_key data key = map2 (XOR) data key"

definition aes_enc :: "bool \<Rightarrow> u128 \<Rightarrow> u128 \<Rightarrow> u128" where
  "aes_enc final data key =
     (let d1 = map AesSbox (ToAesBlock data);
          d2 = AesShiftRows False d1;
          d3 = (if final then d2 else AesMixColumns False d2)
      in FromAesBlock (add_key d3 (ToAesBlock key)))"

definition aes_dec :: "bool \<Rightarrow> u128 \<Rightarrow> u128 \<Rightarrow> u128 option" where
  "aes_dec final data key = do {
     d1 \<leftarrow> those (map AesInvSbox (ToAesBlock data));
     let d2 = AesShiftRows True d1;
     let d3 = (if final then d2 else AesMixColumns True d2);
     Some (FromAesBlock (add_key d3 (ToAesBlock key))) }"

definition RunVecAesEnc :: "IR \<Rightarrow> InstPtr \<Rightarrow> InterpStack \<Rightarrow> InterpStack option" where
  "RunVecAesEnc ir i st = vec2 ir i st (\<lambda>a b. Some (aes_enc False a b))"

definition RunVecAesEncLast :: "IR \<Rightarrow> InstPtr \<Rightarrow> InterpStack \<Rightarrow> InterpStack option" where
  "RunVecAesEncLast ir i st = vec2 ir i st (\<lambda>a b. Some (aes_enc True a b))"

definition RunVecAesDec :: "IR \<Rightarrow> InstPtr \<Rightarrow> InterpStack \<Rightarrow> InterpStack option" where
  "RunVecAesDec ir i st = vec2 ir i st (aes_dec False)"

definition RunVecAesDecLast :: "IR \<Rightarrow> InstPtr \<Rightarrow> InterpStack \<Rightarrow> InterpStack option" where
  "RunVecAesDecLast ir i st = vec2 ir i st (aes_dec True)"

definition keygen_word :: "AesBlock \<Rightarrow> u8 \<Rightarrow> nat \<Rightarrow> bool \<Rightarrow> u8 list" where
  "keygen_word source rcon src_word rot =
     (let w = map (\<lambda>byte. AesSbox (source ! (4 * src_word + (byte + (if rot then 1 else 0)) mod 4))) [0..<4]
      in if rot then w[0 := w ! 0 XOR rcon] else w)"

definition aes_keygen_assist :: "u8 \<Rightarrow> u128 \<Rightarrow> u128" where
  "aes_keygen_assist rcon v =
     (let source = ToAesBlock v in
      FromAesBlock (keygen_word source rcon 1 False @ keygen_word source rcon 1 True @
        keygen_word source rcon 3 False @ keygen_word source rcon 3 True))"

definition RunVecAesKeygenAssist :: "IR \<Rightarrow> InstPtr \<Rightarrow> InterpStack \<Rightarrow> InterpStack option" where
  "RunVecAesKeygenAssist ir i st = do {
     m \<leftarrow> GetArg_Imm (ir i) 1;
     vec1 ir i st (\<lambda>v. Some (aes_keygen_assist (ucast (Imm_Get m)) v)) }"

section \<open>Carry-less multiplication and SHA-256\<close>

definition pcl_mul64 :: "u64 \<Rightarrow> u64 \<Rightarrow> u128" where
  "pcl_mul64 a b = fold (\<lambda>k r. if drop_bit k b AND 1 \<noteq> 0 then r XOR push_bit k (ucast a) else r) [0..<64] 0"

definition RunVecPclMul :: "IR \<Rightarrow> InstPtr \<Rightarrow> InterpStack \<Rightarrow> InterpStack option" where
  "RunVecPclMul ir i st = do {
     m \<leftarrow> GetArg_Imm (ir i) 2;
     let control = (ucast (Imm_Get m) :: u32);
     vec2 ir i st (\<lambda>left right. Some (pcl_mul64
       (ucast (drop_bit (if control AND 1 \<noteq> 0 then 64 else 0) left))
       (ucast (drop_bit (if control AND 0x10 \<noteq> 0 then 64 else 0) right)))) }"

text \<open>The vector rearrangements of the SHA handlers, on 32-bit and 64-bit lanes.\<close>

definition vec_of_lanes32 :: "u32 list \<Rightarrow> u128" where
  "vec_of_lanes32 ls = or_lanes 4 (\<lambda>k. push_bit (32 * k) (ucast (ls ! k)))"

definition lane32 :: "u128 \<Rightarrow> nat \<Rightarrow> u32" where
  "lane32 v k = ucast (drop_bit (32 * k) v)"

definition vzip1q_u64 :: "u128 \<Rightarrow> u128 \<Rightarrow> u128" where
  "vzip1q_u64 a b = vec_of_lanes32 [lane32 a 0, lane32 a 1, lane32 b 0, lane32 b 1]"

definition vzip2q_u64 :: "u128 \<Rightarrow> u128 \<Rightarrow> u128" where
  "vzip2q_u64 a b = vec_of_lanes32 [lane32 a 2, lane32 a 3, lane32 b 2, lane32 b 3]"

definition vrev64q_u32 :: "u128 \<Rightarrow> u128" where
  "vrev64q_u32 a = vec_of_lanes32 [lane32 a 1, lane32 a 0, lane32 a 3, lane32 a 2]"

definition vdupq_n_u32 :: "u32 \<Rightarrow> u128" where
  "vdupq_n_u32 x = vec_of_lanes32 [x, x, x, x]"

definition RunVecSha256Msg1 :: "HostEnv \<Rightarrow> IR \<Rightarrow> InstPtr \<Rightarrow> InterpStack \<Rightarrow> InterpStack option" where
  "RunVecSha256Msg1 env ir i st = do {
     neon \<leftarrow> neon_sha env;
     vec2 ir i st (\<lambda>dst src. Some (vsha256su0q_u32 neon dst src)) }"

definition sha256_msg2 :: "NeonSha \<Rightarrow> u128 \<Rightarrow> u128 \<Rightarrow> u128" where
  "sha256_msg2 neon dst src =
     (let src1 = vec_of_lanes32 [lane32 dst 3, lane32 dst 0, lane32 dst 1, lane32 dst 2];
          duplicate = vdupq_n_u32 (lane32 dst 3);
          src2 = vzip2q_u64 duplicate src
      in vsha256su1q_u32 neon (vdupq_n_u32 0) src1 src2)"

definition RunVecSha256Msg2 :: "HostEnv \<Rightarrow> IR \<Rightarrow> InstPtr \<Rightarrow> InterpStack \<Rightarrow> InterpStack option" where
  "RunVecSha256Msg2 env ir i st = do {
     neon \<leftarrow> neon_sha env;
     vec2 ir i st (\<lambda>dst src. Some (sha256_msg2 neon dst src)) }"

definition sha256_rnds2 :: "NeonSha \<Rightarrow> u128 \<Rightarrow> u128 \<Rightarrow> u128 \<Rightarrow> u128" where
  "sha256_rnds2 neon dst src key_source =
     (let abcd = vrev64q_u32 (vzip2q_u64 src dst);
          efgh = vrev64q_u32 (vzip1q_u64 src dst);
          key = vec_of_lanes32 [lane32 key_source 0, lane32 key_source 1,
                                lane32 key_source 0, lane32 key_source 1];
          a = vsha256hq_u32 neon abcd efgh key;
          b = vsha256h2q_u32 neon efgh abcd key
      in vrev64q_u32 (vzip2q_u64 b a))"

definition RunVecSha256Rnds2 :: "HostEnv \<Rightarrow> IR \<Rightarrow> InstPtr \<Rightarrow> InterpStack \<Rightarrow> InterpStack option" where
  "RunVecSha256Rnds2 env ir i st = do {
     neon \<leftarrow> neon_sha env;
     k \<leftarrow> GetArg_Value (ir i) 2;
     vec2 ir i st (\<lambda>dst src. Some (sha256_rnds2 neon dst src (ReadVec ir st k))) }"

lemmas crypto_run_defs [run_defs] = RunVecAesEnc_def RunVecAesEncLast_def RunVecAesDec_def
  RunVecAesDecLast_def RunVecAesKeygenAssist_def RunVecPclMul_def RunVecSha256Msg1_def
  RunVecSha256Msg2_def RunVecSha256Rnds2_def

end
