(* ===== verification/Interp_Run.thy ===== *)
theory Interp_Run
  imports Interp_Memory Interp_Crypto
begin

text \<open>
  Execution of a block (\<^verbatim>\<open>Interpreter::Run\<close> and \<^verbatim>\<open>RunTerminal\<close> of
  \<^verbatim>\<open>backend/interp/interpreter.cpp\<close>, terminals of \<^verbatim>\<open>ir/terminal.h\<close>): the opcode dispatch, the
  instruction loop with its block-local jumps, and the terminal.  Jumps may form a loop, so
  the instruction loop takes fuel; a block whose labels all lie ahead of their jumps never
  uses more than one unit per instruction.
\<close>

section \<open>Dispatch\<close>

definition on_stack :: "State \<Rightarrow> InterpStack option \<Rightarrow> (InterpStack \<times> State) option" where
  "on_stack s r = map_option (\<lambda>st. (st, s)) r"

definition on_state :: "InterpStack \<Rightarrow> State option \<Rightarrow> (InterpStack \<times> State) option" where
  "on_state st r = map_option (\<lambda>s. (st, s)) r"

fun run_mem :: "MemOp \<Rightarrow> HostEnv \<Rightarrow> IR \<Rightarrow> InstPtr \<Rightarrow> InterpStack \<Rightarrow> State \<Rightarrow> (InterpStack \<times> State) option"
where
  "run_mem DefineLocal env ir i st s = Some (st, s)"
| "run_mem LoadLocal env ir i st s = on_stack s (RunLoadLocal ir i st s)"
| "run_mem StoreLocal env ir i st s = on_state st (RunStoreLocal ir i st s)"
| "run_mem LoadUniform env ir i st s = on_stack s (RunLoadUniform ir i st s)"
| "run_mem StoreUniform env ir i st s = on_state st (RunStoreUniform ir i st s)"
| "run_mem GetUniformAddress env ir i st s = on_stack s (RunGetUniformAddress ir i st s)"
| "run_mem X87Op env ir i st s = RunX87Op env ir i st s"
| "run_mem LoadMemory env ir i st s = RunLoadMemory ir i st s"
| "run_mem StoreMemory env ir i st s = on_state st (RunStoreMemory ir i st s)"
| "run_mem LoadMemoryTSO env ir i st s = RunLoadMemoryTSO ir i st s"
| "run_mem StoreMemoryTSO env ir i st s = on_state st (RunStoreMemoryTSO ir i st s)"
| "run_mem MemoryCopy env ir i st s = on_state st (RunMemoryCopy ir i st s)"
| "run_mem MemoryCopyTSO env ir i st s = on_state st (RunMemoryCopyTSO ir i st s)"
| "run_mem MemoryBarrierTSO env ir i st s = Some (st, s)"
| "run_mem CompareAndSwap env ir i st s = RunCompareAndSwap ir i st s"
| "run_mem CompareAndSwap128 env ir i st s = RunCompareAndSwap128 ir i st s"
| "run_mem CheckMemoryAlignment env ir i st s = on_state st (RunCheckMemoryAlignment ir i st s)"
| "run_mem AtomicExchange env ir i st s = RunAtomicExchange ir i st s"
| "run_mem AtomicFetchAdd env ir i st s = RunAtomicFetchAdd ir i st s"
| "run_mem AtomicRMW env ir i st s = RunAtomicRMW ir i st s"

fun run_help :: "HelpOp \<Rightarrow> HostEnv \<Rightarrow> IR \<Rightarrow> InstPtr \<Rightarrow> InterpStack \<Rightarrow> State \<Rightarrow> (InterpStack \<times> State) option"
where
  "run_help Select env ir i st s = on_stack s (RunSelect ir i st)"
| "run_help SelectZero env ir i st s = on_stack s (RunSelectZero ir i st)"
| "run_help CondSelect env ir i st s = on_stack s (RunCondSelect ir i st s)"
| "run_help CallLambda env ir i st s = RunCallLambda env ir i st s"
| "run_help Sse42Str env ir i st s = on_stack s (RunSse42Str env ir i st)"
| "run_help CallLocation env ir i st s = RunCallLocation env ir i st s"
| "run_help CallDynamic env ir i st s = RunCallDynamic env ir i st s"
| "run_help SetLocation env ir i st s = on_state st (RunSetLocation ir i st s)"
| "run_help GetLocation env ir i st s = on_stack s (RunGetLocation ir i st s)"
| "run_help Zero env ir i st s = on_stack s (RunZero ir i st)"
| "run_help GetHostGPR env ir i st s = on_stack s (RunGetHostGPR ir i st)"
| "run_help GetHostFPR env ir i st s = on_stack s (RunGetHostFPR ir i st)"
| "run_help BitCast env ir i st s = on_stack s (RunBitCast ir i st)"
| "run_help GetOperand env ir i st s = on_stack s (RunGetOperand ir i st)"
| "run_help GetResult env ir i st s = on_stack s (RunGetResult ir i st)"
| "run_help LoadImm env ir i st s = on_stack s (RunLoadImm ir i st)"
| "run_help UniformBarrier env ir i st s = Some (st, s)"
| "run_help Goto env ir i st s = Some (st, s)"
| "run_help NotGoto env ir i st s = Some (st, s)"
| "run_help BindLabel env ir i st s = Some (st, s)"
| "run_help AddPhi env ir i st s = Some (st, s)"
| "run_help Nop env ir i st s = Some (st, s)"
| "run_help AdvancePC env ir i st s = Some (st, s)"
| "run_help SetHostGPR env ir i st s = Some (st, s)"
| "run_help SetHostFPR env ir i st s = Some (st, s)"
| "run_help PushRSB env ir i st s = Some (st, s)"
| "run_help CallReturn env ir i st s = Some (st, s)"
| "run_help PopRSB env ir i st s = Some (st, s)"

fun run_calc :: "CalcOp \<Rightarrow> HostEnv \<Rightarrow> IR \<Rightarrow> InstPtr \<Rightarrow> InterpStack \<Rightarrow> State \<Rightarrow> InterpStack option" where
  "run_calc Add env ir i st s = RunAdd ir i st"
| "run_calc Sub env ir i st s = RunSub ir i st"
| "run_calc Adc env ir i st s = RunAdc ir i st s"
| "run_calc Sbb env ir i st s = RunSbb ir i st s"
| "run_calc Mul env ir i st s = RunMul ir i st"
| "run_calc MulSub env ir i st s = RunMulSub ir i st"
| "run_calc Div env ir i st s = RunDiv ir i st"
| "run_calc SignedDiv64 env ir i st s = RunSignedDiv64 ir i st"
| "run_calc Div128 env ir i st s = RunDiv128 ir i st"
| "run_calc Div128Remainder env ir i st s = Some st"
| "run_calc Cpuid env ir i st s = RunCpuid env ir i st"
| "run_calc CpuidUpper env ir i st s = Some st"
| "run_calc ZeroExtend32 env ir i st s = RunZeroExtend32 ir i st"
| "run_calc ZeroExtend32To64 env ir i st s = RunZeroExtend32To64 ir i st"
| "run_calc ZeroExtend64 env ir i st s = RunZeroExtend64 ir i st"
| "run_calc SignExtend env ir i st s = RunSignExtend ir i st"
| "run_calc And env ir i st s = RunAnd ir i st"
| "run_calc Or env ir i st s = RunOr ir i st"
| "run_calc Xor env ir i st s = RunXor ir i st"
| "run_calc Not_op env ir i st s = RunNot ir i st"
| "run_calc AndNot env ir i st s = RunAndNot ir i st"
| "run_calc MulHigh env ir i st s = RunMulHigh ir i st"
| "run_calc Neg_op env ir i st s = RunNeg ir i st"

fun run_flag :: "FlagOp \<Rightarrow> IR \<Rightarrow> InstPtr \<Rightarrow> InterpStack \<Rightarrow> State \<Rightarrow> (InterpStack \<times> State) option" where
  "run_flag GetFlags ir i st s = on_stack s (RunGetFlags ir i st s)"
| "run_flag SaveFlags ir i st s = on_state st (RunSaveFlags ir i st s)"
| "run_flag BranchOnlyFlags ir i st s = on_state st (RunBranchOnlyFlags ir i st s)"
| "run_flag TestFlags ir i st s = on_stack s (RunTestFlags ir i st s)"
| "run_flag TestNotFlags ir i st s = on_stack s (RunTestNotFlags ir i st s)"
| "run_flag ClearFlags ir i st s = on_state st (RunClearFlags ir i s)"
| "run_flag SetCarry ir i st s = on_state st (RunSetCarry ir i st s)"
| "run_flag SetOverflow ir i st s = on_state st (RunSetOverflow ir i st s)"
| "run_flag InvertCarry ir i st s = Some (st, RunInvertCarry s)"
| "run_flag PublishFCmpFlags ir i st s = on_state st (RunPublishFCmpFlags ir i st s)"
| "run_flag PublishSse42StrFlags ir i st s = on_state st (RunPublishSse42StrFlags ir i st s)"
| "run_flag CondSet ir i st s = on_stack s (RunCondSet ir i st s)"
| "run_flag LocalCondSet ir i st s = on_stack s (RunLocalCondSet ir i st s)"
| "run_flag LocalParitySet ir i st s = on_stack s (RunLocalParitySet ir i st)"
| "run_flag BranchOnlyEdges ir i st s = Some (st, s)"
| "run_flag FCmpCondSet ir i st s = on_stack s (RunFCmpCondSet ir i st)"

fun run_bit :: "BitOp \<Rightarrow> IR \<Rightarrow> InstPtr \<Rightarrow> InterpStack \<Rightarrow> InterpStack option" where
  "run_bit LslImm ir i st = RunLslImm ir i st"
| "run_bit LslValue ir i st = RunLslValue ir i st"
| "run_bit LsrImm ir i st = RunLsrImm ir i st"
| "run_bit LsrValue ir i st = RunLsrValue ir i st"
| "run_bit AsrImm ir i st = RunAsrImm ir i st"
| "run_bit AsrValue ir i st = RunAsrValue ir i st"
| "run_bit RorImm ir i st = RunRorImm ir i st"
| "run_bit RorValue ir i st = RunRorValue ir i st"
| "run_bit ByteSwap ir i st = RunByteSwap ir i st"
| "run_bit CountLeadingZeros64 ir i st = RunCountLeadingZeros64 ir i st"
| "run_bit CountTrailingZeros64 ir i st = RunCountTrailingZeros64 ir i st"
| "run_bit CountLeadingZeros32 ir i st = RunCountLeadingZeros32 ir i st"
| "run_bit CountTrailingZeros32 ir i st = RunCountTrailingZeros32 ir i st"
| "run_bit BitExtract ir i st = RunBitExtract ir i st"
| "run_bit BitInsert ir i st = RunBitInsert ir i st"
| "run_bit BitClear ir i st = RunBitClear ir i st"
| "run_bit TestBit ir i st = RunTestBit ir i st"
| "run_bit TestZero ir i st = RunTestZero ir i st"
| "run_bit TestNotZero ir i st = RunTestNotZero ir i st"

fun run_vec :: "VecOp \<Rightarrow> IR \<Rightarrow> InstPtr \<Rightarrow> InterpStack \<Rightarrow> InterpStack option" where
  "run_vec Vec4Add ir i st = RunVec4Add ir i st"
| "run_vec Vec4Sub ir i st = RunVec4Sub ir i st"
| "run_vec Vec4Mul ir i st = RunVec4Mul ir i st"
| "run_vec Vec4And ir i st = RunVec4And ir i st"
| "run_vec Vec4Or ir i st = RunVec4Or ir i st"
| "run_vec VecXor ir i st = RunVecXor ir i st"
| "run_vec VecAnd ir i st = RunVecAnd ir i st"
| "run_vec VecOr ir i st = RunVecOr ir i st"
| "run_vec VecAndNot ir i st = RunVecAndNot ir i st"
| "run_vec VecAdd ir i st = RunVecAdd ir i st"
| "run_vec VecSub ir i st = RunVecSub ir i st"
| "run_vec VecCmpEq ir i st = RunVecCmpEq ir i st"
| "run_vec VecCmpGt ir i st = RunVecCmpGt ir i st"
| "run_vec VecAvg ir i st = RunVecAvg ir i st"
| "run_vec VecMin ir i st = RunVecMin ir i st"
| "run_vec VecMax ir i st = RunVecMax ir i st"
| "run_vec VecMul ir i st = RunVecMul ir i st"
| "run_vec VecMulHigh16 ir i st = RunVecMulHigh16 ir i st"
| "run_vec VecMulWiden ir i st = RunVecMulWiden ir i st"
| "run_vec VecSatAdd ir i st = RunVecSatAdd ir i st"
| "run_vec VecSatSub ir i st = RunVecSatSub ir i st"
| "run_vec VecPack ir i st = RunVecPack ir i st"
| "run_vec VecAbsDiffSum8 ir i st = RunVecAbsDiffSum8 ir i st"
| "run_vec VecMadd16 ir i st = RunVecMadd16 ir i st"

fun run_shuf :: "ShufOp \<Rightarrow> IR \<Rightarrow> InstPtr \<Rightarrow> InterpStack \<Rightarrow> InterpStack option" where
  "run_shuf VecShiftLeft ir i st = RunVecShiftLeft ir i st"
| "run_shuf VecShiftRight ir i st = RunVecShiftRight ir i st"
| "run_shuf VecShiftRightArithmetic ir i st = RunVecShiftRightArithmetic ir i st"
| "run_shuf VecShiftLeftImm ir i st = RunVecShiftLeftImm ir i st"
| "run_shuf VecShiftRightImm ir i st = RunVecShiftRightImm ir i st"
| "run_shuf VecShiftRightArithmeticImm ir i st = RunVecShiftRightArithmeticImm ir i st"
| "run_shuf VecByteShift ir i st = RunVecByteShift ir i st"
| "run_shuf VecShuffle32 ir i st = RunVecShuffle32 ir i st"
| "run_shuf VecShuffle32TwoSrc ir i st = RunVecShuffle32TwoSrc ir i st"
| "run_shuf VecLoadConst ir i st = RunVecLoadConst ir i st"
| "run_shuf VecShuffle32Indexed ir i st = RunVecShuffle32Indexed ir i st"
| "run_shuf VecSharedZero ir i st = RunVecSharedZero ir i st"
| "run_shuf VecShuffle16 ir i st = RunVecShuffle16 ir i st"
| "run_shuf VecExtractBytes ir i st = RunVecExtractBytes ir i st"
| "run_shuf VecZip ir i st = RunVecZip ir i st"
| "run_shuf VecDupPairs32 ir i st = RunVecDupPairs32 ir i st"
| "run_shuf VecDup64 ir i st = RunVecDup64 ir i st"
| "run_shuf VecExtract64 ir i st = RunVecExtract64 ir i st"
| "run_shuf VecExtract16 ir i st = RunVecExtract16 ir i st"
| "run_shuf VecInsert16 ir i st = RunVecInsert16 ir i st"
| "run_shuf VecMovMask ir i st = RunVecMovMask ir i st"
| "run_shuf VecTableLookup8 ir i st = RunVecTableLookup8 ir i st"
| "run_shuf VecUnzip ir i st = RunVecUnzip ir i st"

fun run_crypto :: "CryptoOp \<Rightarrow> HostEnv \<Rightarrow> IR \<Rightarrow> InstPtr \<Rightarrow> InterpStack \<Rightarrow> InterpStack option" where
  "run_crypto VecAesEnc env ir i st = RunVecAesEnc ir i st"
| "run_crypto VecAesEncLast env ir i st = RunVecAesEncLast ir i st"
| "run_crypto VecAesDec env ir i st = RunVecAesDec ir i st"
| "run_crypto VecAesDecLast env ir i st = RunVecAesDecLast ir i st"
| "run_crypto VecAesEncFast env ir i st = RunVecAesEnc ir i st"
| "run_crypto VecAesEncLastFast env ir i st = RunVecAesEncLast ir i st"
| "run_crypto VecAesDecFast env ir i st = RunVecAesDec ir i st"
| "run_crypto VecAesDecLastFast env ir i st = RunVecAesDecLast ir i st"
| "run_crypto VecAesKeygenAssist env ir i st = RunVecAesKeygenAssist ir i st"
| "run_crypto VecPclMul env ir i st = RunVecPclMul ir i st"
| "run_crypto VecSha256Msg1 env ir i st = RunVecSha256Msg1 env ir i st"
| "run_crypto VecSha256Msg2 env ir i st = RunVecSha256Msg2 env ir i st"
| "run_crypto VecSha256Rnds2 env ir i st = RunVecSha256Rnds2 env ir i st"

text \<open>
  A floating-point operation is a function of the operands' vector contents and of the
  immediates of the instruction.
\<close>

definition imms_of :: "Inst \<Rightarrow> u64 list" where
  "imms_of inst = concat (map (\<lambda>a. case a of AImm m \<Rightarrow> [Imm_Get m] | _ \<Rightarrow> []) (arguments inst))"

definition run_float ::
  "FloatOp \<Rightarrow> HostEnv \<Rightarrow> IR \<Rightarrow> InstPtr \<Rightarrow> InterpStack \<Rightarrow> InterpStack option" where
  "run_float op env ir i st = do {
     x \<leftarrow> float_fn env op (ret_type (ir i)) (map (ReadVec ir st) (GetValues (ir i))) (imms_of (ir i));
     Some (WriteVec ir st i x) }"

fun run_op :: "OpCode \<Rightarrow> HostEnv \<Rightarrow> IR \<Rightarrow> InstPtr \<Rightarrow> InterpStack \<Rightarrow> State \<Rightarrow> (InterpStack \<times> State) option"
where
  "run_op Void_op env ir i st s = Some (st, s)"
| "run_op (Mem x) env ir i st s = run_mem x env ir i st s"
| "run_op (Help x) env ir i st s = run_help x env ir i st s"
| "run_op (Calc x) env ir i st s = on_stack s (run_calc x env ir i st s)"
| "run_op (Flag x) env ir i st s = run_flag x ir i st s"
| "run_op (Bit x) env ir i st s = on_stack s (run_bit x ir i st)"
| "run_op (Vec x) env ir i st s = on_stack s (run_vec x ir i st)"
| "run_op (Shuf x) env ir i st s = on_stack s (run_shuf x ir i st)"
| "run_op (Crypto x) env ir i st s = on_stack s (run_crypto x env ir i st)"
| "run_op (Float x) env ir i st s = on_stack s (run_float x env ir i st)"

definition RunInst ::
  "HostEnv \<Rightarrow> IR \<Rightarrow> InstPtr \<Rightarrow> InterpStack \<Rightarrow> State \<Rightarrow> (InterpStack \<times> State) option" where
  "RunInst env ir i st s = run_op (op_code (ir i)) env ir i st s"

section \<open>Terminals\<close>

datatype Terminal = Invalid | ReturnToDispatch | ReturnToHost | LinkBlock u64 | LinkBlockFast u64
  | ExternalLinkBlock u64 | PopRSBHint | If_term Value Terminal Terminal
  | Condition_term Cond Terminal Terminal | Switch Value "(Imm \<times> Terminal) list"
  | CheckHalt Terminal

definition link_to :: "State \<Rightarrow> u64 \<Rightarrow> State" where
  "link_to s next = s\<lparr>prev_loc := current_loc s, current_loc := next\<rparr>"

function RunTerminal :: "IR \<Rightarrow> Terminal \<Rightarrow> InterpStack \<Rightarrow> State \<Rightarrow> HaltReason \<times> State" where
  "RunTerminal ir Invalid st s = (HaltNone, s)"
| "RunTerminal ir ReturnToDispatch st s = (HaltNone, s)"
| "RunTerminal ir ReturnToHost st s = (HaltCallHost, s\<lparr>halt_reason := HaltCallHost\<rparr>)"
| "RunTerminal ir (LinkBlock next) st s = (HaltNone, link_to s next)"
| "RunTerminal ir (LinkBlockFast next) st s = (HaltNone, link_to s next)"
| "RunTerminal ir (ExternalLinkBlock next) st s = (HaltNone, link_to s next)"
| "RunTerminal ir PopRSBHint st s = (HaltNone, s)"
| "RunTerminal ir (If_term c a b) st s =
     (if ReadScalar ir st c \<noteq> 0 then RunTerminal ir a st s else RunTerminal ir b st s)"
| "RunTerminal ir (Condition_term c a b) st s =
     (if EvalCondition c (host_cpu_flags s) then RunTerminal ir a st s else RunTerminal ir b st s)"
| "RunTerminal ir (Switch v cases) st s =
     (case find (\<lambda>c. Imm_Get (fst c) = ReadScalar ir st v) cases of
        Some c \<Rightarrow> RunTerminal ir (snd c) st s
      | None \<Rightarrow> (HaltNone, s))"
| "RunTerminal ir (CheckHalt t) st s =
     (if halt_reason s \<noteq> HaltNone then (halt_reason s, s) else RunTerminal ir t st s)"
  by pat_completeness auto

lemma find_case_size:
  "find P cases = Some c \<Longrightarrow> size (snd c) < Suc (size_list (size_prod (\<lambda>x. 0) size) cases)"
proof (induction cases)
  case (Cons x xs)
  then show ?case by (cases "P x"; cases x) (auto split: if_splits)
qed simp

termination RunTerminal
  by (relation "measure (\<lambda>(ir, t, st, s). size t)") (auto dest: find_case_size)

section \<open>The instruction loop\<close>

text \<open>
  A label is found by its jump: the last \<^verbatim>\<open>BindLabel\<close> whose argument is defined by the jump.
  A block is a list of instruction pointers, an iterator an index into it.
\<close>

definition label_binds :: "IR \<Rightarrow> InstPtr \<Rightarrow> InstPtr \<Rightarrow> bool" where
  "label_binds ir jump q =
     (op_code (ir q) = Help BindLabel \<and>
      (case GetArg_Value (ir q) 0 of Some v \<Rightarrow> Def v = jump | None \<Rightarrow> False))"

fun last_index :: "('a \<Rightarrow> bool) \<Rightarrow> 'a list \<Rightarrow> nat \<Rightarrow> nat option" where
  "last_index P [] k = None"
| "last_index P (x # xs) k =
     (case last_index P xs (Suc k) of Some j \<Rightarrow> Some j | None \<Rightarrow> if P x then Some k else None)"

definition find_label :: "IR \<Rightarrow> InstPtr list \<Rightarrow> InstPtr \<Rightarrow> nat option" where
  "find_label ir insts jump = last_index (label_binds ir jump) insts 0"

definition is_jump :: "Inst \<Rightarrow> bool" where
  "is_jump inst = (op_code inst = Help Goto \<or> op_code inst = Help NotGoto)"

definition jump_taken :: "IR \<Rightarrow> InstPtr \<Rightarrow> InterpStack \<Rightarrow> bool option" where
  "jump_taken ir i st = do {
     c \<leftarrow> GetArg_Value (ir i) 0;
     Some ((op_code (ir i) = Help Goto) = (ReadScalar ir st c \<noteq> 0)) }"

text \<open>
  The loop ends at the end of the list, or as soon as an instruction leaves a halt reason set;
  an assertion failure aborts it.  \<^const>\<open>None\<close> is lack of fuel.
\<close>

datatype LoopResult = LoopDone InterpStack State | LoopHalted State | LoopAbort

fun run_insts ::
  "nat \<Rightarrow> HostEnv \<Rightarrow> IR \<Rightarrow> InstPtr list \<Rightarrow> nat \<Rightarrow> InterpStack \<Rightarrow> State \<Rightarrow> LoopResult option"
where
  "run_insts 0 env ir insts it st s = (if it < length insts then None else Some (LoopDone st s))"
| "run_insts (Suc n) env ir insts it st s =
     (if it < length insts then
        let i = insts ! it in
        if is_jump (ir i) then
          (case jump_taken ir i st of
             None \<Rightarrow> Some LoopAbort
           | Some taken \<Rightarrow>
               let it' = (if taken then (case find_label ir insts i of Some j \<Rightarrow> j | None \<Rightarrow> it) else it)
               in run_insts n env ir insts (Suc it') st s)
        else
          (case RunInst env ir i st s of
             None \<Rightarrow> Some LoopAbort
           | Some (st', s') \<Rightarrow>
               if halt_reason s' \<noteq> HaltNone then Some (LoopHalted s')
               else run_insts n env ir insts (Suc it) st' s')
      else Some (LoopDone st s))"

definition labels_ok :: "IR \<Rightarrow> InstPtr list \<Rightarrow> bool" where
  "labels_ok ir insts =
     list_all (\<lambda>q. op_code (ir q) = Help BindLabel \<longrightarrow> GetArg_Value (ir q) 0 \<noteq> None) insts"

datatype BlockResult = BlockDone HaltReason State | BlockAbort

definition RunBlock ::
  "nat \<Rightarrow> HostEnv \<Rightarrow> IR \<Rightarrow> InstPtr list \<Rightarrow> Terminal \<Rightarrow> State \<Rightarrow> BlockResult option" where
  "RunBlock fuel env ir insts term s =
     (if \<not> labels_ok ir insts then Some BlockAbort
      else case run_insts fuel env ir insts 0 (\<lambda>_. 0) s of
        None \<Rightarrow> None
      | Some LoopAbort \<Rightarrow> Some BlockAbort
      | Some (LoopHalted s') \<Rightarrow> Some (BlockDone (halt_reason s') s')
      | Some (LoopDone st s') \<Rightarrow>
          (let (r, s'') = RunTerminal ir term st s' in Some (BlockDone r s'')))"

definition max_inst_id :: "IR \<Rightarrow> InstPtr list \<Rightarrow> nat" where
  "max_inst_id ir insts = fold (\<lambda>i m. max m (unat (inst_id (ir i)))) insts 0"

definition slot_count :: "IR \<Rightarrow> InstPtr list \<Rightarrow> nat" where
  "slot_count ir insts = (max_inst_id ir insts + 1) * kSlotStride"

end
