(* ===== verification/IR_Uses.thy ===== *)
theory IR_Uses
  imports IR_Inst
begin

text \<open>
  Use counts and pseudo-operation chains (\<^verbatim>\<open>Inst::Use\<close>, \<^verbatim>\<open>Inst::UnUse\<close>,
  \<^verbatim>\<open>Inst::DestroyArgs\<close> of \<^verbatim>\<open>runtime/ir/instr.cpp\<close>).  The values an instruction names are
  those its typed argument accessors can return; a chain is a linked list through
  \<open>next_pseudo_inst\<close> and attaching and releasing a pseudo-operation are an append and a removal.
\<close>

section \<open>Reading through arguments\<close>

definition wf_inst :: "Inst \<Rightarrow> bool" where
  "wf_inst inst = (length (arguments inst) = max_args)"

lemma arg_case_eq_Some [simp]:
  "(case a of AValue v \<Rightarrow> Some v | _ \<Rightarrow> None) = Some x1 \<longleftrightarrow> a = AValue x1"
  "(case a of AImm v \<Rightarrow> Some v | _ \<Rightarrow> None) = Some x2 \<longleftrightarrow> a = AImm x2"
  "(case a of ACond v \<Rightarrow> Some v | _ \<Rightarrow> None) = Some x3 \<longleftrightarrow> a = ACond x3"
  "(case a of AFlags v \<Rightarrow> Some v | _ \<Rightarrow> None) = Some x4 \<longleftrightarrow> a = AFlags x4"
  "(case a of ALocal v \<Rightarrow> Some v | _ \<Rightarrow> None) = Some x5 \<longleftrightarrow> a = ALocal x5"
  "(case a of AUniform v \<Rightarrow> Some v | _ \<Rightarrow> None) = Some x6 \<longleftrightarrow> a = AUniform x6"
  "(case a of ALambda v \<Rightarrow> Some v | _ \<Rightarrow> None) = Some x7 \<longleftrightarrow> a = ALambda x7"
  "(case a of AParams v \<Rightarrow> Some v | _ \<Rightarrow> None) = Some x8 \<longleftrightarrow> a = AParams x8"
  "(case a of AOperandOp v \<Rightarrow> Some v | _ \<Rightarrow> None) = Some x9 \<longleftrightarrow> a = AOperandOp x9"
  by (cases a; simp)+

lemma PublicIndex_less: "PublicIndex inst n = Some k \<Longrightarrow> k < max_args"
  by (auto simp: PublicIndex_def Let_def)

lemma ArgAt_values:
  assumes "wf_inst inst" "k < max_args"
  shows "set (values_of_arg (ArgAt inst k)) \<subseteq> set (GetValues inst)"
proof -
  have "ArgAt inst k \<in> set (arguments inst)"
    using assms by (simp add: ArgAt_def wf_inst_def)
  then show ?thesis by (auto simp: GetValues_def)
qed

lemma GetArg_Value_slot:
  "GetArg_Value inst n = Some v \<Longrightarrow> \<exists>k < max_args. ArgAt inst k = AValue v"
  by (auto simp: GetArg_Value_def bind_eq_Some_conv dest: PublicIndex_less)

lemma GetArg_Lambda_slot:
  "GetArg_Lambda inst n = Some v \<Longrightarrow> \<exists>k < max_args. ArgAt inst k = ALambda v"
  by (auto simp: GetArg_Lambda_def bind_eq_Some_conv dest: PublicIndex_less)

lemma GetArg_Params_slot:
  "GetArg_Params inst n = Some v \<Longrightarrow> \<exists>k < max_args. ArgAt inst k = AParams v"
  by (auto simp: GetArg_Params_def bind_eq_Some_conv dest: PublicIndex_less)

lemma GetArg_Value_mem:
  "wf_inst inst \<Longrightarrow> GetArg_Value inst n = Some v \<Longrightarrow> v \<in> set (GetValues inst)"
  using ArgAt_values [of inst] by (auto dest!: GetArg_Value_slot) force

fun data_values :: "DataClass \<Rightarrow> Value list" where
  "data_values (DValue v) = [v]"
| "data_values _ = []"

lemma ToDataClass_values: "ToDataClass a = Some d \<Longrightarrow> data_values d = values_of_arg a \<or> data_values d = []"
  by (cases a) auto

lemma GetArg_Operand_mem:
  assumes "wf_inst inst" "GetArg_Operand inst n = Some p"
  shows "set (data_values (operand_left p)) \<subseteq> set (GetValues inst)"
    and "set (data_values (operand_right p)) \<subseteq> set (GetValues inst)"
proof -
  obtain k where k: "PublicIndex inst n = Some k" "k + 2 < max_args"
    "ToDataClass (ArgAt inst (k + 1)) = Some (operand_left p)"
    "ToDataClass (ArgAt inst (k + 2)) = Some (operand_right p)"
    using assms(2) by (auto simp: GetArg_Operand_def bind_eq_Some_conv)
  show "set (data_values (operand_left p)) \<subseteq> set (GetValues inst)"
    using ToDataClass_values [OF k(3)] ArgAt_values [OF assms(1), of "k + 1"] k(2) by auto
  show "set (data_values (operand_right p)) \<subseteq> set (GetValues inst)"
    using ToDataClass_values [OF k(4)] ArgAt_values [OF assms(1), of "k + 2"] k(2) by auto
qed

lemma GetArg_Lambda_mem:
  assumes "wf_inst inst" "GetArg_Lambda inst n = Some l" "Lambda_GetValue l = Some v"
  shows "v \<in> set (GetValues inst)"
proof -
  obtain k where "k < max_args" "ArgAt inst k = ALambda l"
    using GetArg_Lambda_slot [OF assms(2)] by blast
  then show ?thesis using ArgAt_values [OF assms(1), of k] assms(3) by simp
qed

lemma GetArg_Params_mem:
  assumes "wf_inst inst" "GetArg_Params inst n = Some ps" "d \<in> set ps"
  shows "set (data_values d) \<subseteq> set (GetValues inst)"
proof -
  obtain k where k: "k < max_args" "ArgAt inst k = AParams ps"
    using GetArg_Params_slot [OF assms(2)] by blast
  have "set (data_values d) \<subseteq> set (values_of_params ps)"
    by (cases d) (use assms(3) in \<open>force simp: values_of_params_def\<close>)+
  then show ?thesis using ArgAt_values [OF assms(1) k(1)] k(2) by auto
qed

section \<open>Chains\<close>

fun chain :: "IR \<Rightarrow> InstPtr \<Rightarrow> InstPtr list \<Rightarrow> bool" where
  "chain ir p [] = (next_pseudo_inst (ir p) = None)"
| "chain ir p (q # qs) = (next_pseudo_inst (ir p) = Some q \<and> chain ir q qs)"

lemma chain_cong:
  "(\<And>q. q \<in> set (p # qs) \<Longrightarrow> next_pseudo_inst (ir' q) = next_pseudo_inst (ir q)) \<Longrightarrow>
    chain ir' p qs = chain ir p qs"
  by (induction qs arbitrary: p) simp_all

lemma chain_last: "chain ir p qs \<Longrightarrow> next_pseudo_inst (ir (last (p # qs))) = None"
  by (induction qs arbitrary: p) simp_all

lemma chain_snoc:
  assumes "chain ir p qs" "distinct (p # qs)" "this \<notin> set (p # qs)" "next_pseudo_inst (ir this) = None"
  shows "chain (ir(last (p # qs) := (ir (last (p # qs)))\<lparr>next_pseudo_inst := Some this\<rparr>)) p (qs @ [this])"
  using assms
proof (induction qs arbitrary: p)
  case (Cons q qs)
  then have "p \<noteq> last (q # qs)" using last_in_set [of "q # qs"] by auto
  with Cons show ?case by simp
qed simp

lemma chain_remove:
  assumes "chain ir p (as @ q # bs)" "distinct (p # as @ q # bs)"
  shows "chain (ir(last (p # as) := (ir (last (p # as)))\<lparr>next_pseudo_inst := next_pseudo_inst (ir q)\<rparr>,
    q := (ir q)\<lparr>next_pseudo_inst := None\<rparr>)) p (as @ bs)"
  using assms
proof (induction as arbitrary: p)
  case Nil
  show ?case
  proof (cases bs)
    case (Cons b bs')
    let ?ir = "ir(p := (ir p)\<lparr>next_pseudo_inst := next_pseudo_inst (ir q)\<rparr>, q := (ir q)\<lparr>next_pseudo_inst := None\<rparr>)"
    have "chain ?ir b bs' = chain ir b bs'" by (rule chain_cong) (use Nil Cons in auto)
    then have "chain ?ir b bs'" "next_pseudo_inst (?ir p) = Some b" using Nil Cons by auto
    then have "chain ?ir p bs" using Cons by simp
    then show ?thesis by (simp only: last.simps append_Nil if_True simp_thms)
  qed (use Nil in simp)
next
  case (Cons a as)
  then have "p \<noteq> last (a # as)" using last_in_set [of "a # as"] by auto
  with Cons show ?case by simp
qed

lemma pseudo_tail_chain: "chain ir p qs \<Longrightarrow> pseudo_tail ir p = Some (last (p # qs))"
  by (induction qs arbitrary: p) (simp_all add: pseudo_tail.simps)

lemma pseudo_pred_chain:
  "chain ir p (as @ q # bs) \<Longrightarrow> q \<notin> set as \<Longrightarrow> pseudo_pred ir q p = Some (last (p # as))"
  by (induction as arbitrary: p) (simp_all add: pseudo_pred.simps)

lemma pseudo_walk_chain:
  "chain ir p qs \<Longrightarrow> \<forall>q \<in> set qs. map_option Def (GetArg_Value (ir q) 0) = Some d \<Longrightarrow>
    pseudo_walk ir d (next_pseudo_inst (ir p)) = Some qs"
  by (induction qs arbitrary: p) (auto simp: pseudo_walk.simps)

lemma GetPseudoOperations_chain:
  "chain ir d qs \<Longrightarrow> \<forall>q \<in> set qs. map_option Def (GetArg_Value (ir q) 0) = Some d \<Longrightarrow>
    GetPseudoOperations ir d = Some qs"
  by (simp add: GetPseudoOperations_def pseudo_walk_chain)

section \<open>Attaching and releasing a use\<close>

definition bump :: "IR \<Rightarrow> InstPtr \<Rightarrow> u8 \<Rightarrow> IR" where
  "bump ir d n = ir(d := (ir d)\<lparr>num_use := num_use (ir d) + n\<rparr>)"

lemma bump_simps [simp]:
  "op_code (bump ir d n p) = op_code (ir p)" "arguments (bump ir d n p) = arguments (ir p)"
  "inst_id (bump ir d n p) = inst_id (ir p)" "ret_type (bump ir d n p) = ret_type (ir p)"
  "next_pseudo_inst (bump ir d n p) = next_pseudo_inst (ir p)"
  "num_use (bump ir d n p) = num_use (ir p) + (if p = d then n else 0)"
  by (simp_all add: bump_def)

lemma bump_bump [simp]: "bump (bump ir d m) d n = bump ir d (m + n)"
  by (simp add: bump_def add.assoc)

lemma bump_0 [simp]: "bump ir d 0 = ir"
  by (simp add: bump_def)

lemma chain_bump [simp]: "chain (bump ir d n) p qs = chain ir p qs"
  by (rule chain_cong) simp

lemma IsPseudo_bump [simp]: "IsPseudoOperation (bump ir d n p) = IsPseudoOperation (ir p)"
  by (simp add: IsPseudoOperation_def)

lemma Use_bump: "Use ir this v =
  (if IsPseudoOperation (ir this) then do {
     t \<leftarrow> pseudo_tail (bump ir (Def v) 1) (Def v);
     Some ((bump ir (Def v) 1)(t := (bump ir (Def v) 1 t)\<lparr>next_pseudo_inst := Some this\<rparr>)) }
   else Some (bump ir (Def v) 1))"
  unfolding Use_def Let_def bump_def [symmetric] by simp

lemma UnUse_bump: "UnUse ir this v =
  (let ir1 = bump ir (Def v) (- 1) in
   if IsPseudoOperation (ir this) then do {
     t \<leftarrow> pseudo_pred ir1 this (Def v);
     let ir2 = ir1(t := (ir1 t)\<lparr>next_pseudo_inst := next_pseudo_inst (ir this)\<rparr>);
     Some (ir2(this := (ir2 this)\<lparr>next_pseudo_inst := None\<rparr>)) }
   else Some ir1)"
proof -
  have b: "ir(Def v := (ir (Def v))\<lparr>num_use := num_use (ir (Def v)) - 1\<rparr>) = bump ir (Def v) (- 1)"
    by (simp add: bump_def)
  show ?thesis unfolding UnUse_def Let_def b by simp
qed

lemma Use_pseudo:
  assumes "IsPseudoOperation (ir this)" "chain ir (Def v) qs"
  shows "Use ir this v = Some ((bump ir (Def v) 1)(last (Def v # qs) :=
    (bump ir (Def v) 1 (last (Def v # qs)))\<lparr>next_pseudo_inst := Some this\<rparr>))"
proof -
  have "pseudo_tail (bump ir (Def v) 1) (Def v) = Some (last (Def v # qs))"
    using assms(2) by (intro pseudo_tail_chain) simp
  then show ?thesis using assms(1) by (simp add: Use_bump del: last.simps)
qed

lemma UnUse_pseudo:
  assumes "IsPseudoOperation (ir this)" "chain ir (Def v) (as @ this # bs)" "distinct (Def v # as @ this # bs)"
  shows "UnUse ir this v = Some ((bump ir (Def v) (- 1))(last (Def v # as) :=
    (bump ir (Def v) (- 1) (last (Def v # as)))\<lparr>next_pseudo_inst := next_pseudo_inst (ir this)\<rparr>,
    this := (ir this)\<lparr>next_pseudo_inst := None\<rparr>))"
proof -
  have p: "pseudo_pred (bump ir (Def v) (- 1)) this (Def v) = Some (last (Def v # as))"
    using assms(2,3) by (intro pseudo_pred_chain) simp_all
  have t: "this \<noteq> last (Def v # as)" "this \<noteq> Def v"
    using assms(3) last_in_set [of "Def v # as"] by (auto simp del: last.simps)
  then have "bump ir (Def v) (- 1) this = ir this" by (simp add: bump_def)
  then show ?thesis using assms(1) t by (simp add: UnUse_bump p Let_def del: last.simps)
qed

section \<open>Releasing all arguments\<close>

definition drop_uses :: "IR \<Rightarrow> Value list \<Rightarrow> IR" where
  "drop_uses ir vs p = (ir p)\<lparr>num_use := num_use (ir p) - of_nat (count_list (map Def vs) p)\<rparr>"

lemma unuse_all_plain: "\<not> IsPseudoOperation (ir this) \<Longrightarrow> unuse_all ir this vs = Some (drop_uses ir vs)"
proof (induction vs arbitrary: ir)
  case Nil
  show ?case by (auto simp: drop_uses_def)
next
  case (Cons v vs)
  have "drop_uses (bump ir (Def v) (- 1)) vs = drop_uses ir (v # vs)"
    by (rule ext) (auto simp: drop_uses_def bump_def)
  then show ?case using Cons by (simp add: UnUse_bump)
qed

definition blank :: "IR \<Rightarrow> InstPtr \<Rightarrow> nat list \<Rightarrow> IR" where
  "blank ir this ks = ir(this := (ir this)\<lparr>arguments := fold (\<lambda>k as. as[k := AVoid]) ks (arguments (ir this))\<rparr>)"

lemma blank_Cons: "blank (set_slot ir this k AVoid) this ks = blank ir this (k # ks)"
  by (simp add: blank_def set_slot_def)

lemma DestroyArgs_from_plain:
  assumes "\<not> IsPseudoOperation (ir this)" "distinct ks"
  shows "DestroyArgs_from ir this ks =
    Some (blank (drop_uses ir (concat (map (\<lambda>k. values_of_arg (ArgAt (ir this) k)) ks))) this ks)"
  using assms
proof (induction ks arbitrary: ir)
  case Nil
  show ?case by (simp add: blank_def drop_uses_def fun_eq_iff)
next
  case (Cons k ks)
  let ?ir = "set_slot (drop_uses ir (values_of_arg (ArgAt (ir this) k))) this k AVoid"
  have np: "\<not> IsPseudoOperation (?ir this)"
    using Cons.prems(1) by (simp add: set_slot_def drop_uses_def IsPseudoOperation_def)
  have a: "ArgAt (?ir this) k' = ArgAt (ir this) k'" if "k' \<in> set ks" for k'
    using that Cons.prems(2) by (cases "k = k'") (auto simp: set_slot_def drop_uses_def ArgAt_def)
  have "drop_uses ?ir vs = set_slot (drop_uses ir (values_of_arg (ArgAt (ir this) k) @ vs)) this k AVoid" for vs
    by (rule ext) (simp add: drop_uses_def set_slot_def)
  then show ?case
    using Cons.IH [of ?ir, OF np] Cons.prems a unuse_all_plain [of ir this]
    by (simp add: DestroyArg_def blank_Cons cong: map_cong)
qed

lemma DestroyArgs_from_blank:
  assumes "\<forall>k \<in> set ks. values_of_arg (ArgAt (ir this) k) = []"
  shows "DestroyArgs_from ir this ks = Some (blank ir this ks)"
  using assms
proof (induction ks arbitrary: ir)
  case Nil
  show ?case by (simp add: blank_def)
next
  case (Cons k ks)
  have "values_of_arg (ArgAt (set_slot ir this k AVoid this) k') = []" if "k' \<in> set ks" for k'
    using that Cons.prems by (cases "k' < length (arguments (ir this))"; cases "k' = k")
      (auto simp: set_slot_def ArgAt_def list_update_beyond)
  then show ?case using Cons by (simp add: DestroyArg_def blank_Cons)
qed

lemma values_of_slots: "wf_inst i \<Longrightarrow> concat (map (\<lambda>k. values_of_arg (ArgAt i k)) [0..<max_args]) = GetValues i"
proof -
  assume "wf_inst i"
  then have "map (\<lambda>k. values_of_arg (ArgAt i k)) [0..<max_args] = map values_of_arg (arguments i)"
    by (intro nth_equalityI) (simp_all add: wf_inst_def ArgAt_def)
  then show ?thesis by (simp add: GetValues_def)
qed

section \<open>Well-formed blocks\<close>

definition uses_of :: "Inst \<Rightarrow> InstPtr \<Rightarrow> nat" where
  "uses_of i d = count_list (map Def (GetValues i)) d"

definition pseudo_of :: "IR \<Rightarrow> InstPtr \<Rightarrow> InstPtr \<Rightarrow> bool" where
  "pseudo_of ir q d = (IsPseudoOperation (ir q) \<and> map_option Def (GetArg_Value (ir q) 0) = Some d)"

text \<open>A pseudo-operation names one value, its first argument, whose definition is a plain one.\<close>

definition pseudo_ok :: "IR \<Rightarrow> InstPtr \<Rightarrow> bool" where
  "pseudo_ok ir p =
     (\<not> IsPseudoOperation (ir p) \<or>
      (case ArgAt (ir p) 0 of
         AValue v \<Rightarrow> GetArg_Value (ir p) 0 = Some v \<and> \<not> IsPseudoOperation (ir (Def v)) \<and>
           (\<forall>k \<in> set [1..<max_args]. values_of_arg (ArgAt (ir p) k) = [])
       | _ \<Rightarrow> False))"

text \<open>
  The invariant of a block: instruction ids are distinct, every operand is defined in the block,
  the use count of a definition is the number of uses in the block plus those recorded
  elsewhere (the terminal), and the chain of a definition lists its pseudo-operations.
\<close>

definition block_ok :: "IR \<Rightarrow> InstPtr list \<Rightarrow> (InstPtr \<Rightarrow> nat) \<Rightarrow> bool" where
  "block_ok ir insts ext =
     (distinct insts \<and> inj_on (\<lambda>p. inst_id (ir p)) (set insts) \<and>
      (\<forall>p \<in> set insts. wf_inst (ir p) \<and> pseudo_ok ir p \<and> (\<forall>v \<in> set (GetValues (ir p)). Def v \<in> set insts)) \<and>
      (\<forall>d \<in> set insts. unat (num_use (ir d)) = (\<Sum>p\<leftarrow>insts. uses_of (ir p) d) + ext d) \<and>
      (\<forall>d \<in> set insts. \<not> IsPseudoOperation (ir d) \<longrightarrow>
        (\<exists>qs. chain ir d qs \<and> distinct qs \<and> set qs = {q \<in> set insts. pseudo_of ir q d})))"

definition released :: "IR \<Rightarrow> InstPtr \<Rightarrow> IR \<Rightarrow> bool" where
  "released ir d ir' =
     ((\<forall>p. num_use (ir' p) = num_use (ir p) - of_nat (uses_of (ir d) p)) \<and>
      (\<forall>p. op_code (ir' p) = op_code (ir p) \<and> inst_id (ir' p) = inst_id (ir p) \<and> ret_type (ir' p) = ret_type (ir p)) \<and>
      (\<forall>p. p \<noteq> d \<longrightarrow> arguments (ir' p) = arguments (ir p)))"

lemma pseudo_ok_iff:
  "pseudo_ok ir p \<longleftrightarrow> \<not> IsPseudoOperation (ir p) \<or>
    (\<exists>v. ArgAt (ir p) 0 = AValue v \<and> GetArg_Value (ir p) 0 = Some v \<and> \<not> IsPseudoOperation (ir (Def v)) \<and>
      (\<forall>k \<in> {1..<max_args}. values_of_arg (ArgAt (ir p) k) = []))"
  by (auto simp: pseudo_ok_def split: Arg.splits)

lemma GetValues_pseudo:
  assumes "wf_inst i" "ArgAt i 0 = AValue v" "\<forall>k \<in> {1..<max_args}. values_of_arg (ArgAt i k) = []"
  shows "GetValues i = [v]"
proof -
  have "[0..<max_args] = 0 # [1..<max_args]" by (simp add: max_args_def upt_conv_Cons)
  moreover have "concat (map (\<lambda>k. values_of_arg (ArgAt i k)) [Suc 0..<max_args]) = []" using assms(3) by simp
  ultimately show ?thesis using values_of_slots [OF assms(1)] assms(2) by (simp del: concat_eq_Nil_conv upt_Suc)
qed

lemma sum_list_zero_mem: "(\<Sum>p\<leftarrow>xs. f p) = (0::nat) \<Longrightarrow> p \<in> set xs \<Longrightarrow> f p = 0"
  by (induction xs) auto

lemma sum_list_remove: "d \<in> set xs \<Longrightarrow> (\<Sum>p\<leftarrow>xs. f p) = f d + (\<Sum>p\<leftarrow>remove1 d xs. f p :: nat)"
  by (induction xs) auto

lemma released_plain:
  assumes "wf_inst (ir d)" "\<not> IsPseudoOperation (ir d)"
  obtains ir' where "DestroyArgs ir d = Some ir'" "released ir d ir'"
    "\<And>p. next_pseudo_inst (ir' p) = next_pseudo_inst (ir p)"
proof -
  let ?ir = "blank (drop_uses ir (GetValues (ir d))) d [0..<max_args]"
  have "DestroyArgs ir d = Some ?ir"
    using DestroyArgs_from_plain [of ir d, OF assms(2), of "[0..<max_args]"]
    by (simp add: DestroyArgs_def values_of_slots [OF assms(1)])
  moreover have "released ir d ?ir"
    by (simp add: released_def blank_def drop_uses_def uses_of_def)
  moreover have "next_pseudo_inst (?ir p) = next_pseudo_inst (ir p)" for p
    by (simp add: blank_def drop_uses_def)
  ultimately show ?thesis using that by blast
qed

lemma released_pseudo:
  assumes w: "wf_inst (ir d)" and p: "IsPseudoOperation (ir d)" "ArgAt (ir d) 0 = AValue v"
      "\<forall>k \<in> {1..<max_args}. values_of_arg (ArgAt (ir d) k) = []"
    and c: "chain ir (Def v) (as @ d # bs)" "distinct (Def v # as @ d # bs)"
  obtains ir' where "DestroyArgs ir d = Some ir'" "released ir d ir'" "chain ir' (Def v) (as @ bs)"
    "\<And>p. p \<notin> set (Def v # as @ [d]) \<Longrightarrow> next_pseudo_inst (ir' p) = next_pseudo_inst (ir p)"
proof -
  let ?b = "bump ir (Def v) (- 1)"
  let ?u = "?b(last (Def v # as) := (?b (last (Def v # as)))\<lparr>next_pseudo_inst := next_pseudo_inst (?b d)\<rparr>,
    d := (?b d)\<lparr>next_pseudo_inst := None\<rparr>)"
  have neq: "d \<noteq> Def v" "d \<noteq> last (Def v # as)"
    using c(2) last_in_set [of "Def v # as"] by (auto simp del: last.simps)
  have "?b d = ir d" using neq by (simp add: bump_def)
  then have u: "UnUse ir d v = Some ?u" using UnUse_pseudo [OF p(1) c] by simp
  let ?ir = "blank ?u d [0..<max_args]"
  have args: "arguments (?u q) = arguments (ir q)" for q by simp
  have "DestroyArgs_from (set_slot ?u d 0 AVoid) d [1..<max_args] = Some (blank (set_slot ?u d 0 AVoid) d [1..<max_args])"
    using p(3) args [of d] by (intro DestroyArgs_from_blank) (auto simp: set_slot_def ArgAt_def)
  moreover have e: "[0..<max_args] = 0 # [1..<max_args]" by (simp add: max_args_def upt_conv_Cons)
  ultimately have 1: "DestroyArgs ir d = Some ?ir"
    unfolding DestroyArgs_def e using u p(2) by (simp add: DestroyArg_def blank_Cons)
  have "GetValues (ir d) = [v]" by (rule GetValues_pseudo [OF w p(2,3)])
  then have 2: "released ir d ?ir"
    by (auto simp: released_def blank_def uses_of_def)
  have n: "next_pseudo_inst (?ir q) = next_pseudo_inst (?u q)" for q by (simp add: blank_def)
  have "chain ?u (Def v) (as @ bs)" by (rule chain_remove) (use c in simp_all)
  then have 3: "chain ?ir (Def v) (as @ bs)" using chain_cong [of "Def v" "as @ bs" ?ir ?u] n by blast
  have 4: "next_pseudo_inst (?ir q) = next_pseudo_inst (ir q)" if "q \<notin> set (Def v # as @ [d])" for q
    using that n [of q] last_in_set [of "Def v # as"] by (auto simp del: last.simps)
  from 1 2 3 4 that show ?thesis by blast
qed

section \<open>Deleting an unused instruction\<close>

lemma block_okD:
  assumes "block_ok ir insts ext"
  shows "distinct insts" "inj_on (\<lambda>p. inst_id (ir p)) (set insts)"
    "p \<in> set insts \<Longrightarrow> wf_inst (ir p)" "p \<in> set insts \<Longrightarrow> pseudo_ok ir p"
    "p \<in> set insts \<Longrightarrow> v \<in> set (GetValues (ir p)) \<Longrightarrow> Def v \<in> set insts"
    "d \<in> set insts \<Longrightarrow> unat (num_use (ir d)) = (\<Sum>p\<leftarrow>insts. uses_of (ir p) d) + ext d"
  using assms unfolding block_ok_def by blast+

lemma block_ok_chain:
  assumes "block_ok ir insts ext" "d \<in> set insts" "\<not> IsPseudoOperation (ir d)"
  obtains qs where "chain ir d qs" "distinct (d # qs)" "set qs = {q \<in> set insts. pseudo_of ir q d}"
proof -
  have "\<exists>qs. chain ir d qs \<and> distinct qs \<and> set qs = {q \<in> set insts. pseudo_of ir q d}"
    using assms unfolding block_ok_def by blast
  then obtain qs where qs: "chain ir d qs" "distinct qs" "set qs = {q \<in> set insts. pseudo_of ir q d}"
    by blast
  moreover have "d \<notin> set qs" unfolding qs(3) using assms(3) by (simp add: pseudo_of_def)
  ultimately show ?thesis using that [of qs] by simp
qed

lemma unused_not_named:
  assumes "block_ok ir insts ext" "d \<in> set insts" "num_use (ir d) = 0" "p \<in> set insts"
    "v \<in> set (GetValues (ir p))"
  shows "Def v \<noteq> d"
proof
  assume "Def v = d"
  then have "uses_of (ir p) d \<noteq> 0" using assms(5) by (auto simp: uses_of_def count_list_0_iff)
  moreover have "(\<Sum>p\<leftarrow>insts. uses_of (ir p) d) = 0" using block_okD(6) [OF assms(1,2)] assms(3) by simp
  ultimately show False using sum_list_zero_mem [of "\<lambda>p. uses_of (ir p) d" insts p] assms(4) by simp
qed

lemma released_chains:
  assumes ok: "block_ok ir insts ext" and d: "d \<in> set insts"
  obtains ir' where "DestroyArgs ir d = Some ir'" "released ir d ir'"
    "\<And>x. x \<in> set insts \<Longrightarrow> x \<noteq> d \<Longrightarrow> \<not> IsPseudoOperation (ir x) \<Longrightarrow>
      \<exists>qs. chain ir' x qs \<and> distinct qs \<and> set qs = {q \<in> set insts - {d}. pseudo_of ir q x}"
proof (cases "IsPseudoOperation (ir d)")
  case False
  obtain ir' where ir': "DestroyArgs ir d = Some ir'" "released ir d ir'"
    "\<And>p. next_pseudo_inst (ir' p) = next_pseudo_inst (ir p)"
    using released_plain [of ir d, OF block_okD(3) [OF ok d] False] by metis
  have "\<exists>qs. chain ir' x qs \<and> distinct qs \<and> set qs = {q \<in> set insts - {d}. pseudo_of ir q x}"
    if x: "x \<in> set insts" "\<not> IsPseudoOperation (ir x)" for x
  proof -
    obtain qs where "chain ir x qs" "distinct (x # qs)" "set qs = {q \<in> set insts. pseudo_of ir q x}"
      by (rule block_ok_chain [OF ok x])
    moreover have "\<not> pseudo_of ir d x" using False by (simp add: pseudo_of_def)
    ultimately show ?thesis using chain_cong [of x qs ir' ir] ir'(3) by (intro exI [of _ qs]) auto
  qed
  with ir' that show ?thesis by blast
next
  case True
  obtain v where v: "ArgAt (ir d) 0 = AValue v" "GetArg_Value (ir d) 0 = Some v"
    "\<not> IsPseudoOperation (ir (Def v))" "\<forall>k \<in> {1..<max_args}. values_of_arg (ArgAt (ir d) k) = []"
    using block_okD(4) [OF ok d] True unfolding pseudo_ok_iff by blast
  note w = block_okD(3) [OF ok d]
  have vi: "Def v \<in> set insts"
    using block_okD(5) [OF ok d] GetValues_pseudo [OF w v(1,4)] by simp
  obtain qs where qs: "chain ir (Def v) qs" "distinct (Def v # qs)" "set qs = {q \<in> set insts. pseudo_of ir q (Def v)}"
    by (rule block_ok_chain [OF ok vi v(3)])
  have "d \<in> set qs" using d True v(2) qs(3) by (simp add: pseudo_of_def)
  then obtain as bs where split: "qs = as @ d # bs" by (meson split_list)
  obtain ir' where ir': "DestroyArgs ir d = Some ir'" "released ir d ir'" "chain ir' (Def v) (as @ bs)"
    "\<And>p. p \<notin> set (Def v # as @ [d]) \<Longrightarrow> next_pseudo_inst (ir' p) = next_pseudo_inst (ir p)"
    using released_pseudo [of ir d, OF w True v(1,4) qs(1,2) [unfolded split]] by metis
  have "\<exists>qs. chain ir' x qs \<and> distinct qs \<and> set qs = {q \<in> set insts - {d}. pseudo_of ir q x}"
    if x: "x \<in> set insts" "\<not> IsPseudoOperation (ir x)" for x
  proof (cases "x = Def v")
    case True
    have "distinct (as @ bs)" "set (as @ bs) = {q \<in> set insts - {d}. pseudo_of ir q (Def v)}"
      using qs(2,3) unfolding split by auto
    with True ir'(3) show ?thesis by blast
  next
    case False
    obtain rs where rs: "chain ir x rs" "distinct (x # rs)" "set rs = {q \<in> set insts. pseudo_of ir q x}"
      by (rule block_ok_chain [OF ok x])
    have "\<not> pseudo_of ir d x" using v(2) False by (simp add: pseudo_of_def)
    moreover have "q \<notin> set (Def v # as @ [d])" if "q \<in> set (x # rs)" for q
      using that False x(2) v(3) True rs(3) qs(3) [unfolded split] calculation by (auto simp: pseudo_of_def)
    ultimately show ?thesis
      using rs chain_cong [of x rs ir' ir] ir'(4) by (intro exI [of _ rs]) auto
  qed
  with ir' that show ?thesis by blast
qed

lemma unat_diff_of_nat: "c \<le> unat a \<Longrightarrow> unat (a - of_nat c :: u8) = unat a - c"
  using unsigned_less [of a, where 'a = nat] by (simp add: unat_sub_if_size word_size unat_of_nat)

lemma block_ok_delete:
  assumes ok: "block_ok ir insts ext" and d: "d \<in> set insts" and z: "num_use (ir d) = 0"
  obtains ir' where "DestroyArgs ir d = Some ir'" "released ir d ir'" "block_ok ir' (remove1 d insts) ext"
proof -
  obtain ir' where ir': "DestroyArgs ir d = Some ir'" and rel: "released ir d ir'"
    and ch: "\<And>x. x \<in> set insts \<Longrightarrow> x \<noteq> d \<Longrightarrow> \<not> IsPseudoOperation (ir x) \<Longrightarrow>
      \<exists>qs. chain ir' x qs \<and> distinct qs \<and> set qs = {q \<in> set insts - {d}. pseudo_of ir q x}"
    using released_chains [OF ok d] by metis
  note D = block_okD [OF ok]
  have set': "set (remove1 d insts) = set insts - {d}" using D(1) by simp
  have same: "GetValues (ir' p) = GetValues (ir p)" "wf_inst (ir' p) = wf_inst (ir p)"
    "ArgAt (ir' p) k = ArgAt (ir p) k" "GetArg_Value (ir' p) n = GetArg_Value (ir p) n" if "p \<noteq> d" for p k n
    using rel that by (simp_all add: released_def GetValues_def wf_inst_def ArgAt_def GetArg_Value_def PublicIndex_def)
  have ps: "IsPseudoOperation (ir' p) = IsPseudoOperation (ir p)" for p
    using rel by (simp add: released_def IsPseudoOperation_def)
  have "unat (num_use (ir' x)) = (\<Sum>p\<leftarrow>remove1 d insts. uses_of (ir' p) x) + ext x" if x: "x \<in> set insts" for x
  proof -
    have "(\<Sum>p\<leftarrow>remove1 d insts. uses_of (ir' p) x) = (\<Sum>p\<leftarrow>remove1 d insts. uses_of (ir p) x)"
      using set' same(1) by (intro arg_cong [where f = sum_list] map_cong) (auto simp: uses_of_def)
    moreover have "unat (num_use (ir x)) = uses_of (ir d) x + (\<Sum>p\<leftarrow>remove1 d insts. uses_of (ir p) x) + ext x"
      using D(6) [OF x] sum_list_remove [OF d] by simp
    ultimately show ?thesis using rel by (simp add: released_def unat_diff_of_nat)
  qed
  moreover have "pseudo_ok ir' p" if "p \<in> set insts - {d}" for p
    using D(4) [of p] that same ps by (simp add: pseudo_ok_iff)
  moreover have "Def v \<in> set insts - {d}" if "p \<in> set insts - {d}" "v \<in> set (GetValues (ir' p))" for p v
  proof -
    have "v \<in> set (GetValues (ir p))" using that same(1) by auto
    then show ?thesis using that D(5) unused_not_named [OF ok d z] by blast
  qed
  moreover have "{q \<in> set insts - {d}. pseudo_of ir' q x} = {q \<in> set insts - {d}. pseudo_of ir q x}" for x
    using same(4) ps by (auto simp: pseudo_of_def)
  moreover have "inj_on (\<lambda>p. inst_id (ir' p)) (set insts - {d})"
    using D(2) rel by (auto simp: released_def inj_on_def)
  ultimately have "block_ok ir' (remove1 d insts) ext"
    unfolding block_ok_def set' using D(1,3) same(2) ps ch by auto
  with ir' rel that show ?thesis by blast
qed

section \<open>Round trip of a use\<close>

text \<open>C13. Releasing a use right after attaching it restores the whole instruction store, the use
  count of the definition and its chain of pseudo-operations included.\<close>

theorem Use_then_UnUse:
  assumes "chain ir (Def v) qs" "distinct (Def v # qs)" "this \<notin> set (Def v # qs)"
    "next_pseudo_inst (ir this) = None"
  shows "Option.bind (Use ir this v) (\<lambda>ir'. UnUse ir' this v) = Some ir"
proof (cases "IsPseudoOperation (ir this)")
  case True
  let ?t = "last (Def v # qs)"
  let ?ir = "(bump ir (Def v) 1)(?t := (bump ir (Def v) 1 ?t)\<lparr>next_pseudo_inst := Some this\<rparr>)"
  have t: "?t \<noteq> this" using assms(3) last_in_set [of "Def v # qs"] by (auto simp del: last.simps)
  have c: "chain ?ir (Def v) (qs @ this # [])"
    using assms by (intro chain_snoc) simp_all
  have u: "UnUse ?ir this v = Some ((bump ?ir (Def v) (- 1))(?t :=
      (bump ?ir (Def v) (- 1) ?t)\<lparr>next_pseudo_inst := next_pseudo_inst (?ir this)\<rparr>,
      this := (?ir this)\<lparr>next_pseudo_inst := None\<rparr>))"
    using True t assms by (intro UnUse_pseudo [OF _ c]) (simp_all add: IsPseudoOperation_def)
  have n: "next_pseudo_inst (ir ?t) = None"
    by (rule chain_last [OF assms(1)])
  have "(bump ?ir (Def v) (- 1))(?t :=
      (bump ?ir (Def v) (- 1) ?t)\<lparr>next_pseudo_inst := next_pseudo_inst (?ir this)\<rparr>,
      this := (?ir this)\<lparr>next_pseudo_inst := None\<rparr>) = ir"
    by (rule ext) (use t n assms(3,4) in \<open>auto simp: bump_def simp del: last.simps\<close>)
  then show ?thesis
    unfolding Use_pseudo [OF True assms(1)] bind.bind_lunit u by (simp del: last.simps)
qed (simp add: Use_bump UnUse_bump)

theorem Use_then_UnUse_witness:
  "(let ir = (\<lambda>p. new_Inst (if p = 1 then Flag SaveFlags else Calc Sub)) in
    IsPseudoOperation (ir 1) \<and> Option.bind (Use ir 1 (Value 0 VOID)) (\<lambda>ir'. UnUse ir' 1 (Value 0 VOID)) = Some ir)"
  using Use_then_UnUse [of "\<lambda>p. new_Inst (if p = 1 then Flag SaveFlags else Calc Sub)" "Value 0 VOID" "[]" 1]
  by (simp add: new_Inst_def IsPseudoOperation_def)

end
