(* ===== verification/Interp_Laws.thy ===== *)
theory Interp_Laws
  imports Interp_Run IR_Uses
begin

text \<open>
  What one interpreter step may read and write.  Two value stacks that agree on the slots of an
  instruction's operands are taken by \<^const>\<open>RunInst\<close> to stacks that still agree and to the same
  machine state (\<open>RunInst_agree\<close>); an instruction the dead-code pass may delete leaves the machine
  state alone and writes only its own slots (\<open>RunInst_pure\<close>).  Every opcode of the dispatch table is
  covered.
\<close>

section \<open>Agreement of value stacks\<close>

text \<open>Two stacks agree on a set of instruction ids when both slots of each id agree.\<close>

definition agree :: "nat set \<Rightarrow> InterpStack \<Rightarrow> InterpStack \<Rightarrow> bool" where
  "agree A st1 st2 = (\<forall>k. k div 2 \<in> A \<longrightarrow> st1 k = st2 k)"

definition vid :: "IR \<Rightarrow> InstPtr \<Rightarrow> nat" where
  "vid ir d = unat (inst_id (ir d))"

text \<open>
  The definitions whose slots an instruction reads: those of its arguments and, for a flag
  capture, the arguments of the captured operation.
\<close>

definition captures_flags :: "OpCode \<Rightarrow> bool" where
  "captures_flags op = (op = Flag SaveFlags \<or> op = Flag BranchOnlyFlags)"

definition read_defs :: "IR \<Rightarrow> InstPtr \<Rightarrow> InstPtr set" where
  "read_defs ir i =
     Def ` set (GetValues (ir i)) \<union>
     (if captures_flags (op_code (ir i))
      then (\<Union>v \<in> set (GetValues (ir i)). Def ` set (GetValues (ir (Def v)))) else {})"

definition reads_agree :: "IR \<Rightarrow> InstPtr \<Rightarrow> nat set \<Rightarrow> InterpStack \<Rightarrow> InterpStack \<Rightarrow> bool" where
  "reads_agree ir i A st1 st2 =
     (agree A st1 st2 \<and> wf_inst (ir i) \<and> (\<forall>v \<in> set (GetValues (ir i)). vid ir (Def v) \<in> A))"

lemma agree_ReadScalar: "agree A st1 st2 \<Longrightarrow> vid ir (Def v) \<in> A \<Longrightarrow> ReadScalar ir st1 v = ReadScalar ir st2 v"
  by (simp add: agree_def ReadScalar_def slot_def kSlotStride_def vid_def)

lemma agree_ReadVec: "agree A st1 st2 \<Longrightarrow> vid ir (Def v) \<in> A \<Longrightarrow> ReadVec ir st1 v = ReadVec ir st2 v"
  by (simp add: agree_def ReadVec_def slot_def kSlotStride_def vid_def)

lemma agree_EvalDataClass:
  "agree A st1 st2 \<Longrightarrow> \<forall>v \<in> set (data_values d). vid ir (Def v) \<in> A \<Longrightarrow>
    EvalDataClass ir st1 d = EvalDataClass ir st2 d"
  by (cases d) (auto intro: agree_ReadScalar)

lemma agree_EvalOperand:
  assumes "agree A st1 st2" "\<forall>v \<in> set (data_values (operand_left p)). vid ir (Def v) \<in> A"
    "\<forall>v \<in> set (data_values (operand_right p)). vid ir (Def v) \<in> A"
  shows "EvalOperand ir st1 p = EvalOperand ir st2 p"
  unfolding EvalOperand_def
  using agree_EvalDataClass [OF assms(1,2)] agree_EvalDataClass [OF assms(1,3)]
  by (simp add: Let_def)

lemma reads_agreeD:
  assumes R: "reads_agree ir i A st1 st2"
  shows "GetArg_Value (ir i) n = Some v \<Longrightarrow> ReadScalar ir st1 v = ReadScalar ir st2 v"
    and "GetArg_Value (ir i) n = Some v \<Longrightarrow> ReadVec ir st1 v = ReadVec ir st2 v"
    and "GetArg_Operand (ir i) n = Some p \<Longrightarrow> EvalOperand ir st1 p = EvalOperand ir st2 p"
    and "GetArg_Lambda (ir i) n = Some l \<Longrightarrow> EvalLambda ir st1 l = EvalLambda ir st2 l"
    and "GetArg_Params (ir i) n = Some ps \<Longrightarrow>
      map (EvalDataClass ir st1) ps = map (EvalDataClass ir st2) ps"
    and "map (ReadVec ir st1) (GetValues (ir i)) = map (ReadVec ir st2) (GetValues (ir i))"
proof -
  have a: "agree A st1 st2" and w: "wf_inst (ir i)" and r: "\<And>v. v \<in> set (GetValues (ir i)) \<Longrightarrow> vid ir (Def v) \<in> A"
    using R by (auto simp: reads_agree_def)
  show "GetArg_Value (ir i) n = Some v \<Longrightarrow> ReadScalar ir st1 v = ReadScalar ir st2 v"
    "GetArg_Value (ir i) n = Some v \<Longrightarrow> ReadVec ir st1 v = ReadVec ir st2 v"
    using agree_ReadScalar [OF a r] agree_ReadVec [OF a r] GetArg_Value_mem [OF w] by blast+
  show "EvalOperand ir st1 p = EvalOperand ir st2 p" if "GetArg_Operand (ir i) n = Some p"
    using GetArg_Operand_mem [OF w that] r by (intro agree_EvalOperand [OF a]) auto
  show "EvalLambda ir st1 l = EvalLambda ir st2 l" if "GetArg_Lambda (ir i) n = Some l"
    using GetArg_Lambda_mem [OF w that] agree_ReadScalar [OF a r]
    by (auto simp: EvalLambda_def map_option_case split: option.splits)
  show "map (EvalDataClass ir st1) ps = map (EvalDataClass ir st2) ps"
    if "GetArg_Params (ir i) n = Some ps"
    using GetArg_Params_mem [OF w that] r by (intro map_cong refl agree_EvalDataClass [OF a]) auto
  show "map (ReadVec ir st1) (GetValues (ir i)) = map (ReadVec ir st2) (GetValues (ir i))"
    by (intro map_cong refl agree_ReadVec [OF a] r)
qed

lemma agree_WriteVec: "agree A st1 st2 \<Longrightarrow> agree A (WriteVec ir st1 i x) (WriteVec ir st2 i x)"
  by (auto simp: agree_def WriteVec_def)

lemma agree_write_value: "agree A st1 st2 \<Longrightarrow> agree A (write_value ir st1 i x) (write_value ir st2 i x)"
  by (auto simp: write_value_def Let_def intro: agree_WriteVec) (auto simp: agree_def)

lemma agree_WriteScalar:
  "agree A st1 st2 \<Longrightarrow> rel_option (agree A) (WriteScalar ir st1 i x) (WriteScalar ir st2 i x)"
  by (simp add: WriteScalar_total agree_write_value)

lemma rel_bind_same:
  "(\<And>x. m = Some x \<Longrightarrow> rel_option R (f x) (g x)) \<Longrightarrow> rel_option R (Option.bind m f) (Option.bind m g)"
  by (cases m) simp_all

lemma rel_bind:
  "rel_option S m m' \<Longrightarrow> (\<And>x y. S x y \<Longrightarrow> rel_option R (f x) (g y)) \<Longrightarrow>
    rel_option R (Option.bind m f) (Option.bind m' g)"
  by (cases m; cases m') simp_all

lemma reads_agree_agree: "reads_agree ir i A st1 st2 \<Longrightarrow> agree A st1 st2"
  by (simp add: reads_agree_def)

lemmas agree_run_intros = rel_bind_same agree_WriteScalar agree_WriteVec

lemma run_bit_agree:
  assumes R: "reads_agree ir i A st1 st2"
  shows "rel_option (agree A) (run_bit x ir i st1) (run_bit x ir i st2)"
  using reads_agree_agree [OF R]
  by (cases x) (auto simp: run_defs Let_def reads_agreeD [OF R] map_option_case
      intro!: agree_run_intros split: option.splits)

lemma agree_WritePairResult:
  "agree A st1 st2 \<Longrightarrow> rel_option (agree A) (WritePairResult ir st1 i r op) (WritePairResult ir st2 i r op)"
  by (auto simp: WritePairResult_def WriteScalar_total intro!: agree_run_intros agree_write_value split: list.splits)

lemma run_calc_agree:
  assumes R: "reads_agree ir i A st1 st2"
  shows "rel_option (agree A) (run_calc x env ir i st1 s) (run_calc x env ir i st2 s)"
  using reads_agree_agree [OF R]
  by (cases x) (auto simp: run_defs Let_def reads_agreeD [OF R] map_option_case
      intro!: agree_run_intros agree_WritePairResult split: option.splits)

lemma run_vec_agree:
  assumes R: "reads_agree ir i A st1 st2"
  shows "rel_option (agree A) (run_vec x ir i st1) (run_vec x ir i st2)"
  using reads_agree_agree [OF R]
  by (cases x) (auto simp: run_defs Let_def reads_agreeD [OF R] map_option_case
      intro!: agree_run_intros split: option.splits)

lemma run_shuf_agree:
  assumes R: "reads_agree ir i A st1 st2"
  shows "rel_option (agree A) (run_shuf x ir i st1) (run_shuf x ir i st2)"
  using reads_agree_agree [OF R]
  by (cases x) (auto simp: run_defs Let_def reads_agreeD [OF R] map_option_case
      intro!: agree_run_intros split: option.splits)

lemma run_crypto_agree:
  assumes R: "reads_agree ir i A st1 st2"
  shows "rel_option (agree A) (run_crypto x env ir i st1) (run_crypto x env ir i st2)"
  using reads_agree_agree [OF R]
  by (cases x) (auto simp: run_defs Let_def reads_agreeD [OF R] map_option_case
      intro!: agree_run_intros split: option.splits)

lemma run_float_agree:
  assumes R: "reads_agree ir i A st1 st2"
  shows "rel_option (agree A) (run_float x env ir i st1) (run_float x env ir i st2)"
  using reads_agree_agree [OF R]
  by (auto simp: run_float_def reads_agreeD [OF R] intro!: agree_run_intros)

definition step_agree :: "IR \<Rightarrow> InstPtr \<Rightarrow> nat set \<Rightarrow> InterpStack \<Rightarrow> InterpStack \<Rightarrow> bool" where
  "step_agree ir i A st1 st2 =
     (reads_agree ir i A st1 st2 \<and>
      (captures_flags (op_code (ir i)) \<longrightarrow>
        (\<forall>v \<in> set (GetValues (ir i)). reads_agree ir (Def v) A st1 st2)))"

abbreviation agree_pair :: "nat set \<Rightarrow> InterpStack \<times> State \<Rightarrow> InterpStack \<times> State \<Rightarrow> bool" where
  "agree_pair A \<equiv> rel_prod (agree A) (=)"

lemma rel_on_stack: "rel_option (agree A) r1 r2 \<Longrightarrow> rel_option (agree_pair A) (on_stack s r1) (on_stack s r2)"
  by (cases r1; cases r2) (simp_all add: on_stack_def)

lemma rel_on_state: "agree A st1 st2 \<Longrightarrow> r1 = r2 \<Longrightarrow> rel_option (agree_pair A) (on_state st1 r1) (on_state st2 r2)"
  by (cases r2) (simp_all add: on_state_def)

lemma SaveGuestFlags_agree:
  assumes R: "reads_agree ir d A st1 st2" and d: "vid ir d \<in> A"
  shows "SaveGuestFlags ir st1 d f fl = SaveGuestFlags ir st2 d f fl"
proof -
  have r: "ReadScalar ir st1 (Value d VOID) = ReadScalar ir st2 (Value d VOID)"
    using agree_ReadScalar [OF reads_agree_agree [OF R], of ir "Value d VOID"] d by simp
  have cv: "save_cv ir st1 d b res fl' = save_cv ir st2 d b res fl'" for b res fl'
    unfolding save_cv_def Let_def
    by (auto simp: reads_agreeD [OF R] intro!: Option.bind_cong)
  have af: "save_af ir st1 d res fl' = save_af ir st2 d res fl'" for res fl'
    unfolding save_af_def Let_def
    by (auto simp: reads_agreeD [OF R] intro!: Option.bind_cong)
  show ?thesis unfolding SaveGuestFlags_def r cv af ..
qed

lemma run_flag_agree:
  assumes S: "step_agree ir i A st1 st2" and op: "op_code (ir i) = Flag x"
  shows "rel_option (agree_pair A) (run_flag x ir i st1 s) (run_flag x ir i st2 s)"
proof -
  have R: "reads_agree ir i A st1 st2" using S by (simp add: step_agree_def)
  have F: "SaveGuestFlags ir st1 (Def v) f fl = SaveGuestFlags ir st2 (Def v) f fl"
    if "captures_flags (op_code (ir i))" "GetArg_Value (ir i) n = Some v" for n v f fl
  proof -
    have "v \<in> set (GetValues (ir i))" using R that(2) GetArg_Value_mem by (auto simp: reads_agree_def)
    then show ?thesis
      using S that(1) by (intro SaveGuestFlags_agree [of _ _ A]) (auto simp: step_agree_def reads_agree_def)
  qed
  have save: "RunSaveFlags ir i st1 s = RunSaveFlags ir i st2 s"
    "RunBranchOnlyFlags ir i st1 s = RunBranchOnlyFlags ir i st2 s"
    if "captures_flags (op_code (ir i))"
    using F that by (auto simp: run_defs intro!: Option.bind_cong)
  show ?thesis
    using reads_agree_agree [OF R] save op
    by (cases x) (auto simp: run_defs captures_flags_def Let_def reads_agreeD [OF R]
        intro!: agree_run_intros rel_on_stack rel_on_state Option.bind_cong)
qed

lemma rel_pair_write:
  "agree A st1 st2 \<Longrightarrow> rel_option (agree_pair A)
     (Option.bind (WriteScalar ir st1 i x) (\<lambda>st. Some (st, s)))
     (Option.bind (WriteScalar ir st2 i x) (\<lambda>st. Some (st, s)))"
  by (simp add: WriteScalar_total agree_write_value)

lemma lambda_call_arg_agree:
  assumes "reads_agree ir i A st1 st2" "lambda_call_arg (ir i) k = Some ps"
  shows "map (EvalDataClass ir st1) ps = map (EvalDataClass ir st2) ps"
  using assms(2) reads_agreeD [OF assms(1)]
  by (auto simp: lambda_call_arg_def split: Arg.splits)

lemma run_help_agree:
  assumes R: "reads_agree ir i A st1 st2"
  shows "rel_option (agree_pair A) (run_help x env ir i st1 s) (run_help x env ir i st2 s)"
  using reads_agree_agree [OF R]
  by (cases x) (auto simp: run_defs Let_def reads_agreeD [OF R] lambda_call_arg_agree [OF R]
      intro!: agree_run_intros rel_on_stack rel_on_state rel_pair_write Option.bind_cong split: prod.splits)

lemma run_mem_agree:
  assumes R: "reads_agree ir i A st1 st2"
  shows "rel_option (agree_pair A) (run_mem x env ir i st1 s) (run_mem x env ir i st2 s)"
  using reads_agree_agree [OF R]
  by (cases x) (auto simp: run_defs Let_def reads_agreeD [OF R]
      intro!: agree_run_intros rel_on_stack rel_on_state rel_pair_write Option.bind_cong split: prod.splits)

lemma RunInst_agree:
  assumes S: "step_agree ir i A st1 st2"
  shows "rel_option (agree_pair A) (RunInst env ir i st1 s) (RunInst env ir i st2 s)"
proof -
  have R: "reads_agree ir i A st1 st2" using S by (simp add: step_agree_def)
  show ?thesis
  proof (cases "op_code (ir i)")
    case Void_op
    then show ?thesis by (simp add: RunInst_def reads_agree_agree [OF R])
  qed (simp_all add: RunInst_def rel_on_stack run_mem_agree [OF R] run_help_agree [OF R]
      run_calc_agree [OF R] run_flag_agree [OF S] run_bit_agree [OF R] run_vec_agree [OF R]
      run_shuf_agree [OF R] run_crypto_agree [OF R] run_float_agree [OF R])
qed

section \<open>What a removable instruction writes\<close>

definition framed :: "nat set \<Rightarrow> InterpStack \<Rightarrow> InterpStack option \<Rightarrow> bool" where
  "framed W st r = (\<forall>st'. r = Some st' \<longrightarrow> agree (- W) st st')"

definition own_ids :: "IR \<Rightarrow> InstPtr \<Rightarrow> nat set" where
  "own_ids ir i = insert (vid ir i)
     {vid ir q |q qs. GetPseudoOperations ir i = Some qs \<and> q \<in> set qs \<and>
        (op_code (ir i), op_code (ir q)) \<in> {(Calc Div128, Calc Div128Remainder), (Calc Cpuid, Calc CpuidUpper)}}"

lemma framed_Some: "framed W st (Some st') = agree (- W) st st'"
  by (simp add: framed_def)

lemma framed_None: "framed W st None"
  by (simp add: framed_def)

lemma framed_bind: "(\<And>x. m = Some x \<Longrightarrow> framed W st (f x)) \<Longrightarrow> framed W st (Option.bind m f)"
  by (cases m) (simp_all add: framed_None)

lemma agree_refl [simp]: "agree A st st"
  by (simp add: agree_def)

lemma agree_trans: "agree A a b \<Longrightarrow> agree A b c \<Longrightarrow> agree A a c"
  by (simp add: agree_def)

lemma agree_sym: "agree A a b \<Longrightarrow> agree A b a"
  by (simp add: agree_def)

lemma agree_mono: "agree A a b \<Longrightarrow> B \<subseteq> A \<Longrightarrow> agree B a b"
  by (auto simp: agree_def)

lemma agree_frame_value: "vid ir i \<in> W \<Longrightarrow> agree (- W) st (write_value ir st i x)"
  by (auto simp: agree_def vid_def intro!: write_value_frame [symmetric])

lemma framed_WriteScalar: "vid ir i \<in> W \<Longrightarrow> framed W st (WriteScalar ir st i x)"
  by (simp add: WriteScalar_total framed_Some agree_frame_value)

lemma framed_WriteVec: "vid ir i \<in> W \<Longrightarrow> framed W st (Some (WriteVec ir st i x))"
  by (auto simp: framed_Some agree_def vid_def intro!: WriteVec_frame [symmetric])

lemmas framed_intros = framed_bind framed_WriteScalar framed_WriteVec framed_None

lemma framed_WritePair:
  assumes "(op_code (ir i), op) \<in> {(Calc Div128, Calc Div128Remainder), (Calc Cpuid, Calc CpuidUpper)}"
  shows "framed (own_ids ir i) st (WritePairResult ir st i r op)"
proof -
  have "agree (- own_ids ir i) st (write_value ir (write_value ir st i x) q y)"
    if "GetPseudoOperations_op ir i op = Some qs" "q \<in> set qs" for q qs x y
  proof (rule agree_trans [of _ st "write_value ir st i x"])
    show "agree (- own_ids ir i) st (write_value ir st i x)"
      by (rule agree_frame_value) (simp add: own_ids_def)
    show "agree (- own_ids ir i) (write_value ir st i x) (write_value ir (write_value ir st i x) q y)"
      using that assms by (intro agree_frame_value) (auto simp: own_ids_def GetPseudoOperations_op_def)
  qed
  then show ?thesis
    by (auto simp: WritePairResult_def WriteScalar_total framed_Some intro!: framed_bind agree_frame_value
        split: list.splits) (simp add: own_ids_def)
qed

lemma own_ids_self [simp]: "vid ir i \<in> own_ids ir i"
  by (simp add: own_ids_def)

lemma run_bit_framed: "framed (own_ids ir i) st (run_bit x ir i st)"
  by (cases x) (auto simp: run_defs Let_def map_option_case intro!: framed_intros split: option.splits)

lemma run_calc_framed:
  "op_code (ir i) = Calc x \<Longrightarrow> framed (own_ids ir i) st (run_calc x env ir i st s)"
  by (cases x) (auto simp: run_defs Let_def map_option_case framed_Some
      intro!: framed_intros framed_WritePair split: option.splits)

lemma run_vec_framed: "framed (own_ids ir i) st (run_vec x ir i st)"
  by (cases x) (auto simp: run_defs Let_def map_option_case intro!: framed_intros split: option.splits)

lemma run_shuf_framed: "framed (own_ids ir i) st (run_shuf x ir i st)"
  by (cases x) (auto simp: run_defs Let_def map_option_case intro!: framed_intros split: option.splits)

lemma run_crypto_framed: "framed (own_ids ir i) st (run_crypto x env ir i st)"
  by (cases x) (auto simp: run_defs Let_def map_option_case intro!: framed_intros split: option.splits)

lemma run_float_framed: "framed (own_ids ir i) st (run_float x env ir i st)"
  by (auto simp: run_float_def intro!: framed_intros)

definition pure_step :: "nat set \<Rightarrow> InterpStack \<Rightarrow> State \<Rightarrow> (InterpStack \<times> State) option \<Rightarrow> bool" where
  "pure_step W st s r = (\<forall>st' s'. r = Some (st', s') \<longrightarrow> s' = s \<and> agree (- W) st st')"

lemma pure_on_stack: "framed W st r \<Longrightarrow> pure_step W st s (on_stack s r)"
  by (auto simp: framed_def pure_step_def on_stack_def)

lemma pure_same: "pure_step W st s (Some (st, s))"
  by (simp add: pure_step_def)

lemma run_flag_pure:
  "return_type (Flag x) \<noteq> ArgVoid \<Longrightarrow> pure_step (own_ids ir i) st s (run_flag x ir i st s)"
  by (cases x) (auto simp: run_defs Let_def intro!: pure_on_stack pure_same framed_intros)

lemma run_help_pure:
  "return_type (Help x) \<noteq> ArgVoid \<Longrightarrow> \<not> always_kept_op (Help x) \<Longrightarrow>
    pure_step (own_ids ir i) st s (run_help x env ir i st s)"
  by (cases x) (auto simp: run_defs always_kept_op_def Let_def intro!: pure_on_stack pure_same framed_intros)

lemma run_mem_pure:
  "return_type (Mem x) \<noteq> ArgVoid \<Longrightarrow> \<not> always_kept_op (Mem x) \<Longrightarrow> x \<noteq> LoadMemory \<Longrightarrow> x \<noteq> LoadMemoryTSO \<Longrightarrow>
    pure_step (own_ids ir i) st s (run_mem x env ir i st s)"
  by (cases x) (auto simp: run_defs always_kept_op_def Let_def intro!: pure_on_stack pure_same framed_intros)

lemma RunInst_pure:
  assumes "\<not> HasSideEffects (ir i)" "op_code (ir i) \<noteq> Mem LoadMemory" "op_code (ir i) \<noteq> Mem LoadMemoryTSO"
  shows "pure_step (own_ids ir i) st s (RunInst env ir i st s)"
proof (cases "op_code (ir i)")
  case Void_op
  then show ?thesis by (simp add: RunInst_def pure_same)
next
  case (Calc x)
  then show ?thesis by (simp add: RunInst_def pure_on_stack run_calc_framed)
qed (use assms in \<open>auto simp: HasSideEffects_def RunInst_def run_bit_framed run_vec_framed run_shuf_framed
    run_crypto_framed run_float_framed run_flag_pure run_help_pure run_mem_pure
    intro!: pure_on_stack split: if_splits\<close>)

end
