(* ===== verification/Interp_Code.thy ===== *)
theory Interp_Code
  imports Interp_Laws
begin

text \<open>
  What one interpreter step reads of the instruction store: nothing but the code of the
  instruction and of the definitions it names (\<open>RunInst_code\<close>).  The passes change use counts and
  pseudo-operation links of the instructions they keep; this is what makes that harmless.
\<close>

section \<open>What a step reads of the instruction store\<close>

text \<open>
  Two stores hold the same code at an instruction when they differ there at most in its use
  count and in its pseudo-operation link.  A step depends only on the code of the instruction
  and of the definitions it reads; the paired results of a wide division and of the cpuid
  helper, which go through the link, are the exception.
\<close>

definition same_code :: "IR \<Rightarrow> IR \<Rightarrow> InstPtr \<Rightarrow> bool" where
  "same_code ir ir' p =
     (op_code (ir' p) = op_code (ir p) \<and> arguments (ir' p) = arguments (ir p) \<and>
      inst_id (ir' p) = inst_id (ir p) \<and> ret_type (ir' p) = ret_type (ir p))"

definition code_agree :: "IR \<Rightarrow> IR \<Rightarrow> InstPtr \<Rightarrow> bool" where
  "code_agree ir ir' i =
     (wf_inst (ir i) \<and> same_code ir ir' i \<and> (\<forall>v \<in> set (GetValues (ir i)). same_code ir ir' (Def v)))"

definition pair_op :: "OpCode \<Rightarrow> bool" where
  "pair_op op = (op = Calc Div128 \<or> op = Calc Cpuid)"

lemma GetArg_same:
  assumes "op_code a = op_code b" "arguments a = arguments b"
  shows "GetArg_Value a n = GetArg_Value b n" "GetArg_Imm a n = GetArg_Imm b n"
    "GetArg_Cond a n = GetArg_Cond b n" "GetArg_Flags a n = GetArg_Flags b n"
    "GetArg_Local a n = GetArg_Local b n" "GetArg_Uniform a n = GetArg_Uniform b n"
    "GetArg_Lambda a n = GetArg_Lambda b n" "GetArg_Params a n = GetArg_Params b n"
    "GetArg_Operand a n = GetArg_Operand b n" "ArgAt a k = ArgAt b k" "GetValues a = GetValues b"
    "PublicIndex a n = PublicIndex b n" "imms_of a = imms_of b"
  using assms by (simp_all add: GetArg_defs PublicIndex_def ArgAt_def GetValues_def imms_of_def)

lemma lambda_call_arg_same:
  "op_code a = op_code b \<Longrightarrow> arguments a = arguments b \<Longrightarrow> lambda_call_arg a n = lambda_call_arg b n"
  by (simp add: lambda_call_arg_def GetArg_same [of a b] cong: Arg.case_cong)

lemma code_agreeD:
  assumes "code_agree ir ir' i"
  shows "op_code (ir' i) = op_code (ir i)" "ret_type (ir' i) = ret_type (ir i)"
    "arguments (ir' i) = arguments (ir i)" "inst_id (ir' i) = inst_id (ir i)"
  using assms by (simp_all add: code_agree_def same_code_def)

lemma same_code_write:
  assumes "same_code ir ir' i"
  shows "WriteScalar ir' st i x = WriteScalar ir st i x" "WriteVec ir' st i y = WriteVec ir st i y"
    "write_value ir' st i x = write_value ir st i x"
  using assms by (simp_all add: same_code_def WriteScalar_def WriteVec_def slot_def write_value_def Let_def)

lemma same_code_read:
  assumes "same_code ir ir' (Def v)"
  shows "ReadScalar ir' st v = ReadScalar ir st v" "ReadVec ir' st v = ReadVec ir st v"
    "Value_Type ir' v = Value_Type ir v" "ReadScalarBits ir' st v = ReadScalarBits ir st v"
  using assms
  by (simp_all add: same_code_def ReadScalar_def ReadVec_def slot_def Value_Type_def ReadScalarBits_def)

lemma same_code_data:
  "\<forall>v \<in> set (data_values d). same_code ir ir' (Def v) \<Longrightarrow> EvalDataClass ir' st d = EvalDataClass ir st d"
  by (cases d) (simp_all add: same_code_read)

lemma code_agree_reads:
  assumes C: "code_agree ir ir' i"
  shows "GetArg_Value (ir i) n = Some v \<Longrightarrow> ReadScalar ir' st v = ReadScalar ir st v"
    and "GetArg_Value (ir i) n = Some v \<Longrightarrow> ReadVec ir' st v = ReadVec ir st v"
    and "GetArg_Value (ir i) n = Some v \<Longrightarrow> Value_Type ir' v = Value_Type ir v"
    and "GetArg_Value (ir i) n = Some v \<Longrightarrow> ReadScalarBits ir' st v = ReadScalarBits ir st v"
    and "GetArg_Operand (ir i) n = Some p \<Longrightarrow> EvalOperand ir' st p = EvalOperand ir st p"
    and "GetArg_Lambda (ir i) n = Some l \<Longrightarrow> EvalLambda ir' st l = EvalLambda ir st l"
    and "GetArg_Params (ir i) n = Some ps \<Longrightarrow> map (EvalDataClass ir' st) ps = map (EvalDataClass ir st) ps"
    and "lambda_call_arg (ir i) n = Some ps \<Longrightarrow> map (EvalDataClass ir' st) ps = map (EvalDataClass ir st) ps"
    and "map (ReadVec ir' st) (GetValues (ir i)) = map (ReadVec ir st) (GetValues (ir i))"
proof -
  have w: "wf_inst (ir i)" and r: "\<And>v. v \<in> set (GetValues (ir i)) \<Longrightarrow> same_code ir ir' (Def v)"
    using C by (auto simp: code_agree_def)
  show V: "GetArg_Value (ir i) n = Some v \<Longrightarrow> ReadScalar ir' st v = ReadScalar ir st v"
    "GetArg_Value (ir i) n = Some v \<Longrightarrow> ReadVec ir' st v = ReadVec ir st v"
    "GetArg_Value (ir i) n = Some v \<Longrightarrow> Value_Type ir' v = Value_Type ir v"
    "GetArg_Value (ir i) n = Some v \<Longrightarrow> ReadScalarBits ir' st v = ReadScalarBits ir st v"
    for n v using same_code_read [OF r] GetArg_Value_mem [OF w] by blast+
  show "EvalOperand ir' st p = EvalOperand ir st p" if "GetArg_Operand (ir i) n = Some p"
  proof -
    have "EvalDataClass ir' st (operand_left p) = EvalDataClass ir st (operand_left p)"
      "EvalDataClass ir' st (operand_right p) = EvalDataClass ir st (operand_right p)"
      using GetArg_Operand_mem [OF w that] r by (intro same_code_data; auto)+
    moreover have "(case operand_left p of DValue v \<Rightarrow> Value_Type ir' v | _ \<Rightarrow> U64) =
        (case operand_left p of DValue v \<Rightarrow> Value_Type ir v | _ \<Rightarrow> U64)"
      using GetArg_Operand_mem(1) [OF w that] r by (cases "operand_left p") (auto simp: same_code_read)
    ultimately show ?thesis by (simp add: EvalOperand_def Let_def cong: OperandOpType.case_cong)
  qed
  show "EvalLambda ir' st l = EvalLambda ir st l" if "GetArg_Lambda (ir i) n = Some l"
    using GetArg_Lambda_mem [OF w that] same_code_read(1) [OF r]
    by (auto simp: EvalLambda_def map_option_case split: option.splits)
  show "map (EvalDataClass ir' st) ps = map (EvalDataClass ir st) ps"
    if "GetArg_Params (ir i) n = Some ps"
    using GetArg_Params_mem [OF w that] r by (intro map_cong refl same_code_data) auto
  show "map (EvalDataClass ir' st) ps = map (EvalDataClass ir st) ps"
    if "lambda_call_arg (ir i) n = Some ps"
    using that V(1) by (auto simp: lambda_call_arg_def split: Arg.splits)
  show "map (ReadVec ir' st) (GetValues (ir i)) = map (ReadVec ir st) (GetValues (ir i))"
    by (intro map_cong refl same_code_read(2) r)
qed

lemma code_agree_args:
  assumes "code_agree ir ir' i"
  shows "GetArg_Value (ir' i) n = GetArg_Value (ir i) n" "GetArg_Imm (ir' i) n = GetArg_Imm (ir i) n"
    "GetArg_Cond (ir' i) n = GetArg_Cond (ir i) n" "GetArg_Flags (ir' i) n = GetArg_Flags (ir i) n"
    "GetArg_Local (ir' i) n = GetArg_Local (ir i) n" "GetArg_Uniform (ir' i) n = GetArg_Uniform (ir i) n"
    "GetArg_Lambda (ir' i) n = GetArg_Lambda (ir i) n" "GetArg_Params (ir' i) n = GetArg_Params (ir i) n"
    "GetArg_Operand (ir' i) n = GetArg_Operand (ir i) n" "GetValues (ir' i) = GetValues (ir i)"
    "imms_of (ir' i) = imms_of (ir i)" "ArgAt (ir' i) n = ArgAt (ir i) n" "lambda_call_arg (ir' i) n = lambda_call_arg (ir i) n"
  by (rule GetArg_same lambda_call_arg_same, rule code_agreeD [OF assms], rule code_agreeD [OF assms])+

lemma code_agree_imms:
  assumes "code_agree ir ir' i"
  shows "imm_u32 ir' i n = imm_u32 ir i n" "imm_flag ir' i n = imm_flag ir i n"
  by (simp_all add: imm_u32_def imm_flag_def code_agree_args [OF assms])

lemmas code_simps = code_agree_args code_agree_imms code_agreeD(1,2) code_agree_reads

lemma code_agree_self: "code_agree ir ir' i \<Longrightarrow> same_code ir ir' i"
  by (simp add: code_agree_def)

lemma on_cong: "r = r' \<Longrightarrow> on_stack s r = on_stack s r'" "q = q' \<Longrightarrow> on_state st q = on_state st q'"
  by simp_all

lemma run_bit_code:
  assumes C: "code_agree ir ir' i"
  shows "run_bit x ir' i st = run_bit x ir i st"
  by (cases x) (auto simp: run_defs Let_def code_simps [OF C] same_code_write [OF code_agree_self [OF C]]
      map_option_case intro!: Option.bind_cong on_cong split: option.splits prod.splits)

lemma run_vec_code:
  assumes C: "code_agree ir ir' i"
  shows "run_vec x ir' i st = run_vec x ir i st"
  by (cases x) (auto simp: run_defs Let_def code_simps [OF C] same_code_write [OF code_agree_self [OF C]]
      map_option_case intro!: Option.bind_cong on_cong split: option.splits prod.splits)

lemma run_shuf_code:
  assumes C: "code_agree ir ir' i"
  shows "run_shuf x ir' i st = run_shuf x ir i st"
  by (cases x) (auto simp: run_defs Let_def code_simps [OF C] same_code_write [OF code_agree_self [OF C]]
      map_option_case intro!: Option.bind_cong on_cong split: option.splits prod.splits)

lemma run_crypto_code:
  assumes C: "code_agree ir ir' i"
  shows "run_crypto x env ir' i st = run_crypto x env ir i st"
  by (cases x) (auto simp: run_defs Let_def code_simps [OF C] same_code_write [OF code_agree_self [OF C]]
      map_option_case intro!: Option.bind_cong on_cong split: option.splits prod.splits)

lemma run_float_code:
  assumes C: "code_agree ir ir' i"
  shows "run_float x env ir' i st = run_float x env ir i st"
  by (auto simp: run_float_def code_simps [OF C] same_code_write [OF code_agree_self [OF C]]
      map_option_case intro!: Option.bind_cong on_cong split: option.splits prod.splits)

lemma run_mem_code:
  assumes C: "code_agree ir ir' i"
  shows "run_mem x env ir' i st s = run_mem x env ir i st s"
  by (cases x) (auto simp: run_defs Let_def code_simps [OF C] same_code_write [OF code_agree_self [OF C]]
      map_option_case intro!: Option.bind_cong on_cong split: option.splits prod.splits)

lemma run_help_code:
  assumes C: "code_agree ir ir' i"
  shows "run_help x env ir' i st s = run_help x env ir i st s"
  by (cases x) (auto simp: run_defs Let_def code_simps [OF C] same_code_write [OF code_agree_self [OF C]]
      map_option_case intro!: Option.bind_cong on_cong split: option.splits prod.splits)

lemma run_calc_code:
  assumes C: "code_agree ir ir' i" and x: "\<not> pair_op (Calc x)"
  shows "run_calc x env ir' i st s = run_calc x env ir i st s"
  using x
  by (cases x) (auto simp: run_defs Let_def code_simps [OF C] same_code_write [OF code_agree_self [OF C]]
      map_option_case pair_op_def intro!: Option.bind_cong on_cong split: option.splits)

definition step_code :: "IR \<Rightarrow> IR \<Rightarrow> InstPtr \<Rightarrow> bool" where
  "step_code ir ir' i =
     (code_agree ir ir' i \<and>
      (captures_flags (op_code (ir i)) \<longrightarrow> (\<forall>v \<in> set (GetValues (ir i)). code_agree ir ir' (Def v))))"

lemma SaveGuestFlags_code:
  assumes C: "code_agree ir ir' d"
  shows "SaveGuestFlags ir' st d f fl = SaveGuestFlags ir st d f fl"
proof -
  have r: "ReadScalar ir' st (Value d VOID) = ReadScalar ir st (Value d VOID)"
    using C by (intro same_code_read) (simp add: code_agree_def)
  have cv: "save_cv ir' st d b res fl' = save_cv ir st d b res fl'" for b res fl'
    unfolding save_cv_def Let_def code_simps [OF C]
    by (auto simp: code_simps [OF C] intro!: Option.bind_cong on_cong)
  have af: "save_af ir' st d res fl' = save_af ir st d res fl'" for res fl'
    unfolding save_af_def Let_def code_simps [OF C]
    by (auto simp: code_simps [OF C] intro!: Option.bind_cong on_cong)
  show ?thesis unfolding SaveGuestFlags_def r cv af code_simps [OF C] ..
qed

lemma run_flag_code:
  assumes S: "step_code ir ir' i" and op: "op_code (ir i) = Flag x"
  shows "run_flag x ir' i st s = run_flag x ir i st s"
proof -
  have C: "code_agree ir ir' i" using S by (simp add: step_code_def)
  have F: "SaveGuestFlags ir' st (Def v) f fl = SaveGuestFlags ir st (Def v) f fl"
    if "captures_flags (op_code (ir i))" "GetArg_Value (ir i) n = Some v" for n v f fl
    using S C that GetArg_Value_mem [of "ir i"]
    by (intro SaveGuestFlags_code) (auto simp: step_code_def code_agree_def)
  have save: "RunSaveFlags ir' i st s = RunSaveFlags ir i st s"
    "RunBranchOnlyFlags ir' i st s = RunBranchOnlyFlags ir i st s"
    if "captures_flags (op_code (ir i))"
    using F that by (auto simp: run_defs code_simps [OF C] intro!: Option.bind_cong on_cong)
  show ?thesis
    using save op
    by (cases x) (auto simp: run_defs captures_flags_def Let_def code_simps [OF C]
        same_code_write [OF code_agree_self [OF C]] intro!: Option.bind_cong on_cong)
qed

lemma RunInst_code:
  assumes S: "step_code ir ir' i" and np: "\<not> pair_op (op_code (ir i))"
  shows "RunInst env ir' i st s = RunInst env ir i st s"
proof -
  have C: "code_agree ir ir' i" using S by (simp add: step_code_def)
  show ?thesis
    unfolding RunInst_def code_agreeD(1) [OF C]
    using np by (cases "op_code (ir i)") (simp_all add: run_mem_code [OF C] run_help_code [OF C]
      run_calc_code [OF C] run_flag_code [OF S] run_bit_code [OF C] run_vec_code [OF C]
      run_shuf_code [OF C] run_crypto_code [OF C] run_float_code [OF C])
qed

end
