(* ===== verification/Samples.thy ===== *)
theory Samples
  imports Interp_Laws
begin

text \<open>
  Concrete programs, states and host parameters on which the properties are instantiated.
\<close>

definition sample_inst :: "OpCode \<Rightarrow> ValueType \<Rightarrow> u16 \<Rightarrow> Arg list \<Rightarrow> Inst" where
  "sample_inst op t n args =
     (new_Inst op)\<lparr>arguments := take max_args (args @ replicate max_args AVoid), inst_id := n, ret_type := t\<rparr>"

definition sample_ir :: "Inst list \<Rightarrow> IR" where
  "sample_ir is k = (if k < length is then is ! k else new_Inst Void_op)"

definition sample_stack :: "u64 list \<Rightarrow> InterpStack" where
  "sample_stack xs k = (if k < length xs then xs ! k else 0)"

text \<open>A host whose helpers return zero and leave the state alone, without SHA instructions.\<close>

definition sample_env :: HostEnv where
  "sample_env = \<lparr>host_fn = \<lambda>f args s. (0, s), x87_dispatch = \<lambda>a b c s. (0, s),
     sse42str_eval = \<lambda>a b c d e. 0, cpuid_fn = \<lambda>a b c d. (0, 0), neon_sha = None,
     float_fn = \<lambda>op t vs ns. None\<rparr>"

definition sample_state :: State where
  "sample_state = \<lparr>halt_reason = HaltNone, current_loc = 0x1000, prev_loc = 0, pt = 0,
     local_buffer = 0x9000, host_cpu_flags = 0, guest_addr_limit = 0, guest_addr_mask = 0,
     interp_range_check = None, uniform_buffer_begin = 0x8000, mem = (\<lambda>_. 0)\<rparr>"

abbreviation val :: "InstPtr \<Rightarrow> Value" where "val d \<equiv> Value d VOID"

abbreviation reg_operand :: "InstPtr \<Rightarrow> Arg list" where
  "reg_operand d \<equiv> [AOperandOp \<lparr>op_type = OpNone, shift_ext = 0\<rparr>, AValue (val d), AVoid]"

abbreviation imm_operand :: "Imm \<Rightarrow> Arg list" where
  "imm_operand m \<equiv> [AOperandOp \<lparr>op_type = OpNone, shift_ext = 0\<rparr>, AImm m, AVoid]"

definition imm32 :: "u64 \<Rightarrow> Imm" where "imm32 x = \<lparr>imm_type = U32, imm_u64 = x\<rparr>"

definition imm64 :: "u64 \<Rightarrow> Imm" where "imm64 x = \<lparr>imm_type = U64, imm_u64 = x\<rparr>"

definition all_nzcv :: u64 where
  "all_nzcv = Flags_Negate OR Flags_Zero OR Flags_Carry OR Flags_Overflow"

text \<open>Two immediates, an operation on them and the capture of its flags.\<close>

definition sample_alu :: "CalcOp \<Rightarrow> u64 \<Rightarrow> IR" where
  "sample_alu op f = sample_ir [
     sample_inst (Help LoadImm) U32 0 [AImm (imm32 0xFFFFFFFD)],
     sample_inst (Help LoadImm) U32 1 [AImm (imm32 7)],
     sample_inst (Calc op) U32 2 (AValue (val 0) # reg_operand 1),
     sample_inst (Flag SaveFlags) VOID 3 [AValue (val 2), AFlags f]]"

definition sample_alu_stack :: InterpStack where
  "sample_alu_stack = sample_stack [0xFFFFFFFD, 0, 7]"

lemmas sample_defs = sample_inst_def sample_ir_def sample_stack_def sample_env_def sample_state_def
  imm32_def imm64_def new_Inst_def

end
