(* ===== verification/Dead_Code.thy ===== *)
theory Dead_Code
  imports Interp_Code Samples "HOL-Library.Sublist"
begin

text \<open>
  Dead-code elimination on one block (\<^verbatim>\<open>runtime/ir/opts/deadcode_elimination_pass.cpp\<close>, the
  overload without a function): sweep the instruction list, delete what is removable, repeat
  until a sweep changes nothing.  Deleting an instruction releases its arguments, which lowers
  use counts and shortens pseudo-operation chains.  A simulation between the interpreter runs
  of the block before and after one deletion gives preservation for the whole pass.
\<close>

section \<open>The pass\<close>

definition Removable :: "Inst \<Rightarrow> bool" where
  "Removable inst =
     (if op_code inst = Mem LoadMemory \<or> op_code inst = Mem LoadMemoryTSO then False
      else \<not> HasSideEffects inst)"

fun dce_sweep :: "IR \<Rightarrow> InstPtr list \<Rightarrow> (IR \<times> InstPtr list \<times> bool) option" where
  "dce_sweep ir [] = Some (ir, [], False)"
| "dce_sweep ir (i # is) =
     (if Removable (ir i) then do {
        ir1 \<leftarrow> DestroyArgs ir i;
        (ir2, kept, _) \<leftarrow> dce_sweep ir1 is;
        Some (ir2, kept, True) }
      else do {
        (ir2, kept, changed) \<leftarrow> dce_sweep ir is;
        Some (ir2, i # kept, changed) })"

lemma dce_sweep_length:
  "dce_sweep ir is = Some (ir', kept, changed) \<Longrightarrow>
    length kept \<le> length is \<and> (changed \<longrightarrow> length kept < length is)"
proof (induction ir "is" arbitrary: ir' kept changed rule: dce_sweep.induct)
  case (2 ir i "is")
  show ?case
  proof (cases "Removable (ir i)")
    case True
    then obtain ir1 ir2 c where "DestroyArgs ir i = Some ir1" "dce_sweep ir1 is = Some (ir2, kept, c)"
      using "2.prems" by (auto simp: bind_eq_Some_conv)
    with 2(1) [OF True] "2.prems" True show ?thesis by fastforce
  next
    case False
    then obtain k where k: "dce_sweep ir is = Some (ir', k, changed)" "kept = i # k"
      using "2.prems" by (auto simp: bind_eq_Some_conv)
    with 2(2) [OF False k(1)] show ?thesis by simp
  qed
qed simp

function DeadCodeElimination_Run :: "IR \<Rightarrow> InstPtr list \<Rightarrow> (IR \<times> InstPtr list) option" where
  "DeadCodeElimination_Run ir is =
     (case dce_sweep ir is of
        None \<Rightarrow> None
      | Some (ir', kept, changed) \<Rightarrow>
          if changed then DeadCodeElimination_Run ir' kept else Some (ir', kept))"
  by pat_completeness auto

termination DeadCodeElimination_Run
  by (relation "measure (\<lambda>(ir, is). length is)") (auto dest: dce_sweep_length)

declare DeadCodeElimination_Run.simps [simp del]

section \<open>Positions in a list and in its sublist\<close>

definition pos :: "('a \<Rightarrow> bool) \<Rightarrow> 'a list \<Rightarrow> nat \<Rightarrow> nat" where
  "pos keep xs k = length (filter keep (take k xs))"

lemma pos_0 [simp]: "pos keep xs 0 = 0"
  by (simp add: pos_def)

lemma pos_end [simp]: "length xs \<le> k \<Longrightarrow> pos keep xs k = length (filter keep xs)"
  by (simp add: pos_def)

lemma pos_Suc: "k < length xs \<Longrightarrow> pos keep xs (Suc k) = pos keep xs k + (if keep (xs ! k) then 1 else 0)"
  by (simp add: pos_def take_Suc_conv_app_nth)

lemma pos_nth: "k < length xs \<Longrightarrow> keep (xs ! k) \<Longrightarrow> filter keep xs ! pos keep xs k = xs ! k"
proof -
  assume a: "k < length xs" "keep (xs ! k)"
  have "filter keep xs = filter keep (take k xs) @ xs ! k # filter keep (drop (Suc k) xs)"
    using a id_take_nth_drop [OF a(1)] by (metis filter.simps(2) filter_append)
  then show ?thesis by (simp add: pos_def nth_append)
qed

lemma pos_less: "k < length xs \<Longrightarrow> keep (xs ! k) \<Longrightarrow> pos keep xs k < length (filter keep xs)"
proof -
  assume a: "k < length xs" "keep (xs ! k)"
  have "filter keep xs = filter keep (take k xs) @ xs ! k # filter keep (drop (Suc k) xs)"
    using a id_take_nth_drop [OF a(1)] by (metis filter.simps(2) filter_append)
  then show ?thesis by (simp add: pos_def)
qed

lemma last_index_Some:
  "last_index P xs k = Some j \<Longrightarrow> k \<le> j \<and> j < k + length xs \<and> P (xs ! (j - k))"
proof (induction xs arbitrary: k)
  case (Cons x xs)
  show ?case
  proof (cases "last_index P xs (Suc k)")
    case (Some j')
    with Cons.IH [of "Suc k"] Cons.prems have "Suc k \<le> j \<and> j < Suc k + length xs \<and> P (xs ! (j - Suc k))" by simp
    then show ?thesis by (auto simp: nth_Cons' Suc_diff_Suc)
  qed (use Cons.prems in \<open>auto split: if_splits\<close>)
qed simp

lemma last_index_None: "last_index P xs k = None \<longleftrightarrow> (\<forall>x \<in> set xs. \<not> P x)"
proof (induction xs arbitrary: k)
  case (Cons x xs)
  show ?case using Cons.IH [of "Suc k"] by (cases "last_index P xs (Suc k)") auto
qed simp

lemma last_index_filter:
  assumes "\<forall>x \<in> set xs. P x \<longrightarrow> keep x"
  shows "last_index P (filter keep xs) m = map_option (\<lambda>j. m + pos keep xs (j - k)) (last_index P xs k)"
  using assms
proof (induction xs arbitrary: k m)
  case (Cons x xs)
  have p: "pos keep (x # xs) (j - k) = (if keep x then 1 else 0) + pos keep xs (j - Suc k)" if "Suc k \<le> j" for j
    using that by (simp add: pos_def Suc_diff_Suc [symmetric] less_eq_Suc_le)
  show ?case
  proof (cases "last_index P xs (Suc k)")
    case None
    with Cons.IH [of m "Suc k"] Cons.IH [of "Suc m" "Suc k"] Cons.prems show ?thesis by auto
  next
    case (Some j)
    with Cons.IH [of m "Suc k"] Cons.IH [of "Suc m" "Suc k"] Cons.prems last_index_Some [OF Some] p [of j]
    show ?thesis by auto
  qed
qed simp

lemma last_index_cong: "(\<And>x. x \<in> set xs \<Longrightarrow> P x = Q x) \<Longrightarrow> last_index P xs k = last_index Q xs k"
  by (induction xs arbitrary: k) (auto split: option.splits)

declare run_insts.simps [simp del]

lemma run_insts_end: "length insts \<le> it \<Longrightarrow> run_insts n env ir insts it st s = Some (LoopDone st s)"
  by (cases n) (simp_all add: run_insts.simps)

text \<open>One turn of the loop: the loop's result, or the position, stack and state of the next turn.\<close>

definition loop_step ::
  "HostEnv \<Rightarrow> IR \<Rightarrow> InstPtr list \<Rightarrow> nat \<Rightarrow> InterpStack \<Rightarrow> State \<Rightarrow> LoopResult + nat \<times> InterpStack \<times> State" where
  "loop_step env ir insts it st s =
     (let i = insts ! it in
      if is_jump (ir i) then
        (case jump_taken ir i st of
           None \<Rightarrow> Inl LoopAbort
         | Some taken \<Rightarrow>
             Inr (Suc (if taken then (case find_label ir insts i of Some j \<Rightarrow> j | None \<Rightarrow> it) else it), st, s))
      else
        (case RunInst env ir i st s of
           None \<Rightarrow> Inl LoopAbort
         | Some (st', s') \<Rightarrow>
             if halt_reason s' \<noteq> HaltNone then Inl (LoopHalted s') else Inr (Suc it, st', s')))"

lemma run_insts_step:
  assumes "it < length insts"
  shows "run_insts (Suc n) env ir insts it st s =
    (case loop_step env ir insts it st s of
       Inl r \<Rightarrow> Some r | Inr (it', st', s') \<Rightarrow> run_insts n env ir insts it' st' s')"
  using assms unfolding run_insts.simps(2) loop_step_def
  by (simp add: Let_def split: option.split prod.split)

lemma run_insts_mono: "run_insts n env ir insts it st s = Some r \<Longrightarrow> run_insts (Suc n) env ir insts it st s = Some r"
proof (induction n arbitrary: it st s)
  case 0
  then show ?case by (auto simp: run_insts.simps(1) run_insts_end split: if_splits)
next
  case (Suc n)
  show ?case
  proof (cases "it < length insts")
    case True
    then show ?thesis using Suc.prems by (auto simp: run_insts_step intro: Suc.IH split: sum.splits)
  qed (use Suc.prems in \<open>simp add: run_insts_end\<close>)
qed

section \<open>Deleting one unused instruction\<close>

text \<open>The situation of one deletion: the block before and after, and the store before and after.\<close>

definition deletes :: "IR \<Rightarrow> InstPtr list \<Rightarrow> (InstPtr \<Rightarrow> nat) \<Rightarrow> InstPtr \<Rightarrow> IR \<Rightarrow> InstPtr list \<Rightarrow> bool" where
  "deletes ir insts ext d ir' insts' =
     (block_ok ir insts ext \<and> d \<in> set insts \<and> Removable (ir d) \<and> released ir d ir' \<and>
      insts' = filter (\<lambda>p. p \<noteq> d) insts \<and> block_ok ir' insts' ext)"

lemma deletesD:
  assumes "deletes ir insts ext d ir' insts'"
  shows "block_ok ir insts ext" "d \<in> set insts" "num_use (ir d) = 0" "released ir d ir'"
    "insts' = filter (\<lambda>p. p \<noteq> d) insts" "block_ok ir' insts' ext"
    "\<not> HasSideEffects (ir d)" "op_code (ir d) \<noteq> Mem LoadMemory" "op_code (ir d) \<noteq> Mem LoadMemoryTSO"
  using assms by (auto simp: deletes_def Removable_def HasSideEffects_def split: if_splits)

lemma deletes_named:
  assumes "deletes ir insts ext d ir' insts'" "i \<in> set insts" "v \<in> set (GetValues (ir i))"
  shows "Def v \<in> set insts" "Def v \<noteq> d" "vid ir (Def v) \<noteq> vid ir d"
proof -
  note D = deletesD [OF assms(1)]
  show m: "Def v \<in> set insts" by (rule block_okD(5) [OF D(1) assms(2,3)])
  show n: "Def v \<noteq> d" by (rule unused_not_named [OF D(1-3) assms(2,3)])
  show "vid ir (Def v) \<noteq> vid ir d"
    using inj_onD [OF block_okD(2) [OF D(1)], of "Def v" d] m n D(2) by (auto simp: vid_def word_unat_eq_iff)
qed

lemma released_same_code: "released ir d ir' \<Longrightarrow> p \<noteq> d \<Longrightarrow> same_code ir ir' p"
  by (simp add: released_def same_code_def)

lemma deletes_code:
  assumes D: "deletes ir insts ext d ir' insts'" and i: "i \<in> set insts" "i \<noteq> d"
  shows "code_agree ir ir' i" "step_code ir ir' i"
proof -
  have c: "code_agree ir ir' j" if "j \<in> set insts" "j \<noteq> d" for j
    unfolding code_agree_def
    using that released_same_code [OF deletesD(4) [OF D]] block_okD(3) [OF deletesD(1) [OF D]]
      deletes_named(2) [OF D that(1)] by blast
  then show "code_agree ir ir' i" using i .
  then show "step_code ir ir' i"
    unfolding step_code_def using c deletes_named [OF D i(1)] by blast
qed

lemma deletes_reads:
  assumes D: "deletes ir insts ext d ir' insts'" and i: "i \<in> set insts"
    and a: "agree (- {vid ir d}) st st'"
  shows "reads_agree ir i (- {vid ir d}) st st'" "step_agree ir i (- {vid ir d}) st st'"
proof -
  have c: "reads_agree ir j (- {vid ir d}) st st'" if "j \<in> set insts" for j
    unfolding reads_agree_def
    using that a block_okD(3) [OF deletesD(1) [OF D]] deletes_named(3) [OF D that] by auto
  then show "reads_agree ir i (- {vid ir d}) st st'" using i .
  then show "step_agree ir i (- {vid ir d}) st st'"
    unfolding step_agree_def using c deletes_named(1) [OF D i] by blast
qed

lemma deleted_step:
  assumes D: "deletes ir insts ext d ir' insts'" and run: "RunInst env ir d st s = Some (st1, s1)"
  shows "s1 = s" "agree (- {vid ir d}) st st1"
proof -
  have "own_ids ir d = {vid ir d}"
  proof (cases "IsPseudoOperation (ir d)")
    case True
    then show ?thesis by (auto simp: own_ids_def IsPseudoOperation_def)
  next
    case False
    obtain qs where qs: "chain ir d qs" "set qs = {q \<in> set insts. pseudo_of ir q d}"
      by (rule block_ok_chain [OF deletesD(1,2) [OF D] False])
    have "\<not> pseudo_of ir q d" if "q \<in> set insts" for q
      using deletes_named(2) [OF D that] block_okD(3) [OF deletesD(1) [OF D] that] GetArg_Value_mem
      by (force simp: pseudo_of_def)
    then have "qs = []" using qs(2) by (cases qs) auto
    then have "GetPseudoOperations ir d = Some []" using qs(1) by (intro GetPseudoOperations_chain) auto
    then show ?thesis by (simp add: own_ids_def)
  qed
  then show "s1 = s" "agree (- {vid ir d}) st st1"
    using RunInst_pure [of ir d st s env] deletesD(7-9) [OF D] run by (auto simp: pure_step_def)
qed

lemma GetPseudoOperations_ok:
  assumes ok: "block_ok ir insts ext" and i: "i \<in> set insts" "\<not> IsPseudoOperation (ir i)"
  obtains qs where "GetPseudoOperations ir i = Some qs" "distinct qs" "set qs = {q \<in> set insts. pseudo_of ir q i}"
proof -
  obtain qs where qs: "chain ir i qs" "distinct (i # qs)" "set qs = {q \<in> set insts. pseudo_of ir q i}"
    by (rule block_ok_chain [OF ok i])
  moreover have "GetPseudoOperations ir i = Some qs"
    using qs by (intro GetPseudoOperations_chain) (auto simp: pseudo_of_def)
  ultimately show ?thesis using that by auto
qed

lemma distinct_singleton_list: "distinct xs \<Longrightarrow> set xs = {q} \<Longrightarrow> xs = [q]"
  by (cases xs; cases "tl xs") auto

lemma WritePair_deleted:
  assumes D: "deletes ir insts ext d ir' insts'" and i: "i \<in> set insts" "i \<noteq> d" "\<not> IsPseudoOperation (ir i)"
    and a: "agree (- {vid ir d}) st st'" and run: "WritePairResult ir st i r op = Some st1"
  shows "\<exists>st1'. WritePairResult ir' st' i r op = Some st1' \<and> agree (- {vid ir d}) st1 st1'"
proof -
  note R = released_same_code [OF deletesD(4) [OF D]]
  have i': "i \<in> set insts'" "\<not> IsPseudoOperation (ir' i)"
    using i deletesD(5) [OF D] R [OF i(2)] by (auto simp: same_code_def IsPseudoOperation_def)
  obtain qs where qs: "GetPseudoOperations ir i = Some qs" "distinct qs" "set qs = {q \<in> set insts. pseudo_of ir q i}"
    by (rule GetPseudoOperations_ok [OF deletesD(1) [OF D] i(1,3)])
  obtain qs' where qs': "GetPseudoOperations ir' i = Some qs'" "distinct qs'" "set qs' = {q \<in> set insts'. pseudo_of ir' q i}"
    by (rule GetPseudoOperations_ok [OF deletesD(6) [OF D] i'])
  have op': "op_code (ir' q) = op_code (ir q)" for q using deletesD(4) [OF D] by (simp add: released_def)
  have "pseudo_of ir' q i = pseudo_of ir q i" if "q \<noteq> d" for q
    using R [OF that] GetArg_same(1) [of "ir' q" "ir q" 0] by (auto simp: same_code_def pseudo_of_def IsPseudoOperation_def)
  then have set': "set qs' = set qs - {d}" using qs(3) qs'(3) deletesD(5) [OF D] by auto
  let ?f = "filter (\<lambda>q. op_code (ir q) = op)"
  have w: "write_value ir' st' i x = write_value ir st' i x" for x
    using same_code_write(3) [OF R [OF i(2)]] .
  have a1: "agree (- {vid ir d}) (write_value ir st i x) (write_value ir' st' i x)" for x
    unfolding w by (rule agree_write_value [OF a])
  have len: "length (?f qs) \<le> 1" and st1: "st1 = (case ?f qs of [] \<Rightarrow> write_value ir st i (fst r)
      | q # _ \<Rightarrow> write_value ir (write_value ir st i (fst r)) q (snd r))"
    using run qs(1) by (auto simp: WritePairResult_def WriteScalar_total GetPseudoOperations_op_def ASSERT_def
        split: if_splits list.splits)
  have run': "WritePairResult ir' st' i r op = (if length (?f qs') \<le> 1 then
      Some (case ?f qs' of [] \<Rightarrow> write_value ir' st' i (fst r)
      | q # _ \<Rightarrow> write_value ir' (write_value ir' st' i (fst r)) q (snd r)) else None)"
    using qs'(1) by (auto simp: WritePairResult_def WriteScalar_total GetPseudoOperations_op_def ASSERT_def op'
        split: list.splits)
  have f': "set (?f qs') = set (?f qs) - {d}" "distinct (?f qs')" using set' qs'(2) by auto
  show ?thesis
  proof (cases "?f qs")
    case Nil
    then have "?f qs' = []" using f'(1) by simp
    with Nil run' st1 a1 show ?thesis by simp
  next
    case (Cons q rest)
    with len have q: "?f qs = [q]" by (cases rest) auto
    show ?thesis
    proof (cases "q = d")
      case True
      then have e: "?f qs' = []" using f'(1) q by simp
      have "agree (- {vid ir d}) st1 (write_value ir st i (fst r))"
        unfolding st1 q True by (auto intro!: agree_sym [OF agree_frame_value])
      then show ?thesis using run' e agree_trans [OF _ a1] by auto
    next
      case False
      then have "set (?f qs') = {q}" using f'(1) q by simp
      then have e: "?f qs' = [q]" by (rule distinct_singleton_list [OF f'(2)])
      have "agree (- {vid ir d}) st1 (write_value ir' (write_value ir' st' i (fst r)) q (snd r))"
        unfolding st1 q same_code_write(3) [OF R [OF False]] using agree_write_value [OF a1] by simp
      then show ?thesis using run' e by simp
    qed
  qed
qed

definition simulated :: "nat set \<Rightarrow> InterpStack option \<Rightarrow> InterpStack option \<Rightarrow> bool" where
  "simulated A r r' = (\<forall>st. r = Some st \<longrightarrow> (\<exists>st'. r' = Some st' \<and> agree A st st'))"

lemma simulated_bind:
  "(\<And>x. m = Some x \<Longrightarrow> simulated A (f x) (g x)) \<Longrightarrow> simulated A (Option.bind m f) (Option.bind m g)"
  by (cases m) (simp_all add: simulated_def)

lemma kept_step:
  assumes D: "deletes ir insts ext d ir' insts'" and i: "i \<in> set insts" "i \<noteq> d"
    and a: "agree (- {vid ir d}) st st'" and run: "RunInst env ir i st s = Some (st1, s1)"
  shows "\<exists>st1'. RunInst env ir' i st' s = Some (st1', s1) \<and> agree (- {vid ir d}) st1 st1'"
proof (cases "pair_op (op_code (ir i))")
  case False
  have "rel_option (agree_pair (- {vid ir d})) (RunInst env ir i st s) (RunInst env ir i st' s)"
    by (rule RunInst_agree [OF deletes_reads(2) [OF D i(1) a]])
  then show ?thesis
    using run RunInst_code [OF deletes_code(2) [OF D i] False, of env st' s]
    by (auto simp: option_rel_Some1)
next
  case True
  then have np: "\<not> IsPseudoOperation (ir i)" by (auto simp: pair_op_def IsPseudoOperation_def)
  note C = deletes_code(1) [OF D i] and R = deletes_reads(1) [OF D i(1) a]
  have W: "simulated (- {vid ir d}) (WritePairResult ir st i r op) (WritePairResult ir' st' i r op)" for r op
    using WritePair_deleted [OF D i np a] by (simp add: simulated_def)
  have "simulated (- {vid ir d}) (RunDiv128 ir i st) (RunDiv128 ir' i st')"
    "simulated (- {vid ir d}) (RunCpuid env ir i st) (RunCpuid env ir' i st')"
    unfolding RunDiv128_def RunCpuid_def
    by (auto simp: Let_def code_simps [OF C] reads_agreeD [OF R] intro!: simulated_bind W)
  then show ?thesis
    using True run by (auto simp: pair_op_def RunInst_def on_stack_def simulated_def code_agreeD(1) [OF C])
qed

section \<open>Simulation of the loop\<close>

fun loop_sim :: "nat set \<Rightarrow> LoopResult \<Rightarrow> LoopResult \<Rightarrow> bool" where
  "loop_sim A (LoopDone st s) (LoopDone st' s') = (agree A st st' \<and> s' = s)"
| "loop_sim A (LoopHalted s) (LoopHalted s') = (s' = s)"
| "loop_sim A LoopAbort r' = True"
| "loop_sim A _ _ = False"

lemma label_kept:
  assumes D: "deletes ir insts ext d ir' insts'" and i: "i \<in> set insts" "i \<noteq> d"
  shows "find_label ir' insts' i = map_option (pos (\<lambda>p. p \<noteq> d) insts) (find_label ir insts i)"
    and "find_label ir insts i = Some j \<Longrightarrow> j < length insts \<and> insts ! j \<noteq> d"
proof -
  have nb: "\<not> label_binds ir i d"
    using deletesD(7) [OF D] by (auto simp: label_binds_def HasSideEffects_def split: if_splits)
  have same: "label_binds ir' i q = label_binds ir i q" if "q \<noteq> d" for q
    using released_same_code [OF deletesD(4) [OF D] that] GetArg_same(1) [of "ir' q" "ir q" 0]
    by (simp add: label_binds_def same_code_def)
  have "find_label ir' insts' i = last_index (label_binds ir i) (filter (\<lambda>p. p \<noteq> d) insts) 0"
    unfolding find_label_def deletesD(5) [OF D] by (rule last_index_cong) (simp add: same)
  also have "\<dots> = map_option (pos (\<lambda>p. p \<noteq> d) insts) (find_label ir insts i)"
    unfolding find_label_def using last_index_filter [of insts "label_binds ir i" "\<lambda>p. p \<noteq> d" 0 0] nb by auto
  finally show "find_label ir' insts' i = map_option (pos (\<lambda>p. p \<noteq> d) insts) (find_label ir insts i)" .
  show "find_label ir insts i = Some j \<Longrightarrow> j < length insts \<and> insts ! j \<noteq> d"
    using last_index_Some [of "label_binds ir i" insts 0 j] nb by (auto simp: find_label_def)
qed

lemma deleted_no_label:
  assumes D: "deletes ir insts ext d ir' insts'"
  shows "find_label ir insts d = None"
proof -
  have "\<not> label_binds ir d q" if "q \<in> set insts" for q
    using deletes_named(2) [OF D that] GetArg_Value_mem block_okD(3) [OF deletesD(1) [OF D] that]
    by (force simp: label_binds_def split: option.splits)
  then show ?thesis by (simp add: find_label_def last_index_None)
qed

lemma loop_step_deleted:
  assumes D: "deletes ir insts ext d ir' insts'" and it: "it < length insts" "insts ! it = d"
    and h: "halt_reason s = HaltNone"
    and step: "loop_step env ir insts it st s = r" "r \<noteq> Inl LoopAbort"
  shows "\<exists>st1. r = Inr (Suc it, st1, s) \<and> agree (- {vid ir d}) st st1"
proof (cases "is_jump (ir d)")
  case True
  then show ?thesis
    using step it(2) deleted_no_label [OF D] by (auto simp: loop_step_def Let_def split: option.splits)
next
  case False
  then obtain st1 s1 where run: "RunInst env ir d st s = Some (st1, s1)"
    using step it(2) by (auto simp: loop_step_def Let_def split: option.splits)
  with deleted_step [OF D run] show ?thesis using step it(2) False h by (auto simp: loop_step_def Let_def)
qed

lemma loop_step_kept:
  assumes D: "deletes ir insts ext d ir' insts'" and it: "it < length insts" "insts ! it \<noteq> d"
    and a: "agree (- {vid ir d}) st st'"
    and step: "loop_step env ir insts it st s = r"
  defines "P \<equiv> pos (\<lambda>p. p \<noteq> d) insts"
  shows "case r of
      Inl LoopAbort \<Rightarrow> True
    | Inl q \<Rightarrow> loop_step env ir' insts' (P it) st' s = Inl q
    | Inr (it1, st1, s1) \<Rightarrow> \<exists>st1'. loop_step env ir' insts' (P it) st' s = Inr (P it1, st1', s1) \<and>
        agree (- {vid ir d}) st1 st1' \<and> (halt_reason s = HaltNone \<longrightarrow> halt_reason s1 = HaltNone)"
proof -
  let ?i = "insts ! it"
  have i: "?i \<in> set insts" using it by simp
  note C = deletes_code(1) [OF D i it(2)] and R = deletes_reads(1) [OF D i a]
  have i': "insts' ! P it = ?i"
    unfolding P_def deletesD(5) [OF D] by (rule pos_nth) (use it in simp_all)
  have suc: "P (Suc j) = Suc (P j)" if "j < length insts" "insts ! j \<noteq> d" for j
    using that by (simp add: P_def pos_Suc)
  have j: "is_jump (ir' ?i) = is_jump (ir ?i)" by (simp add: is_jump_def code_agreeD [OF C])
  show ?thesis
  proof (cases "is_jump (ir ?i)")
    case True
    have t: "jump_taken ir' ?i st' = jump_taken ir ?i st"
      unfolding jump_taken_def code_simps [OF C]
      by (auto simp: code_simps [OF C] reads_agreeD [OF R] intro!: Option.bind_cong)
    show ?thesis
      using step [symmetric] True j t a i' label_kept [OF D i it(2)] suc it
      by (auto simp: loop_step_def Let_def P_def [symmetric] split: option.splits)
  next
    case False
    show ?thesis
      using step [symmetric] False j i' suc it kept_step [OF D i it(2) a, of env s]
      by (fastforce simp: loop_step_def Let_def split: option.splits if_splits)
  qed
qed

lemma loop_step_bound: "loop_step env ir insts it st s = Inr (it1, st1, s1) \<Longrightarrow> it < length insts \<Longrightarrow> it1 \<le> length insts"
  using last_index_Some [of "label_binds ir (insts ! it)" insts 0]
  by (auto simp: loop_step_def Let_def find_label_def Suc_le_eq split: if_splits option.splits)

lemma run_insts_deleted:
  assumes D: "deletes ir insts ext d ir' insts'"
    and run: "run_insts n env ir insts it st s = Some r" and it: "it \<le> length insts"
    and h: "halt_reason s = HaltNone" and a: "agree (- {vid ir d}) st st'"
  shows "\<exists>r'. loop_sim (- {vid ir d}) r r' \<and>
    (r = LoopAbort \<or> run_insts n env ir' insts' (pos (\<lambda>p. p \<noteq> d) insts it) st' s = Some r')"
  using run it h a
proof (induction n arbitrary: it st st' s)
  case 0
  then have "it = length insts" "r = LoopDone st s" by (auto simp: run_insts.simps split: if_splits)
  with 0 show ?case using deletesD(5) [OF D] by (auto simp: run_insts.simps intro!: exI [of _ "LoopDone st' s"])
next
  case (Suc n)
  let ?P = "pos (\<lambda>p. p \<noteq> d) insts"
  show ?case
  proof (cases "it < length insts")
    case False
    then have "run_insts (Suc n) env ir' insts' (?P it) st' s = Some (LoopDone st' s)" "r = LoopDone st s"
      using Suc.prems(1) deletesD(5) [OF D] by (auto simp: run_insts_end)
    then show ?thesis using Suc.prems(4) by auto
  next
    case it: True
    note run = Suc.prems(1) [unfolded run_insts_step [OF it]]
    show ?thesis
    proof (cases "insts ! it = d")
      case True
      show ?thesis
      proof (cases "loop_step env ir insts it st s = Inl LoopAbort")
        case False
        then obtain st1 where st1: "loop_step env ir insts it st s = Inr (Suc it, st1, s)" "agree (- {vid ir d}) st st1"
          using loop_step_deleted [OF D it True Suc.prems(3) refl] by blast
        then have "run_insts n env ir insts (Suc it) st1 s = Some r" "agree (- {vid ir d}) st1 st'"
          using run agree_trans [OF agree_sym [OF st1(2)] Suc.prems(4)] by simp_all
        moreover have "?P (Suc it) = ?P it" using it True by (simp add: pos_Suc)
        ultimately show ?thesis
          using Suc.IH [of "Suc it" st1 s st'] it Suc.prems(3) run_insts_mono by (metis Suc_leI)
      qed (use run in \<open>auto intro: exI [of _ LoopAbort]\<close>)
    next
      case False
      have p: "?P it < length insts'"
        unfolding deletesD(5) [OF D] by (rule pos_less) (use it False in simp_all)
      note k = loop_step_kept [OF D it False Suc.prems(4) refl, of env s]
      show ?thesis
      proof (cases "loop_step env ir insts it st s")
        case (Inl q)
        then show ?thesis using k run p by (cases q) (auto simp: run_insts_step intro: exI [of _ r])
      next
        case (Inr x)
        obtain it1 st1 s1 where x: "x = (it1, st1, s1)" by (cases x)
        obtain st1' where st1': "loop_step env ir' insts' (?P it) st' s = Inr (?P it1, st1', s1)"
          "agree (- {vid ir d}) st1 st1'" "halt_reason s1 = HaltNone"
          using k Inr x Suc.prems(3) by auto
        have "it1 \<le> length insts" using Inr x it loop_step_bound by blast
        then show ?thesis
          using Suc.IH [of it1 st1 s1 st1'] run Inr x st1' p by (auto simp: run_insts_step)
      qed
    qed
  qed
qed

section \<open>Terminals and blocks\<close>

fun terminal_values :: "Terminal \<Rightarrow> Value list" where
  "terminal_values (If_term c a b) = c # terminal_values a @ terminal_values b"
| "terminal_values (Condition_term c a b) = terminal_values a @ terminal_values b"
| "terminal_values (Switch v cases) = v # concat (map (\<lambda>(c, t). terminal_values t) cases)"
| "terminal_values (CheckHalt t) = terminal_values t"
| "terminal_values _ = []"

definition same_read :: "IR \<Rightarrow> IR \<Rightarrow> InterpStack \<Rightarrow> InterpStack \<Rightarrow> Value \<Rightarrow> bool" where
  "same_read ir ir' st st' v = (ReadScalar ir' st' v = ReadScalar ir st v)"

lemma RunTerminal_cong:
  "list_all (same_read ir ir' st st') (terminal_values t) \<Longrightarrow> RunTerminal ir' t st' s = RunTerminal ir t st s"
proof (induction ir t st s rule: RunTerminal.induct)
  case (10 ir v cases st s)
  have r: "ReadScalar ir' st' v = ReadScalar ir st v" using "10.prems" by (simp add: same_read_def)
  show ?case
  proof (cases "find (\<lambda>c. Imm_Get (fst c) = ReadScalar ir st v) cases")
    case (Some c)
    then have "c \<in> set cases" by (auto simp: find_Some_iff)
    then have "set (terminal_values (snd c)) \<subseteq> set (terminal_values (Switch v cases))"
      by (auto simp: split_def)
    then have "list_all (same_read ir ir' st st') (terminal_values (snd c))"
      using "10.prems" unfolding list_all_iff by blast
    with "10.IH" [OF Some] Some r show ?thesis by (simp only: RunTerminal.simps option.case)
  qed (simp add: r)
qed (simp_all add: same_read_def)

lemma deletes_RunBlock:
  assumes D: "deletes ir insts ext d ir' insts'"
    and t: "\<forall>v \<in> set (terminal_values term). Def v \<in> set insts \<and> 0 < ext (Def v)"
    and h: "halt_reason s = HaltNone"
    and run: "RunBlock fuel env ir insts term s = Some (BlockDone r s')"
  shows "RunBlock fuel env ir' insts' term s = Some (BlockDone r s')"
proof -
  let ?A = "- {vid ir d}"
  have lab: "labels_ok ir' insts'"
  proof -
    have "op_code (ir' q) = Help BindLabel \<longrightarrow> GetArg_Value (ir' q) 0 \<noteq> None" if "q \<in> set insts'" for q
    proof -
      have q: "q \<noteq> d" "q \<in> set insts" using that deletesD(5) [OF D] by auto
      have "labels_ok ir insts" using run by (auto simp: RunBlock_def split: if_splits)
      then show ?thesis
        using q released_same_code [OF deletesD(4) [OF D] q(1)] GetArg_same(1) [of "ir' q" "ir q" 0]
        by (auto simp: labels_ok_def list_all_iff same_code_def)
    qed
    then show ?thesis by (simp add: labels_ok_def list_all_iff)
  qed
  have ext: "ext d = 0" using block_okD(6) [OF deletesD(1,2) [OF D]] deletesD(3) [OF D] by simp
  have tv: "RunTerminal ir' term st' s1 = RunTerminal ir term st s1" if "agree ?A st st'" for st st' s1
  proof (rule RunTerminal_cong)
    have "same_read ir ir' st st' v" if v: "v \<in> set (terminal_values term)" for v
    proof -
      have d: "Def v \<noteq> d" "Def v \<in> set insts" using v t ext by auto
      then have "vid ir (Def v) \<in> ?A"
        using inj_onD [OF block_okD(2) [OF deletesD(1) [OF D]], of "Def v" d] deletesD(2) [OF D]
        by (auto simp: vid_def word_unat_eq_iff)
      then have "ReadScalar ir st v = ReadScalar ir st' v" by (rule agree_ReadScalar [OF \<open>agree ?A st st'\<close>])
      then show ?thesis
        using same_code_read(1) [OF released_same_code [OF deletesD(4) [OF D] d(1)]] by (simp add: same_read_def)
    qed
    then show "list_all (same_read ir ir' st st') (terminal_values term)" by (simp add: list_all_iff)
  qed
  obtain q where q: "run_insts fuel env ir insts 0 (\<lambda>_. 0) s = Some q"
    using run by (auto simp: RunBlock_def split: if_splits option.splits)
  obtain q' where "loop_sim ?A q q'" "q = LoopAbort \<or> run_insts fuel env ir' insts' 0 (\<lambda>_. 0) s = Some q'"
    using run_insts_deleted [OF D q _ h, of "\<lambda>_. 0"] by auto
  then show ?thesis
    using run lab q tv by (cases q; cases q') (auto simp: RunBlock_def split: if_splits prod.splits)
qed

section \<open>Preservation\<close>

definition preserved :: "Terminal \<Rightarrow> IR \<Rightarrow> InstPtr list \<Rightarrow> IR \<Rightarrow> InstPtr list \<Rightarrow> bool" where
  "preserved term ir insts ir' insts' =
     (\<forall>fuel env s r s'. halt_reason s = HaltNone \<longrightarrow>
        RunBlock fuel env ir insts term s = Some (BlockDone r s') \<longrightarrow>
        RunBlock fuel env ir' insts' term s = Some (BlockDone r s'))"

lemma preserved_refl [simp]: "preserved term ir insts ir insts"
  by (simp add: preserved_def)

lemma preserved_trans: "preserved term a xs b ys \<Longrightarrow> preserved term b ys c zs \<Longrightarrow> preserved term a xs c zs"
  by (simp add: preserved_def)

lemma dce_sweep_preserves:
  assumes "block_ok ir (pre @ is) ext" "\<forall>v \<in> set (terminal_values term). Def v \<in> set (pre @ is) \<and> 0 < ext (Def v)"
  shows "\<exists>ir' kept changed. dce_sweep ir is = Some (ir', kept, changed) \<and> block_ok ir' (pre @ kept) ext \<and>
    (\<forall>v \<in> set (terminal_values term). Def v \<in> set (pre @ kept) \<and> 0 < ext (Def v)) \<and>
    preserved term ir (pre @ is) ir' (pre @ kept) \<and> subseq kept is \<and>
    (\<not> changed \<longrightarrow> ir' = ir \<and> kept = is \<and> (\<forall>i \<in> set is. \<not> Removable (ir i)))"
  using assms
proof (induction "is" arbitrary: ir pre)
  case (Cons i "is")
  show ?case
  proof (cases "Removable (ir i)")
    case False
    with Cons.IH [of ir "pre @ [i]"] Cons.prems show ?thesis by (auto simp: bind_eq_Some_conv)
  next
    case True
    have i: "i \<in> set (pre @ i # is)" "num_use (ir i) = 0" "i \<notin> set pre" "i \<notin> set is"
      using True block_okD(1) [OF Cons.prems(1)] by (auto simp: Removable_def HasSideEffects_def split: if_splits)
    obtain ir1 where ir1: "DestroyArgs ir i = Some ir1" "released ir i ir1" "block_ok ir1 (remove1 i (pre @ i # is)) ext"
      by (rule block_ok_delete [OF Cons.prems(1) i(1,2)])
    have "filter (\<lambda>p. p \<noteq> i) pre = pre" "filter (\<lambda>p. p \<noteq> i) is = is"
      using i(3,4) by (auto intro!: filter_True)
    then have eq: "remove1 i (pre @ i # is) = pre @ is" "filter (\<lambda>p. p \<noteq> i) (pre @ i # is) = pre @ is"
      using i(3) by (simp_all add: remove1_append)
    have D: "deletes ir (pre @ i # is) ext i ir1 (pre @ is)"
      using Cons.prems(1) i(1) True ir1(2,3) eq by (simp add: deletes_def)
    have t: "\<forall>v \<in> set (terminal_values term). Def v \<in> set (pre @ is) \<and> 0 < ext (Def v)"
      using Cons.prems(2) block_okD(6) [OF Cons.prems(1) i(1)] i(2) by auto
    have "preserved term ir (pre @ i # is) ir1 (pre @ is)"
      using deletes_RunBlock [OF D Cons.prems(2)] by (simp add: preserved_def)
    with Cons.IH [OF ir1(3) [unfolded eq] t] True ir1(1) show ?thesis
      by (auto simp: bind_eq_Some_conv intro: preserved_trans)
  qed
qed auto

lemma dce_correct:
  assumes "block_ok ir insts ext" "\<forall>v \<in> set (terminal_values term). Def v \<in> set insts \<and> 0 < ext (Def v)"
  shows "\<exists>ir' insts'. DeadCodeElimination_Run ir insts = Some (ir', insts') \<and> block_ok ir' insts' ext \<and>
    (\<forall>i \<in> set insts'. \<not> Removable (ir' i)) \<and> subseq insts' insts \<and> preserved term ir insts ir' insts'"
  using assms
proof (induction ir insts rule: DeadCodeElimination_Run.induct)
  case (1 ir insts)
  obtain ir1 kept changed where sw: "dce_sweep ir insts = Some (ir1, kept, changed)" and ok: "block_ok ir1 kept ext"
    and t: "\<forall>v \<in> set (terminal_values term). Def v \<in> set kept \<and> 0 < ext (Def v)"
    and p: "preserved term ir insts ir1 kept" and ss: "subseq kept insts"
    and fx: "\<not> changed \<longrightarrow> ir1 = ir \<and> kept = insts \<and> (\<forall>i \<in> set insts. \<not> Removable (ir i))"
    using dce_sweep_preserves [of ir "[]" insts ext "term"] "1.prems" by auto
  show ?case
  proof (cases changed)
    case True
    obtain ir' insts' where r: "DeadCodeElimination_Run ir1 kept = Some (ir', insts')" "block_ok ir' insts' ext"
      "\<forall>i \<in> set insts'. \<not> Removable (ir' i)" "subseq insts' kept" "preserved term ir1 kept ir' insts'"
      using "1.IH" [OF sw refl refl True ok t] by blast
    have "DeadCodeElimination_Run ir insts = Some (ir', insts')"
      using sw True r(1) by (subst DeadCodeElimination_Run.simps) simp
    with r(2,3) subseq_order.order_trans [OF r(4) ss] preserved_trans [OF p r(5)] show ?thesis by blast
  next
    case False
    then have "DeadCodeElimination_Run ir insts = Some (ir1, kept)"
      using sw by (subst DeadCodeElimination_Run.simps) simp
    with False fx ok ss p show ?thesis by auto
  qed
qed

text \<open>C12. Dead-code elimination of a well-formed block always returns; what is left is a subsequence
  of the block, is well formed (use counts and pseudo-operation chains included), and nothing in
  it can be removed.\<close>

theorem dead_code_elimination_returns:
  assumes "block_ok ir insts ext"
  shows "\<exists>ir' insts'. DeadCodeElimination_Run ir insts = Some (ir', insts') \<and> subseq insts' insts \<and>
    block_ok ir' insts' ext \<and> (\<forall>i \<in> set insts'. \<not> Removable (ir' i))"
  using dce_correct [OF assms, of Invalid] by auto

text \<open>C2. Dead-code elimination preserves the meaning of a block: whenever the interpreter runs the
  block to a halt reason and a machine state, it runs the optimised block to the same ones, with
  the same fuel and for every host.\<close>

theorem dead_code_elimination_preserves:
  assumes "block_ok ir insts ext" and "\<forall>v \<in> set (terminal_values term). Def v \<in> set insts \<and> 0 < ext (Def v)"
    and "DeadCodeElimination_Run ir insts = Some (ir', insts')" and "halt_reason s = HaltNone"
    and "RunBlock fuel env ir insts term s = Some (BlockDone r s')"
  shows "RunBlock fuel env ir' insts' term s = Some (BlockDone r s')"
  using dce_correct [OF assms(1,2)] assms(3-5) by (auto simp: preserved_def)

section \<open>A block with a dead chain\<close>

text \<open>A block without pseudo-operations, checked by evaluation.\<close>

definition plain_block_ok :: "IR \<Rightarrow> InstPtr list \<Rightarrow> (InstPtr \<Rightarrow> nat) \<Rightarrow> bool" where
  "plain_block_ok ir insts ext =
     (distinct insts \<and> distinct (map (\<lambda>p. inst_id (ir p)) insts) \<and>
      list_all (\<lambda>p. wf_inst (ir p) \<and> \<not> IsPseudoOperation (ir p) \<and> next_pseudo_inst (ir p) = None \<and>
        list_all (\<lambda>v. Def v \<in> set insts) (GetValues (ir p)) \<and>
        unat (num_use (ir p)) = (\<Sum>q\<leftarrow>insts. uses_of (ir q) p) + ext p) insts)"

lemma plain_block: "plain_block_ok ir insts ext \<Longrightarrow> block_ok ir insts ext"
  unfolding block_ok_def plain_block_ok_def list_all_iff
  by (auto simp: distinct_map pseudo_ok_iff pseudo_of_def intro!: exI [of _ "[]"])

definition dead_ir :: IR where
  "dead_ir = sample_ir [
     (sample_inst (Help LoadImm) U64 0 [AImm (imm64 5)])\<lparr>num_use := 1\<rparr>,
     (sample_inst (Help LoadImm) U64 1 [AImm (imm64 9)])\<lparr>num_use := 1\<rparr>,
     sample_inst (Calc Neg_op) U64 2 [AValue (val 1)],
     sample_inst (Mem StoreUniform) VOID 3 [AUniform \<lparr>uniform_offset = 8, uniform_type = U64\<rparr>, AValue (val 0)]]"

lemma dead_ir_ok: "block_ok dead_ir [0, 1, 2, 3] (\<lambda>_. 0)"
  by (rule plain_block) code_simp

theorem dead_code_elimination_returns_witness:
  "block_ok dead_ir [0, 1, 2, 3] (\<lambda>_. 0) \<and>
   (\<exists>ir' insts'. DeadCodeElimination_Run dead_ir [0, 1, 2, 3] = Some (ir', insts') \<and> subseq insts' [0, 1, 2, 3] \<and>
    block_ok ir' insts' (\<lambda>_. 0) \<and> (\<forall>i \<in> set insts'. \<not> Removable (ir' i)))"
  using dead_ir_ok dead_code_elimination_returns [OF dead_ir_ok] by blast

theorem dead_code_elimination_preserves_witness:
  "\<exists>ir' insts' r s'. DeadCodeElimination_Run dead_ir [0, 1, 2, 3] = Some (ir', insts') \<and>
     RunBlock 9 sample_env dead_ir [0, 1, 2, 3] (LinkBlock 0x2000) sample_state = Some (BlockDone r s') \<and>
     RunBlock 9 sample_env ir' insts' (LinkBlock 0x2000) sample_state = Some (BlockDone r s')"
proof -
  obtain ir' insts' where d: "DeadCodeElimination_Run dead_ir [0, 1, 2, 3] = Some (ir', insts')"
    using dce_correct [OF dead_ir_ok, of Invalid] by auto
  have "case RunBlock 9 sample_env dead_ir [0, 1, 2, 3] (LinkBlock 0x2000) sample_state of
      Some (BlockDone r s') \<Rightarrow> True | _ \<Rightarrow> False" by code_simp
  then obtain r s' where r: "RunBlock 9 sample_env dead_ir [0, 1, 2, 3] (LinkBlock 0x2000) sample_state = Some (BlockDone r s')"
    by (auto split: option.splits BlockResult.splits)
  have h: "halt_reason sample_state = HaltNone" by (simp add: sample_state_def)
  show ?thesis using d r dead_code_elimination_preserves [OF dead_ir_ok _ d h r] by auto
qed

end
