(* ===== verification/Interp_Correct.thy ===== *)
theory Interp_Correct
  imports Samples
begin

text \<open>
  End-to-end properties of the interpreter: an arithmetic instruction followed by the capture of
  its flags and a condition test.
\<close>

section \<open>Arithmetic, flag capture and condition\<close>

text \<open>
  An arithmetic instruction that is ready to run: its result is a scalar of \<open>b\<close> bits, its operands
  are values of other definitions, and its right operand evaluates to \<open>r\<close>.
\<close>

definition alu_ready :: "IR \<Rightarrow> InstPtr \<Rightarrow> InterpStack \<Rightarrow> nat \<Rightarrow> Value \<Rightarrow> u64 \<Rightarrow> bool" where
  "alu_ready ir d st b lv r =
     (wf_inst (ir d) \<and> ret_type (ir d) \<noteq> VOID \<and> \<not> IsVector (ret_type (ir d)) \<and>
      TypeBits (ret_type (ir d)) = Some b \<and> GetArg_Value (ir d) 0 = Some lv \<and>
      Option.bind (GetArg_Operand (ir d) 1) (EvalOperand ir st) = Some r \<and>
      (\<forall>v \<in> set (GetValues (ir d)). vid ir (Def v) \<noteq> vid ir d))"

text \<open>A flag capture of the definition \<open>d\<close> that requests the flags \<open>f\<close>.\<close>

definition captures :: "IR \<Rightarrow> InstPtr \<Rightarrow> InstPtr \<Rightarrow> u64 \<Rightarrow> bool" where
  "captures ir i d f =
     (captures_flags (op_code (ir i)) \<and> map_option Def (GetArg_Value (ir i) 0) = Some d \<and>
      GetArg_Flags (ir i) 1 = Some f)"

lemma alu_write:
  fixes x :: u64
  assumes ready: "alu_ready ir d st b lv r"
  defines "st' \<equiv> write_value ir st d x"
  shows "ReadScalar ir st' lv = ReadScalar ir st lv"
    and "Option.bind (GetArg_Operand (ir d) 1) (EvalOperand ir st') = Some r"
    and "ReadScalar ir st' (Value d t) = x AND MaskBits b"
proof -
  have R: "reads_agree ir d (- {vid ir d}) st' st"
    using ready agree_sym [OF agree_frame_value [of ir d "{vid ir d}" st x]]
    by (auto simp: alu_ready_def reads_agree_def st'_def)
  show "ReadScalar ir st' lv = ReadScalar ir st lv"
    using ready reads_agreeD(1) [OF R] by (auto simp: alu_ready_def)
  show "Option.bind (GetArg_Operand (ir d) 1) (EvalOperand ir st') = Some r"
    using ready reads_agreeD(3) [OF R] by (auto simp: alu_ready_def bind_eq_Some_conv)
  show "ReadScalar ir st' (Value d t) = x AND MaskBits b"
    using ready ReadScalar_write_value [of "Value d t" d ir st x] by (simp add: alu_ready_def st'_def)
qed

lemma alu_run:
  "alu_ready ir d st b lv r \<Longrightarrow>
    value_operand ir d st f = Some (write_value ir st d (f (ReadScalar ir st lv) r))"
  by (auto simp: value_operand_def WriteScalar_total alu_ready_def bind_eq_Some_conv)

text \<open>An arithmetic instruction that wrote \<open>x\<close>, then the capture of its flags.\<close>

lemma alu_capture:
  assumes ready: "alu_ready ir d st b lv r" and cap: "captures ir i d f"
    and run: "RunInst env ir d st s = Some (write_value ir st d x, s)"
  obtains st' fl rp where "RunInst env ir d st s = Some (st', s)"
    "RunInst env ir i st' s = Some (st', s\<lparr>host_cpu_flags := fl\<rparr>)"
    "SaveGuestFlags ir st' d f (host_cpu_flags s) = Some fl"
    "GetArg_Operand (ir d) 1 = Some rp" "EvalOperand ir st' rp = Some r"
    "ReadScalar ir st' lv = ReadScalar ir st lv" "ReadScalar ir st' (Value d VOID) = x AND MaskBits b"
    "TypeBits (ret_type (ir d)) = Some b" "GetArg_Value (ir d) 0 = Some lv"
proof -
  let ?st = "write_value ir st d x"
  note w = alu_write [OF ready, of x]
  obtain rp where rp: "GetArg_Operand (ir d) 1 = Some rp" "EvalOperand ir ?st rp = Some r"
    using w(2) by (auto simp: bind_eq_Some_conv)
  have t: "TypeBits (ret_type (ir d)) = Some b" "GetArg_Value (ir d) 0 = Some lv"
    using ready by (simp_all add: alu_ready_def)
  obtain fl where fl: "SaveGuestFlags ir ?st d f (host_cpu_flags s) = Some fl"
    using SaveGuestFlags_total [OF t rp] by blast
  have "RunInst env ir i ?st s = Some (?st, s\<lparr>host_cpu_flags := fl\<rparr>)"
    using cap fl by (auto simp: captures_def captures_flags_def RunInst_def run_defs on_state_def)
  from that [OF run this fl rp w(1,3) t] show ?thesis .
qed

text \<open>C5. A subtraction followed by a capture of N, Z, C and V and by a test of any condition code
  compares the two operands at the width of the instruction: equality, the unsigned and the signed
  orders, the sign of the difference and signed overflow.\<close>

theorem compare_then_condition:
  assumes "op_code (ir d) = Calc Sub" and "alu_ready ir d st b lv r" and "0 < b" "b \<le> 64"
    and "captures ir i d f" and "has_flag f Flags_Negate" "has_flag f Flags_Zero"
      "has_flag f Flags_Carry" "has_flag f Flags_Overflow"
  shows "\<exists>st' s'. RunInst env ir d st s = Some (st', s) \<and> RunInst env ir i st' s = Some (st', s') \<and>
    EvalCondition c (host_cpu_flags s') = cmp_spec c b (ReadScalar ir st lv) r"
proof -
  have "RunInst env ir d st s = Some (write_value ir st d (ReadScalar ir st lv - r), s)"
    using assms(1) by (simp add: RunInst_def RunSub_def alu_run [OF assms(2)] on_stack_def)
  then show ?thesis
  proof (rule alu_capture [OF assms(2,5)])
    fix st' fl rp
    assume a: "RunInst env ir d st s = Some (st', s)"
      "RunInst env ir i st' s = Some (st', s\<lparr>host_cpu_flags := fl\<rparr>)"
      and fl: "SaveGuestFlags ir st' d f (host_cpu_flags s) = Some fl"
      and b: "GetArg_Operand (ir d) 1 = Some rp" "EvalOperand ir st' rp = Some r"
        "ReadScalar ir st' lv = ReadScalar ir st lv" "ReadScalar ir st' (Value d VOID) = (ReadScalar ir st lv - r) AND MaskBits b"
        "TypeBits (ret_type (ir d)) = Some b" "GetArg_Value (ir d) 0 = Some lv"
    have "EvalCondition c fl = cmp_spec c b (ReadScalar ir st' lv) r"
      by (rule SaveGuestFlags_sub_cond [OF assms(1) b(5) assms(3,4) b(6,1,2) _ assms(6-9) fl]) (simp add: b(3,4))
    then show ?thesis using a b(3) by auto
  qed
qed

theorem compare_then_condition_witness:
  "alu_ready (sample_alu Sub all_nzcv) 2 sample_alu_stack 32 (val 0) 7 \<and>
   (\<exists>st' s'. RunInst sample_env (sample_alu Sub all_nzcv) 2 sample_alu_stack sample_state = Some (st', sample_state) \<and>
      RunInst sample_env (sample_alu Sub all_nzcv) 3 st' sample_state = Some (st', s') \<and>
      EvalCondition LT (host_cpu_flags s') = cmp_spec LT 32 (ReadScalar (sample_alu Sub all_nzcv) sample_alu_stack (val 0)) 7)"
proof -
  have r: "alu_ready (sample_alu Sub all_nzcv) 2 sample_alu_stack 32 (val 0) 7"
     by code_simp
  have c: "captures (sample_alu Sub all_nzcv) 3 2 all_nzcv" by code_simp
  show ?thesis by (intro conjI r compare_then_condition [OF _ r _ _ c]) code_simp+
qed

lemma captured_parity:
  assumes "SaveGuestFlags ir st d f fl = Some fl'" "TypeBits (ret_type (ir d)) = Some b" "0 < b" "b \<le> 64"
    and "has_flag f Flags_Parity"
  shows "TestGuestFlags Flags_Parity fl' = even (popcount8 (ucast (ReadScalar ir st (Value d VOID))))"
proof -
  have "bit fl' k = bit (ReadScalar ir st (Value d VOID)) k" if "k < 8" for k
    using SaveGuestFlags_bits [OF assms(1-4), of k] assms(5) that
    by (simp add: store_parity_bits kHostAF_def)
  then show ?thesis by (simp add: TestGuestFlags_single popcount8_parity bit_ucast_iff)
qed

lemma popcount8_take: "8 \<le> b \<Longrightarrow> popcount8 (ucast (take_bit b x :: u64)) = popcount8 (ucast x)"
  by (auto simp: popcount8_def bit_ucast_iff bit_take_bit_iff intro!: arg_cong [where f = sum_list])

lemma nibble_take: "4 \<le> b \<Longrightarrow> uint (take_bit b x :: u64) mod 16 = uint x mod 16"
proof -
  assume b: "4 \<le> b"
  have "uint (take_bit b x) mod 2 ^ 4 = uint x mod 2 ^ 4"
    using b by (simp only: unsigned_take_bit_eq take_bit_eq_mod [symmetric] take_bit_take_bit min_absorb1)
  then show ?thesis by simp
qed

text \<open>C14. An addition, with or without carry in, followed by a capture of its flags: each requested
  flag gets its arithmetic meaning at the width of the instruction.  N is the sign of the sum, Z
  its vanishing, C the unsigned carry out, V signed overflow, the parity flag tests as even parity
  of the low byte, and AF is the carry between the low nibbles.\<close>

theorem add_then_flags:
  assumes op: "op_code (ir d) = Calc Add \<and> cin = 0 \<or>
      op_code (ir d) = Calc Adc \<and> cin = flag_carry_in (host_cpu_flags s)"
    and ready: "alu_ready ir d st b lv r" and b: "8 \<le> b" "b \<le> 64" and cap: "captures ir i d f"
  defines "l' \<equiv> take_bit b (ReadScalar ir st lv)" and "r' \<equiv> take_bit b r"
  shows "\<exists>st' fl. RunInst env ir d st s = Some (st', s) \<and>
    RunInst env ir i st' s = Some (st', s\<lparr>host_cpu_flags := fl\<rparr>) \<and>
    ReadScalar ir st' (Value d VOID) = take_bit b (l' + r' + cin) \<and>
    (has_flag f Flags_Negate \<longrightarrow> TestGuestFlags Flags_Negate fl = (sval b (l' + r' + cin) < 0)) \<and>
    (has_flag f Flags_Zero \<longrightarrow> TestGuestFlags Flags_Zero fl = (take_bit b (l' + r' + cin) = 0)) \<and>
    (has_flag f Flags_Carry \<longrightarrow> TestGuestFlags Flags_Carry fl = (2 ^ b \<le> uint l' + uint r' + uint cin)) \<and>
    (has_flag f Flags_Overflow \<longrightarrow> TestGuestFlags Flags_Overflow fl =
      (\<not> (- (2 ^ (b - 1)) \<le> sval b l' + sval b r' + uint cin \<and> sval b l' + sval b r' + uint cin < 2 ^ (b - 1)))) \<and>
    (has_flag f Flags_Parity \<longrightarrow> TestGuestFlags Flags_Parity fl = even (popcount8 (ucast (l' + r' + cin)))) \<and>
    (has_flag f Flags_AuxiliaryCarry \<longrightarrow> TestGuestFlags Flags_AuxiliaryCarry fl =
      (16 \<le> uint l' mod 16 + uint r' mod 16 + uint cin))"
proof -
  define x where "x = ReadScalar ir st lv + r + cin"
  have c: "take_bit b x = take_bit b (l' + r' + cin)"
    using take_bit_sum_u64 [OF b(2)] by (simp add: x_def l'_def r'_def)
  have pc: "popcount8 (ucast (take_bit b x)) = popcount8 (ucast (l' + r' + cin))"
    unfolding c by (rule popcount8_take [OF b(1)])
  have "RunInst env ir d st s = Some (write_value ir st d x, s)"
    using op by (auto simp: RunInst_def RunAdd_def RunAdc_def alu_run [OF ready] on_stack_def x_def)
  then show ?thesis
  proof (rule alu_capture [OF ready cap])
    fix st' fl rp
    assume a: "RunInst env ir d st s = Some (st', s)"
      "RunInst env ir i st' s = Some (st', s\<lparr>host_cpu_flags := fl\<rparr>)"
      and fl: "SaveGuestFlags ir st' d f (host_cpu_flags s) = Some fl"
      and g: "GetArg_Operand (ir d) 1 = Some rp" "EvalOperand ir st' rp = Some r"
        "ReadScalar ir st' lv = ReadScalar ir st lv" "ReadScalar ir st' (Value d VOID) = x AND MaskBits b"
        "TypeBits (ret_type (ir d)) = Some b" "GetArg_Value (ir d) 0 = Some lv"
    have res: "ReadScalar ir st' (Value d VOID) = (ReadScalar ir st' lv + r + cin) AND MaskBits b"
      by (simp add: g x_def)
    have b0: "0 < b" using b by simp
    note F = SaveGuestFlags_add_flags [OF op g(5) b0 b(2) g(6,1,2) res fl, unfolded g(3), folded l'_def r'_def]
    note A = SaveGuestFlags_af [OF op g(5) b g(6,1,2) res _ fl, unfolded g(3)]
    note P = captured_parity [OF fl g(5) b0 b(2)]
    have r: "ReadScalar ir st' (Value d VOID) = take_bit b x" by (simp add: g take_bit_MaskBits)
    have nib: "uint l' mod 16 = uint (ReadScalar ir st lv) mod 16" "uint r' mod 16 = uint r mod 16"
      using b nibble_take by (simp_all add: l'_def r'_def)
    show ?thesis
      using a F A P by (intro exI [of _ st'] exI [of _ fl])
        (simp add: TestGuestFlags_single(1-5) r pc nib c [symmetric])
  qed
qed

text \<open>C15. A subtraction, with or without borrow in, followed by a capture of its flags: each requested
  flag gets its arithmetic meaning at the width of the instruction.  N is the sign of the
  difference, Z its vanishing, C the absence of an unsigned borrow, V signed overflow, the parity flag tests as even parity
  of the low byte, and AF is the borrow between the low nibbles.\<close>

theorem sub_then_flags:
  assumes op: "op_code (ir d) = Calc Sub \<and> bin = 0 \<or>
      op_code (ir d) = Calc Sbb \<and> bin = 1 - flag_carry_in (host_cpu_flags s)"
    and ready: "alu_ready ir d st b lv r" and b: "8 \<le> b" "b \<le> 64" and cap: "captures ir i d f"
  defines "l' \<equiv> take_bit b (ReadScalar ir st lv)" and "r' \<equiv> take_bit b r"
  shows "\<exists>st' fl. RunInst env ir d st s = Some (st', s) \<and>
    RunInst env ir i st' s = Some (st', s\<lparr>host_cpu_flags := fl\<rparr>) \<and>
    ReadScalar ir st' (Value d VOID) = take_bit b (l' - r' - bin) \<and>
    (has_flag f Flags_Negate \<longrightarrow> TestGuestFlags Flags_Negate fl = (sval b (l' - r' - bin) < 0)) \<and>
    (has_flag f Flags_Zero \<longrightarrow> TestGuestFlags Flags_Zero fl = (take_bit b (l' - r' - bin) = 0)) \<and>
    (has_flag f Flags_Carry \<longrightarrow> TestGuestFlags Flags_Carry fl = (uint r' + uint bin \<le> uint l')) \<and>
    (has_flag f Flags_Overflow \<longrightarrow> TestGuestFlags Flags_Overflow fl =
      (\<not> (- (2 ^ (b - 1)) \<le> sval b l' - sval b r' - uint bin \<and> sval b l' - sval b r' - uint bin < 2 ^ (b - 1)))) \<and>
    (has_flag f Flags_Parity \<longrightarrow> TestGuestFlags Flags_Parity fl = even (popcount8 (ucast (l' - r' - bin)))) \<and>
    (has_flag f Flags_AuxiliaryCarry \<longrightarrow> TestGuestFlags Flags_AuxiliaryCarry fl =
      (uint l' mod 16 < uint r' mod 16 + uint bin))"
proof -
  define x where "x = ReadScalar ir st lv - r - bin"
  have c: "take_bit b x = take_bit b (l' - r' - bin)"
    using take_bit_diff_u64' [OF b(2)] by (simp add: x_def l'_def r'_def)
  have pc: "popcount8 (ucast (take_bit b x)) = popcount8 (ucast (l' - r' - bin))"
    unfolding c by (rule popcount8_take [OF b(1)])
  have "RunInst env ir d st s = Some (write_value ir st d x, s)"
    using op by (auto simp: RunInst_def RunSub_def RunSbb_def alu_run [OF ready] on_stack_def x_def)
  then show ?thesis
  proof (rule alu_capture [OF ready cap])
    fix st' fl rp
    assume a: "RunInst env ir d st s = Some (st', s)"
      "RunInst env ir i st' s = Some (st', s\<lparr>host_cpu_flags := fl\<rparr>)"
      and fl: "SaveGuestFlags ir st' d f (host_cpu_flags s) = Some fl"
      and g: "GetArg_Operand (ir d) 1 = Some rp" "EvalOperand ir st' rp = Some r"
        "ReadScalar ir st' lv = ReadScalar ir st lv" "ReadScalar ir st' (Value d VOID) = x AND MaskBits b"
        "TypeBits (ret_type (ir d)) = Some b" "GetArg_Value (ir d) 0 = Some lv"
    have res: "ReadScalar ir st' (Value d VOID) = (ReadScalar ir st' lv - r - bin) AND MaskBits b"
      by (simp add: g x_def)
    have b0: "0 < b" using b by simp
    note F = SaveGuestFlags_sbb_flags [OF op g(5) b0 b(2) g(6,1,2) res fl, unfolded g(3), folded l'_def r'_def]
    note A = SaveGuestFlags_af_sub [OF op g(5) b g(6,1,2) res _ fl, unfolded g(3)]
    note P = captured_parity [OF fl g(5) b0 b(2)]
    have r: "ReadScalar ir st' (Value d VOID) = take_bit b x" by (simp add: g take_bit_MaskBits)
    have nib: "uint l' mod 16 = uint (ReadScalar ir st lv) mod 16" "uint r' mod 16 = uint r mod 16"
      using b nibble_take by (simp_all add: l'_def r'_def)
    show ?thesis
      using a F A P by (intro exI [of _ st'] exI [of _ fl])
        (simp add: TestGuestFlags_single(1-5) r pc nib c [symmetric])
  qed
qed

theorem add_then_flags_witness:
  "alu_ready (sample_alu Add Flags_All) 2 sample_alu_stack 32 (val 0) 7 \<and>
   (\<exists>st' fl. RunInst sample_env (sample_alu Add Flags_All) 2 sample_alu_stack sample_state = Some (st', sample_state) \<and>
      RunInst sample_env (sample_alu Add Flags_All) 3 st' sample_state = Some (st', sample_state\<lparr>host_cpu_flags := fl\<rparr>) \<and>
      TestGuestFlags Flags_Carry fl \<and> \<not> TestGuestFlags Flags_Zero fl)"
proof -
  have r: "alu_ready (sample_alu Add Flags_All) 2 sample_alu_stack 32 (val 0) 7" by code_simp
  have c: "captures (sample_alu Add Flags_All) 3 2 Flags_All" by code_simp
  have o: "op_code (sample_alu Add Flags_All 2) = Calc Add \<and> (0::u64) = 0 \<or>
      op_code (sample_alu Add Flags_All 2) = Calc Adc \<and> 0 = flag_carry_in (host_cpu_flags sample_state)" by code_simp
  have v: "ReadScalar (sample_alu Add Flags_All) sample_alu_stack (val 0) = 0xFFFFFFFD" by code_simp
  have f: "has_flag Flags_All Flags_Carry" "has_flag Flags_All Flags_Zero" by code_simp+
  show ?thesis
    using r f add_then_flags [OF o r _ _ c, of sample_env] unfolding v by auto
qed

theorem sub_then_flags_witness:
  "alu_ready (sample_alu Sbb Flags_All) 2 sample_alu_stack 32 (val 0) 7 \<and>
   (\<exists>st' fl. RunInst sample_env (sample_alu Sbb Flags_All) 2 sample_alu_stack sample_state = Some (st', sample_state) \<and>
      RunInst sample_env (sample_alu Sbb Flags_All) 3 st' sample_state = Some (st', sample_state\<lparr>host_cpu_flags := fl\<rparr>) \<and>
      TestGuestFlags Flags_Carry fl \<and> \<not> TestGuestFlags Flags_Zero fl)"
proof -
  have r: "alu_ready (sample_alu Sbb Flags_All) 2 sample_alu_stack 32 (val 0) 7" by code_simp
  have c: "captures (sample_alu Sbb Flags_All) 3 2 Flags_All" by code_simp
  have o: "op_code (sample_alu Sbb Flags_All 2) = Calc Sub \<and> (1::u64) = 0 \<or>
      op_code (sample_alu Sbb Flags_All 2) = Calc Sbb \<and> 1 = 1 - flag_carry_in (host_cpu_flags sample_state)" by code_simp
  have v: "ReadScalar (sample_alu Sbb Flags_All) sample_alu_stack (val 0) = 0xFFFFFFFD" by code_simp
  have f: "has_flag Flags_All Flags_Carry" "has_flag Flags_All Flags_Zero" by code_simp+
  show ?thesis
    using r f sub_then_flags [OF o r _ _ c, of sample_env] unfolding v by auto
qed

section \<open>Frame of a capture, testing and clearing\<close>

definition flag_singles :: "u64 list" where
  "flag_singles = [Flags_Negate, Flags_Zero, Flags_Carry, Flags_Overflow, Flags_AuxiliaryCarry, Flags_Parity]"

lemma SaveGuestFlags_frame:
  assumes run: "SaveGuestFlags ir st d f fl = Some fl'" and F: "F \<in> set flag_singles" "\<not> has_flag f F"
  shows "TestGuestFlags F fl' = TestGuestFlags F fl"
proof -
  obtain b where b: "TypeBits (ret_type (ir d)) = Some b" using run by (auto simp: SaveGuestFlags_def bind_eq_Some_conv)
  show ?thesis
  proof (cases "b = 0 \<or> 64 < b")
    case True
    then show ?thesis using run b by (simp add: SaveGuestFlags_def)
  next
    case False
    then have bb: "0 < b" "b \<le> 64" by auto
    note bits = SaveGuestFlags_bits [OF run b bb, unfolded store_parity_bits store_cv_bits store_nz_bits]
    have "F \<noteq> Flags_AuxiliaryCarry \<Longrightarrow> TestGuestFlags F fl' = TestGuestFlags F fl"
      using F bits by (auto simp: flag_singles_def TestGuestFlags_single popcount8_parity bit_ucast_iff
          host_flag_bits split: option.splits prod.splits)
    moreover have "TestGuestFlags F fl' = TestGuestFlags F fl" if "F = Flags_AuxiliaryCarry"
      using run b False F that
      by (auto simp: SaveGuestFlags_def Let_def TestGuestFlags_single store_parity_bits store_cv_bits store_nz_bits
          host_flag_bits bind_eq_Some_conv split: if_splits option.splits prod.splits)
    ultimately show ?thesis by blast
  qed
qed

text \<open>C16. A flag capture writes nothing but the host flag word, and in it leaves every flag that was
  not requested testing as before.\<close>

theorem capture_frame:
  assumes "captures ir i d f" and "RunInst env ir i st s = Some (st', s')"
  shows "st' = st \<and> s' = s\<lparr>host_cpu_flags := host_cpu_flags s'\<rparr> \<and>
    (\<forall>F \<in> set flag_singles. \<not> has_flag f F \<longrightarrow>
      TestGuestFlags F (host_cpu_flags s') = TestGuestFlags F (host_cpu_flags s))"
proof -
  have "RunInst env ir i st s =
      on_state st (do { fl \<leftarrow> SaveGuestFlags ir st d f (host_cpu_flags s); Some (s\<lparr>host_cpu_flags := fl\<rparr>) })"
    using assms(1) by (auto simp: captures_def captures_flags_def RunInst_def run_defs)
  then obtain fl where fl: "SaveGuestFlags ir st d f (host_cpu_flags s) = Some fl" "st' = st" "s' = s\<lparr>host_cpu_flags := fl\<rparr>"
    using assms(2) by (cases "SaveGuestFlags ir st d f (host_cpu_flags s)") (auto simp: on_state_def)
  then show ?thesis using SaveGuestFlags_frame [OF fl(1)] by simp
qed

theorem capture_frame_witness:
  "\<exists>st' s'. RunInst sample_env (sample_alu Sub Flags_Zero) 3 sample_alu_stack sample_state = Some (st', s') \<and>
     st' = sample_alu_stack \<and>
     TestGuestFlags Flags_Carry (host_cpu_flags s') = TestGuestFlags Flags_Carry (host_cpu_flags sample_state)"
proof -
  have c: "captures (sample_alu Sub Flags_Zero) 3 2 Flags_Zero" by code_simp
  have "RunInst sample_env (sample_alu Sub Flags_Zero) 3 sample_alu_stack sample_state \<noteq> None" by code_simp
  then obtain st' s' where r: "RunInst sample_env (sample_alu Sub Flags_Zero) 3 sample_alu_stack sample_state = Some (st', s')"
    by auto
  have "Flags_Carry \<in> set flag_singles" "\<not> has_flag Flags_Zero Flags_Carry" by (simp_all add: flag_singles_def)
  then show ?thesis using r capture_frame [OF c r] by blast
qed

lemma ClearGuestFlags_test:
  assumes "F \<in> set flag_singles"
  shows "TestGuestFlags F (ClearGuestFlags f fl) = (\<not> has_flag f F \<and> TestGuestFlags F fl)"
proof (cases "has_flag f F")
  case True
  then show ?thesis using TestGuestFlags_cleared [of F f fl] assms by (auto simp: flag_singles_def)
next
  case False
  have "F \<in> {Flags_Negate, Flags_Zero, Flags_Carry, Flags_Overflow, Flags_AuxiliaryCarry, Flags_Parity}"
    using assms by (auto simp: flag_singles_def)
  then show ?thesis using False
    by (elim insertE emptyE)
      (simp_all add: TestGuestFlags_single ClearGuestFlags_bits popcount8_parity bit_ucast_iff)
qed

text \<open>C17. Clearing flags makes exactly the requested ones test as false: every other flag tests as
  before, and nothing but the host flag word changes.  Parity is cleared by leaving a byte of odd
  parity.\<close>

theorem clear_then_test:
  assumes "op_code (ir i) = Flag ClearFlags" and "GetArg_Flags (ir i) 0 = Some f"
  shows "\<exists>fl. RunInst env ir i st s = Some (st, s\<lparr>host_cpu_flags := fl\<rparr>) \<and>
    (\<forall>F \<in> set flag_singles. TestGuestFlags F fl = (\<not> has_flag f F \<and> TestGuestFlags F (host_cpu_flags s)))"
  using assms by (auto simp: RunInst_def run_defs on_state_def ClearGuestFlags_test)

theorem clear_then_test_witness:
  "\<exists>fl. RunInst sample_env (sample_ir [sample_inst (Flag ClearFlags) VOID 0 [AFlags Flags_NZCV]]) 0 sample_alu_stack sample_state =
      Some (sample_alu_stack, sample_state\<lparr>host_cpu_flags := fl\<rparr>) \<and> \<not> TestGuestFlags Flags_Zero fl"
proof -
  let ?ir = "sample_ir [sample_inst (Flag ClearFlags) VOID 0 [AFlags Flags_NZCV]]"
  have "op_code (?ir 0) = Flag ClearFlags" "GetArg_Flags (?ir 0) 0 = Some Flags_NZCV" by code_simp+
  from clear_then_test [of ?ir 0 Flags_NZCV sample_env sample_alu_stack sample_state, OF this]
  obtain fl where fl: "RunInst sample_env ?ir 0 sample_alu_stack sample_state = Some (sample_alu_stack, sample_state\<lparr>host_cpu_flags := fl\<rparr>)"
    "\<forall>F \<in> set flag_singles. TestGuestFlags F fl = (\<not> has_flag Flags_NZCV F \<and> TestGuestFlags F (host_cpu_flags sample_state))"
    by blast
  have "Flags_Zero \<in> set flag_singles" "has_flag Flags_NZCV Flags_Zero" by code_simp+
  then have "\<not> TestGuestFlags Flags_Zero fl" using fl(2) by blast
  with fl(1) show ?thesis by blast
qed

end
