(* ===== verification/Scalar_Correct.thy ===== *)
theory Scalar_Correct
  imports Interp_Correct "HOL-Library.Signed_Division"
begin

text \<open>
  Properties of the scalar handlers: division, the 128-bit division and multiplication helpers of
  \<^verbatim>\<open>common/div128.cpp\<close>, shifts, rotates, bit fields and byte swaps.  Each is stated on
  the instruction, with its result read back from the value stack.
\<close>

section \<open>Division and multiplication\<close>

lemma sval_bounds:
  assumes "0 < b" "b \<le> 64"
  shows "- (2 ^ (b - 1)) \<le> sval b x" "sval b x < 2 ^ (b - 1)"
  by (simp_all add: sval_def signed_take_bit_int_greater_eq_minus_exp signed_take_bit_int_less_exp)

lemma SignExtendTo_sval:
  assumes "0 < b" "b \<le> 64" "take_bit b x = x"
  shows "SignExtendTo x b = word_of_int (sval b x)"
proof (cases "b < 64")
  case True
  show ?thesis
    using assms True exp_split [OF assms(1), where 'a = u64] top_bit_iff [OF assms]
    by (simp add: SignExtendTo_if sval_eq)
next
  case False
  then have b: "b = 64" using assms by simp
  have "sval 64 x = sint x" by (simp add: sval_def sint_uint)
  then show ?thesis by (simp add: SignExtendTo_def b)
qed

lemma take_bit_u64_self: "uint (w::u64) < 2 ^ b \<Longrightarrow> take_bit b w = w"
  by (rule word_uint_eqI) (simp add: unsigned_take_bit_eq take_bit_int_eq_self)

lemma sint_word_of_int:
  assumes "0 < b" "b \<le> 64" "- (2 ^ (b - 1)) \<le> i" "i < 2 ^ (b - 1)"
  shows "sint (word_of_int i :: u64) = i"
proof -
  have "(2::int) ^ (b - 1) \<le> 2 ^ 63" using assms(2) by (intro power_increasing) auto
  then show ?thesis using assms(3,4) by (simp add: signed_of_int signed_take_bit_int_eq_self)
qed

lemma sint_SignExtendTo:
  assumes "0 < b" "b \<le> 64" "take_bit b x = x"
  shows "sint (SignExtendTo x b) = sval b x"
  unfolding SignExtendTo_sval [OF assms] by (rule sint_word_of_int [OF assms(1,2) sval_bounds [OF assms(1,2)]])

section \<open>Division\<close>

lemma div_result_spec:
  assumes b: "0 < b" "b \<le> 64" and l: "take_bit b l = l" and r: "take_bit b r = r"
  shows "take_bit b (div_result sg b l r) =
    (if r = 0 then 0
     else if sg then take_bit b (word_of_int (sval b l sdiv sval b r))
     else l div r)"
proof -
  have "uint (l div r) \<le> uint l" 
    using zdiv_mono2 [of "uint l" 1 "uint r"] uint_ge_0 [of r] by (cases "uint r = 0") (simp_all add: uint_div)
  then have q: "take_bit b (l div r) = l div r"
    using uint_less_exp [OF l] by (intro take_bit_u64_self) simp
  have "sval b l sdiv - 1 = - sval b l" by (simp add: signed_divide_int_def sgn_mult_abs)
  then have n: "word_of_int (sval b l sdiv - 1) = (0 - SignExtendTo l b :: u64)"
    by (simp add: SignExtendTo_sval [OF b l])
  show ?thesis
    using q n by (simp add: div_result_def Let_def sint_SignExtendTo [OF b l] sint_SignExtendTo [OF b r] take_bit_MaskBits)
qed

text \<open>C22. A division instruction writes, at its width, the quotient truncated towards zero: of the
  unsigned values, or of the two's complement values for a signed type, wrapping for the one
  quotient that does not fit; a zero divisor gives zero.\<close>

theorem div_instruction:
  assumes "op_code (ir i) = Calc Div" and ready: "alu_ready ir i st b lv r" and b: "0 < b" "b \<le> 64"
    and "TypeBits (Value_Type ir lv) = Some b"
  defines "l' \<equiv> take_bit b (ReadScalar ir st lv)" and "r' \<equiv> take_bit b r"
  shows "\<exists>st'. RunInst env ir i st s = Some (st', s) \<and>
    ReadScalar ir st' (Value i VOID) =
      (if r' = 0 then 0
       else if IsSignValueType (Value_Type ir lv) then take_bit b (word_of_int (sval b l' sdiv sval b r'))
       else l' div r')"
proof -
  let ?x = "div_result (IsSignValueType (Value_Type ir lv)) b l' r'"
  have "RunInst env ir i st s = Some (write_value ir st i ?x, s)"
    using assms by (auto simp: RunInst_def RunDiv_def WriteScalar_total on_stack_def alu_ready_def bind_eq_Some_conv
        take_bit_MaskBits)
  moreover have "ReadScalar ir (write_value ir st i ?x) (Value i VOID) = take_bit b ?x"
    using alu_write(3) [OF ready] by (simp add: take_bit_MaskBits)
  moreover have "take_bit b l' = l'" "take_bit b r' = r'" by (simp_all add: l'_def r'_def)
  ultimately show ?thesis using div_result_spec [OF b, of l' r'] by simp
qed

definition sample_div :: "ValueType \<Rightarrow> IR" where
  "sample_div t = sample_ir [
     sample_inst (Help LoadImm) t 0 [AImm (imm32 0x80000000)],
     sample_inst (Help LoadImm) t 1 [AImm (imm32 0xFFFFFFFF)],
     sample_inst (Calc Div) t 2 (AValue (val 0) # reg_operand 1)]"

theorem div_instruction_witness:
  "\<exists>st'. RunInst sample_env (sample_div S32) 2 (sample_stack [0x80000000, 0, 0xFFFFFFFF]) sample_state = Some (st', sample_state) \<and>
     ReadScalar (sample_div S32) st' (val 2) = 0x80000000"
proof -
  let ?st = "sample_stack [0x80000000, 0, 0xFFFFFFFF]"
  have r: "alu_ready (sample_div S32) 2 ?st 32 (val 0) 0xFFFFFFFF" by code_simp
  have o: "op_code (sample_div S32 2) = Calc Div" "TypeBits (Value_Type (sample_div S32) (val 0)) = Some 32" by code_simp+
  have v: "ReadScalar (sample_div S32) ?st (val 0) = 0x80000000" "IsSignValueType (Value_Type (sample_div S32) (val 0))" by code_simp+
  have e: "take_bit 32 (word_of_int (sval 32 (take_bit 32 0x80000000) sdiv sval 32 (take_bit 32 0xFFFFFFFF)) :: u64) = 0x80000000"
    by code_simp
  show ?thesis using div_instruction [OF o(1) r _ _ o(2), of sample_env sample_state] unfolding v(1) using v(2) e by simp
qed

section \<open>128-bit division and multiplication\<close>

lemma uint_u64: "0 \<le> uint (x::u64)" "uint x < 2 ^ 64"
  using uint_lt2p [of x] by simp_all

lemma uint_dividend128: "uint (dividend128 h l) = uint h * 2 ^ 64 + uint l"
proof -
  have "dividend128 h l = push_bit 64 (ucast h) + ucast l"
    unfolding dividend128_def
    by (rule disjunctive_add [symmetric]) (auto simp: bit_push_bit_iff bit_ucast_iff dest: bit_imp_le_length)
  moreover have "uint (push_bit 64 (ucast h :: u128)) = uint h * 2 ^ 64"
    using uint_u64 [of h] by (simp add: push_bit_eq_mult uint_word_ariths)
  ultimately show ?thesis using uint_u64 [of h] uint_u64 [of l] by (simp add: uint_word_ariths)
qed

lemma uint_ucast64: "uint (w::u128) < 2 ^ 64 \<Longrightarrow> uint (ucast w :: u64) = uint w"
  by (simp add: unsigned_ucast_eq take_bit_int_eq_self)

lemma signed_take_bit_cases:
  fixes k :: int
  assumes "0 \<le> k" "k < 2 * 2 ^ n"
  shows "signed_take_bit n k = (if k < 2 ^ n then k else k - 2 * 2 ^ n)"
proof -
  have "signed_take_bit n k = (k + 2 ^ n) mod (2 * 2 ^ n) - 2 ^ n"
    by (simp add: signed_take_bit_eq_take_bit_shift take_bit_eq_mod)
  then show ?thesis
    using assms mod_pos_pos_trivial [of "k + 2 ^ n" "2 * 2 ^ n"] mod_sub_once [of "2 * 2 ^ n" "k + 2 ^ n"] by auto
qed

lemma sint_cases:
  "sint (x::u64) = (if uint x < 2 ^ 63 then uint x else uint x - 2 ^ 64)"
  "sint (y::u128) = (if uint y < 2 ^ 127 then uint y else uint y - 2 ^ 128)"
  using signed_take_bit_cases [of "uint x" 63] signed_take_bit_cases [of "uint y" 127] uint_lt2p [of x] uint_lt2p [of y]
  by (simp_all add: sint_uint)

lemma sint_dividend128: "sint (dividend128 h l) = sint h * 2 ^ 64 + uint l"
proof (cases "uint h < 2 ^ 63")
  case True
  then have "uint h * 2 ^ 64 + uint l < 2 ^ 127" using uint_u64 [of l] by simp
  with True show ?thesis by (simp add: sint_cases uint_dividend128)
next
  case False
  then have "2 ^ 127 \<le> uint h * 2 ^ 64 + uint l" by (intro add_increasing2 [OF uint_u64(1)]) simp
  with False show ?thesis by (simp add: sint_cases uint_dividend128)
qed

lemma sdiv_smod_bounds:
  fixes S D :: int
  assumes "D \<noteq> 0"
  shows "S = (S sdiv D) * D + S smod D" "\<bar>S smod D\<bar> < \<bar>D\<bar>"
proof -
  show "S = (S sdiv D) * D + S smod D" by (simp add: sdiv_mult_smod_eq)
  show "\<bar>S smod D\<bar> < \<bar>D\<bar>" using assms by (simp add: smod_int_alt_def abs_mult abs_sgn_eq)
qed

lemma int_div_less:
  fixes S d M :: int
  assumes "0 < d" "S < d * M"
  shows "S div d < M"
proof (rule ccontr)
  assume "\<not> S div d < M"
  then have "d * M \<le> d * (S div d)" using assms(1) by (intro mult_left_mono) simp_all
  also have "\<dots> \<le> S" using mult_div_mod_eq [of d S] pos_mod_sign [OF assms(1), of S] by linarith
  finally show False using assms(2) by simp
qed

lemma DivideUnsigned128_exact:
  assumes hd: "uint h < uint d" and qr: "DivideUnsigned128 h l d = (q, r)"
  shows "uint h * 2 ^ 64 + uint l = uint q * uint d + uint r" "uint r < uint d"
proof -
  let ?S = "uint h * 2 ^ 64 + uint l"
  have d0: "0 < uint d" using hd uint_u64(1) [of h] by linarith
  have "?S < uint d * 2 ^ 64" using hd uint_u64(2) [of l] by simp
  then have a: "?S div uint d < 2 ^ 64" using d0 by (intro int_div_less)
  have m: "?S mod uint d < uint d" using d0 by simp
  then have m64: "?S mod uint d < 2 ^ 64" using uint_u64(2) [of d] by (rule less_trans)
  have "uint q = ?S div uint d" "uint r = ?S mod uint d"
    using qr d0 a m64
    by (auto simp: DivideUnsigned128_def uint_ucast64 uint_div uint_mod uint_dividend128 split: if_splits)
  then show "?S = uint q * uint d + uint r" "uint r < uint d" using m by simp_all
qed

lemma DivideSigned128_exact:
  fixes h l d :: u64
  defines "S \<equiv> sint h * 2 ^ 64 + uint l"
  assumes d: "d \<noteq> 0" and fit: "- (2 ^ 63) \<le> S sdiv sint d" "S sdiv sint d < 2 ^ 63"
    and qr: "DivideSigned128 h l d = (q, r)"
  shows "S = sint q * sint d + sint r" "\<bar>sint r\<bar> < \<bar>sint d\<bar>"
proof -
  have d': "sint d \<noteq> 0" using d by (simp add: signed_eq_0_iff)
  have ov: "\<not> (sint d = - 1 \<and> h = push_bit 63 1 \<and> l = 0)" using fit by (auto simp: S_def sint_cases)
  have q: "q = word_of_int (S sdiv sint d)" and r: "r = word_of_int (S smod sint d)"
    using qr d' ov by (auto simp: DivideSigned128_def sint_dividend128 S_def)
  have "sint q = S sdiv sint d"
    unfolding q using fit sint_word_of_int [of 64] by simp
  moreover have "\<bar>sint d\<bar> \<le> 2 ^ 63" using uint_u64 [of d] by (auto simp: sint_cases)
  then have "sint r = S smod sint d"
    unfolding r using sdiv_smod_bounds(2) [OF d', of S] by (intro sint_word_of_int [of 64]) auto
  ultimately show "S = sint q * sint d + sint r" "\<bar>sint r\<bar> < \<bar>sint d\<bar>"
    using sdiv_smod_bounds [OF d', of S] by simp_all
qed

text \<open>C23. The 128-bit division helpers divide exactly: when the quotient fits 64 bits, dividend =
  quotient * divisor + remainder with a remainder smaller than the divisor, for unsigned and for
  signed operands (truncation towards zero); a zero divisor gives zeros.\<close>

theorem divide128_exact:
  "(uint h < uint d \<longrightarrow> (case DivideUnsigned128 h l d of (q, r) \<Rightarrow>
      uint h * 2 ^ 64 + uint l = uint q * uint d + uint r \<and> uint r < uint d)) \<and>
   (d \<noteq> 0 \<and> - (2 ^ 63) \<le> (sint h * 2 ^ 64 + uint l) sdiv sint d \<and> (sint h * 2 ^ 64 + uint l) sdiv sint d < 2 ^ 63 \<longrightarrow>
      (case DivideSigned128 h l d of (q, r) \<Rightarrow>
        sint h * 2 ^ 64 + uint l = sint q * sint d + sint r \<and> \<bar>sint r\<bar> < \<bar>sint d\<bar>)) \<and>
   DivideUnsigned128 h l 0 = (0, 0) \<and> DivideSigned128 h l 0 = (0, 0)"
proof (intro conjI impI)
  show "case DivideUnsigned128 h l d of (q, r) \<Rightarrow>
      uint h * 2 ^ 64 + uint l = uint q * uint d + uint r \<and> uint r < uint d" if "uint h < uint d"
    using DivideUnsigned128_exact [OF that] by (cases "DivideUnsigned128 h l d") auto
  show "case DivideSigned128 h l d of (q, r) \<Rightarrow>
      sint h * 2 ^ 64 + uint l = sint q * sint d + sint r \<and> \<bar>sint r\<bar> < \<bar>sint d\<bar>"
    if "d \<noteq> 0 \<and> - (2 ^ 63) \<le> (sint h * 2 ^ 64 + uint l) sdiv sint d \<and> (sint h * 2 ^ 64 + uint l) sdiv sint d < 2 ^ 63"
    using DivideSigned128_exact [of d h l] that by (cases "DivideSigned128 h l d") auto
qed (simp_all add: DivideUnsigned128_def DivideSigned128_def)

theorem divide128_exact_witness:
  "uint (5::u64) < uint (7::u64) \<and> (case DivideUnsigned128 5 9 7 of (q, r) \<Rightarrow>
      uint (5::u64) * 2 ^ 64 + uint (9::u64) = uint q * uint (7::u64) + uint r \<and> uint r < uint (7::u64))"
  using divide128_exact [of 5 7 9] by simp

section \<open>Multiplication\<close>

lemma drop_bit_128: "uint (ucast (drop_bit 64 (w::u128)) :: u64) = uint w div 2 ^ 64"
proof -
  have "uint w div 2 ^ 64 < 2 ^ 64" using uint_lt2p [of w] by (intro int_div_less) simp_all
  then show ?thesis by (simp add: uint_ucast64 uint_div drop_bit_eq_div)
qed

lemma sint_ucast_high: "sint (ucast (drop_bit 64 (w::u128)) :: u64) = sint w div 2 ^ 64"
proof -
  let ?h = "ucast (drop_bit 64 w) :: u64"
  have h: "uint ?h = uint w div 2 ^ 64" by (rule drop_bit_128)
  have "uint w div 2 ^ 64 < 2 ^ 63 \<longleftrightarrow> uint w < 2 ^ 127" by auto
  then show ?thesis using h by (auto simp: sint_cases)
qed

lemma sint_u64_bounds: "- (2 ^ 63) \<le> sint (x::u64)" "sint (x::u64) < 2 ^ 63"
  using sint_range_size [of x] by (simp_all add: word_size)

lemma sint_scast128: "sint (scast (x::u64) :: u128) = sint x"
  using sint_u64_bounds [of x] by (simp add: signed_scast_eq signed_take_bit_int_eq_self)

lemma uint_sint_mod: "uint (x::u64) = sint x mod 2 ^ 64"
  using uint_u64 [of x] by (auto simp: sint_cases)

text \<open>C24. The high half of a multiplication together with the low half is the full 128-bit product,
  for the unsigned and for the signed variant.\<close>

theorem mul_high_full_product:
  "uint (mul_high False l r) * 2 ^ 64 + uint (l * r) = uint l * uint r \<and>
   sint (mul_high True l r) * 2 ^ 64 + uint (l * r) = sint l * sint r"
proof
  have "uint l * uint r < 2 ^ 64 * 2 ^ 64" using uint_u64 by (intro mult_strict_mono) auto
  then have "uint ((ucast l :: u128) * ucast r) = uint l * uint r" by (simp add: uint_word_ariths)
  then have "uint (mul_high False l r) = uint l * uint r div 2 ^ 64" by (simp add: mul_high_def drop_bit_128)
  then show "uint (mul_high False l r) * 2 ^ 64 + uint (l * r) = uint l * uint r"
    by (simp add: uint_word_ariths)
  have "uint (l * r) = sint l * sint r mod 2 ^ 64"
    by (simp add: uint_word_ariths(3) uint_sint_mod [of l] uint_sint_mod [of r] mod_mult_eq)
  moreover have "\<bar>sint l * sint r\<bar> \<le> 2 ^ 63 * 2 ^ 63"
    using sint_u64_bounds [of l] sint_u64_bounds [of r] unfolding abs_mult by (intro mult_mono) auto
  then have "sint ((scast l :: u128) * scast r) = sint l * sint r"
    by (simp add: sint_word_ariths sint_scast128 signed_take_bit_int_eq_self abs_le_iff)
  ultimately show "sint (mul_high True l r) * 2 ^ 64 + uint (l * r) = sint l * sint r"
    by (simp add: mul_high_def sint_ucast_high)
qed

section \<open>Shifts and rotates\<close>

text \<open>A shift that is ready to run: a scalar result of \<open>b\<close> bits, the value \<open>lv\<close> and the count \<open>a\<close>.\<close>

definition shift_ready :: "IR \<Rightarrow> InstPtr \<Rightarrow> InterpStack \<Rightarrow> nat \<Rightarrow> Value \<Rightarrow> u64 \<Rightarrow> bool" where
  "shift_ready ir i st b lv a =
     (ret_type (ir i) \<noteq> VOID \<and> \<not> IsVector (ret_type (ir i)) \<and> TypeBits (ret_type (ir i)) = Some b \<and>
      TypeBits (Value_Type ir lv) = Some b \<and>
      GetArg_Value (ir i) 0 = Some lv \<and>
      (op_code (ir i) \<in> {Bit AsrImm, Bit AsrValue} \<longrightarrow> take_bit b (ReadScalar ir st lv) = ReadScalar ir st lv) \<and>
      (if op_code (ir i) \<in> {Bit LslImm, Bit LsrImm, Bit AsrImm, Bit RorImm}
       then imm_amount ir i st else value_amount ir i st) = Some a)"

text \<open>Bit \<open>n\<close> of a value shifted or rotated by \<open>k\<close> at width \<open>b\<close>.\<close>

definition shifted_bit :: "BitOp \<Rightarrow> nat \<Rightarrow> u64 \<Rightarrow> nat \<Rightarrow> nat \<Rightarrow> bool" where
  "shifted_bit op b v k n =
     (if op \<in> {LslImm, LslValue} then k \<le> n \<and> bit v (n - k)
      else if op \<in> {LsrImm, LsrValue} then n + k < b \<and> bit v (n + k)
      else if op \<in> {AsrImm, AsrValue} then bit v (min (n + k) (b - 1))
      else bit v ((n + k) mod b))"

lemma shift_amount_mod:
  assumes "b \<in> {8, 16, 32, 64}"
  shows "shift_amount b a = unat a mod b"
proof -
  obtain n where n: "b = 2 ^ n" "n < 64"
    using assms that [of 3] that [of 4] that [of 5] that [of 6] by auto
  then have "of_nat (b - 1) = (mask n :: u64)" by (simp add: mask_eq_exp_minus_1 of_nat_diff)
  then show ?thesis using n by (simp add: shift_amount_def unat_and_mask)
qed

lemma bit_SignExtendTo_min:
  assumes "0 < b" "b \<le> 64" "take_bit b x = x" "n < 64"
  shows "bit (SignExtendTo x b) n \<longleftrightarrow> bit x (min n (b - 1))"
  using assms(4) unfolding SignExtendTo_sval [OF assms(1-3)] sval_def
  by (simp add: bit_signed_take_bit_iff bit_uint_iff bit_of_int_iff min.commute) (use assms in auto)

lemma masked_bits:
  fixes v :: u64
  assumes "k < 64" "n < 64"
  shows "bit (push_bit k (v AND mask b)) n \<longleftrightarrow> k \<le> n \<and> n - k < b \<and> bit v (n - k)"
    and "bit (drop_bit k (v AND mask b)) n \<longleftrightarrow> n + k < b \<and> bit v (n + k)"
  using assms by (simp_all only: bit_push_bit_iff bit_drop_bit_eq o_apply bit_mask_and_iff add.commute) auto

lemma ror_bit:
  fixes v :: u64
  assumes "0 < k" "k < b" "b \<le> 64" "n < b"
  shows "bit (drop_bit k (v AND mask b) OR push_bit (b - k) (v AND mask b)) n \<longleftrightarrow>
    bit v (if n + k < b then n + k else n + k - b)"
proof -
  have "n - (b - k) = n + k - b" if "b \<le> n + k" using assms that by auto
  then show ?thesis using assms masked_bits [of k n v b] masked_bits [of "b - k" n v b]
    by (cases "n + k < b") (auto simp: bit_or_iff simp del: push_bit_and drop_bit_and)
qed

lemma wrap_mod: "(k::nat) < b \<Longrightarrow> n < b \<Longrightarrow> (n + k) mod b = (if n + k < b then n + k else n + k - b)"
  by (simp add: le_mod_geq)

lemma shift_bits:
  assumes b: "b \<in> {8, 16, 32, 64}" and n: "n < b"
  shows "\<exists>x. lsl_bits b v a = Some x \<and> (bit x n \<longleftrightarrow> unat a mod b \<le> n \<and> bit v (n - unat a mod b))"
    and "\<exists>x. lsr_bits b v a = Some x \<and> (bit x n \<longleftrightarrow> n + unat a mod b < b \<and> bit v (n + unat a mod b))"
    and "\<exists>x. ror_bits b v a = Some x \<and> (bit x n \<longleftrightarrow> bit v ((n + unat a mod b) mod b))"
proof -
  let ?k = "unat a mod b"
  have b': "0 < b" "b \<le> 64" using b by auto
  have k: "?k < b" using b' by simp
  then have k': "?k < 64" "n < 64" using b' n by linarith+
  note d = shift_amount_mod [OF b] MaskBits_mask
  show "\<exists>x. lsl_bits b v a = Some x \<and> (bit x n \<longleftrightarrow> ?k \<le> n \<and> bit v (n - ?k))"
    using k' n masked_bits(1) [OF k'] by (simp add: lsl_bits_def shl_def d less_imp_diff_less del: push_bit_and)
  show "\<exists>x. lsr_bits b v a = Some x \<and> (bit x n \<longleftrightarrow> n + ?k < b \<and> bit v (n + ?k))"
    using k' masked_bits(2) [OF k'] by (simp add: lsr_bits_def shr_def d del: drop_bit_and)
  have m: "(n + ?k) mod b = (if n + ?k < b then n + ?k else n + ?k - b)" using k n by (rule wrap_mod)
  show "\<exists>x. ror_bits b v a = Some x \<and> (bit x n \<longleftrightarrow> bit v ((n + ?k) mod b))"
  proof (cases "?k = 0")
    case True
    then show ?thesis using n by (simp add: ror_bits_def d bit_mask_and_iff)
  next
    case False
    then show ?thesis using k' b' k ror_bit [OF _ k b'(2) n, of v] unfolding m
      by (simp add: ror_bits_def d Let_def shr_def shl_def del: push_bit_and drop_bit_and)
  qed
qed

lemma bit_signed_drop_bit_min: "n < 64 \<Longrightarrow> bit (signed_drop_bit k (w::u64)) n \<longleftrightarrow> bit w (min (n + k) 63)"
  by (auto simp: bit_signed_drop_bit_iff min_def ac_simps numeral_eq_Suc)

lemma asr_bits:
  assumes b: "b \<in> {8, 16, 32, 64}" and n: "n < b" and v: "take_bit b v = v"
  shows "\<exists>x. asr (SignExtendTo v b) (shift_amount b a) = Some x \<and>
    (bit x n \<longleftrightarrow> bit v (min (n + unat a mod b) (b - 1)))"
proof -
  have b': "0 < b" "b \<le> 64" using b by auto
  have k: "unat a mod b < 64" using b' mod_less_divisor [of b "unat a"] by linarith
  have "bit (signed_drop_bit (unat a mod b) (SignExtendTo v b)) n = bit v (min (min (n + unat a mod b) 63) (b - 1))"
    using k b' n by (simp add: bit_signed_drop_bit_min bit_SignExtendTo_min [OF b' v])
  moreover have "min (min (n + unat a mod b) 63) (b - 1) = min (n + unat a mod b) (b - 1)" using b' by auto
  ultimately show ?thesis using k b' by (simp add: asr_def shift_amount_mod [OF b])
qed

text \<open>C25. A shift or rotate instruction, with an immediate or a register count, reduces its count
  modulo the width and moves the bits of its operand accordingly: logical shifts fill with zeros,
  the arithmetic shift repeats the sign bit, the rotation wraps round.\<close>

theorem shift_instruction:
  assumes op: "op_code (ir i) = Bit op" "op \<in> {LslImm, LslValue, LsrImm, LsrValue, AsrImm, AsrValue, RorImm, RorValue}"
    and ready: "shift_ready ir i st b lv a" and n: "n < b"
  shows "\<exists>st'. RunInst env ir i st s = Some (st', s) \<and>
    (bit (ReadScalar ir st' (Value i VOID)) n \<longleftrightarrow> shifted_bit op b (ReadScalar ir st lv) (unat a mod b) n)"
proof -
  have b: "b \<in> {8, 16, 32, 64}" using ready scalar_type_bits [of "ret_type (ir i)"] by (auto simp: shift_ready_def)
  have w: "bit (ReadScalar ir (write_value ir st i x) (Value i VOID)) n = bit x n" for x
    using ready n by (simp add: ReadScalar_write_value shift_ready_def MaskBits_mask bit_mask_and_iff)
  let ?v = "ReadScalar ir st lv"
  note d = shift_ready_def RunInst_def on_stack_def WriteScalar_total shifted_bit_def run_shift_def run_asr_def
    RunLslImm_def RunLslValue_def RunLsrImm_def RunLsrValue_def RunAsrImm_def RunAsrValue_def RunRorImm_def RunRorValue_def
  consider "op \<in> {LslImm, LslValue}" | "op \<in> {LsrImm, LsrValue}" | "op \<in> {AsrImm, AsrValue}" | "op \<in> {RorImm, RorValue}"
    using op(2) by auto
  then have "\<exists>x. RunInst env ir i st s = Some (write_value ir st i x, s) \<and> (bit x n \<longleftrightarrow> shifted_bit op b ?v (unat a mod b) n)"
  proof cases
    case 1
    obtain x where "lsl_bits b ?v a = Some x" "bit x n \<longleftrightarrow> unat a mod b \<le> n \<and> bit ?v (n - unat a mod b)"
      using shift_bits(1) [OF b n] by blast
    then show ?thesis using 1 op(1) ready by (intro exI [of _ x]) (elim insertE emptyE; simp add: d)
  next
    case 2
    obtain x where "lsr_bits b ?v a = Some x" "bit x n \<longleftrightarrow> n + unat a mod b < b \<and> bit ?v (n + unat a mod b)"
      using shift_bits(2) [OF b n] by blast
    then show ?thesis using 2 op(1) ready by (intro exI [of _ x]) (elim insertE emptyE; simp add: d)
  next
    case 3
    then have "take_bit b ?v = ?v" using op(1) ready by (auto simp: shift_ready_def)
    then obtain x where "asr (SignExtendTo ?v b) (shift_amount b a) = Some x"
        "bit x n \<longleftrightarrow> bit ?v (min (n + unat a mod b) (b - 1))"
      using asr_bits [OF b n] by blast
    then show ?thesis using 3 op(1) ready by (intro exI [of _ x]) (elim insertE emptyE; simp add: d del: asr_eq_Some)
  next
    case 4
    obtain x where "ror_bits b ?v a = Some x" "bit x n \<longleftrightarrow> bit ?v ((n + unat a mod b) mod b)"
      using shift_bits(3) [OF b n] by blast
    then show ?thesis using 4 op(1) ready by (intro exI [of _ x]) (elim insertE emptyE; simp add: d)
  qed
  then show ?thesis using w by blast
qed

definition sample_shift :: "BitOp \<Rightarrow> IR" where
  "sample_shift op = sample_ir [
     sample_inst (Help LoadImm) S16 0 [AImm (imm32 0x8421)],
     sample_inst (Bit op) S16 1 [AValue (val 0), AImm (imm32 0x13)]]"

theorem shift_instruction_witness:
  "\<exists>st'. RunInst sample_env (sample_shift AsrImm) 1 (sample_stack [0x8421]) sample_state = Some (st', sample_state) \<and>
     bit (ReadScalar (sample_shift AsrImm) st' (val 1)) 13"
proof -
  have o: "op_code (sample_shift AsrImm 1) = Bit AsrImm" by code_simp
  have r: "shift_ready (sample_shift AsrImm) 1 (sample_stack [0x8421]) 16 (val 0) 0x13" by code_simp
  have "shifted_bit AsrImm 16 (ReadScalar (sample_shift AsrImm) (sample_stack [0x8421]) (val 0)) (unat (0x13::u64) mod 16) 13"
    by code_simp
  then show ?thesis using shift_instruction [OF o _ r, of 13 sample_env sample_state] by simp
qed

section \<open>Bit fields and byte order\<close>

lemma mask_u32_mask: "unat w \<le> 64 \<Longrightarrow> mask_u32 w = mask (unat w)"
  by (simp add: mask_u32_def MaskBits_mask unsigned_ucast_eq take_bit_nat_eq_self)

lemma bit_insert_bits:
  fixes d v :: u64
  assumes "n < 64"
  shows "bit ((d AND NOT (push_bit p (mask w))) OR (push_bit p v AND push_bit p (mask w))) n \<longleftrightarrow>
    (if p \<le> n \<and> n < p + w then bit v (n - p) else bit d n)"
  using assms by (auto simp: bit_or_iff bit_and_iff bit_not_iff bit_push_bit_iff bit_mask_iff)

lemma extract_bits:
  fixes x d v :: u64
  assumes "\<And>n. n < 64 \<Longrightarrow> bit x n \<longleftrightarrow> (if p \<le> n \<and> n < p + w then bit v (n - p) else bit d n)"
    and "p + w \<le> b" "b \<le> 64" "w \<le> c"
  shows "(drop_bit p (x AND mask b) AND mask w) AND mask c = take_bit w v"
proof (rule bit_word_eqI)
  fix n assume "n < LENGTH(64)"
  then show "bit ((drop_bit p (x AND mask b) AND mask w) AND mask c) n = bit (take_bit w v) n"
    using assms(2-) assms(1) [of "p + n"]
    by (cases "n < w") (simp_all only: bit_mask_and_iff bit_drop_bit_eq bit_take_bit_iff o_apply, auto)
qed

lemma bit_bswap:
  "r < 8 \<Longrightarrow> bit (bswap n v) (8 * q + r) \<longleftrightarrow> q < n \<and> 8 * q + r < 64 \<and> bit v (8 * (n - 1 - q) + r)"
proof (induction n arbitrary: v)
  case (Suc n)
  have e: "8 + (8 * (n - Suc q) + r) = 8 * (n - q) + r" if "q < n" using that by auto
  show ?case
    using Suc.prems Suc.IH [OF Suc.prems, of "drop_bit 8 v"]
    by (cases q n rule: linorder_cases) (auto simp: bit_or_iff bit_push_bit_iff bit_take_bit_iff bit_drop_bit_eq e)
qed simp

lemma bswap_bswap:
  assumes "n \<le> 8"
  shows "bswap n (bswap n v) = take_bit (8 * n) v"
proof (rule bit_word_eqI)
  fix k assume "k < LENGTH(64)"
  then have k: "k < 64" by simp
  obtain q r where r: "k = 8 * q + r" "r < 8" by (rule byte_split)
  have "q < n \<Longrightarrow> n - Suc (n - Suc q) = q" by simp
  then show "bit (bswap n (bswap n v)) k = bit (take_bit (8 * n) v) k"
    using r assms k by (auto simp: bit_bswap bit_take_bit_iff)
qed

text \<open>C26. A bit field written by an insert instruction reads back: extracting the same field gives the
  low bits of the inserted value, and the other bits of the destination are unchanged.\<close>

theorem bit_insert_extract:
  assumes ins: "op_code (ir i) = Bit BitInsert" "GetArg_Value (ir i) 0 = Some dv" "GetArg_Value (ir i) 1 = Some vv"
      "GetArg_Imm (ir i) 2 = Some p" "GetArg_Imm (ir i) 3 = Some w"
    and ext: "op_code (ir j) = Bit BitExtract" "GetArg_Value (ir j) 0 = Some (Value i t)"
      "GetArg_Imm (ir j) 1 = Some p" "GetArg_Imm (ir j) 2 = Some w"
    and ti: "\<not> IsVector (ret_type (ir i))" "TypeBits (ret_type (ir i)) = Some b"
    and tj: "\<not> IsVector (ret_type (ir j))" "TypeBits (ret_type (ir j)) = Some c"
    and field: "unat (Imm_Get p) + unat (Imm_Get w) \<le> b" "unat (Imm_Get p) < 64" "unat (Imm_Get w) \<le> c"
  shows "\<exists>st1 st2. RunInst env ir i st s = Some (st1, s) \<and> RunInst env ir j st1 s = Some (st2, s) \<and>
    ReadScalar ir st2 (Value j VOID) = take_bit (unat (Imm_Get w)) (ReadScalar ir st vv) \<and>
    (\<forall>n < b. bit (ReadScalar ir st1 (Value i VOID)) n =
       (if unat (Imm_Get p) \<le> n \<and> n < unat (Imm_Get p) + unat (Imm_Get w)
        then bit (ReadScalar ir st vv) (n - unat (Imm_Get p)) else bit (ReadScalar ir st dv) n))"
proof -
  let ?p = "unat (Imm_Get p)" and ?w = "unat (Imm_Get w)" and ?v = "ReadScalar ir st vv" and ?d = "ReadScalar ir st dv"
  let ?x = "(?d AND NOT (push_bit ?p (mask ?w))) OR (push_bit ?p ?v AND push_bit ?p (mask ?w))"
  let ?st1 = "write_value ir st i ?x"
  have V: "ret_type (ir i) \<noteq> VOID" "ret_type (ir j) \<noteq> VOID" using ti tj by auto
  have b: "b \<le> 64" "c \<le> 64" using scalar_type_bits [OF ti(1) V(1)] scalar_type_bits [OF tj(1) V(2)] ti tj by auto
  have m: "mask_u32 (Imm_Get w) = mask ?w" using field b by (simp add: mask_u32_mask)
  have r1: "ReadScalar ir ?st1 (Value i t') = ?x AND mask b" for t'
    using V ti by (simp add: ReadScalar_write_value MaskBits_mask)
  let ?y = "drop_bit ?p (?x AND mask b) AND mask ?w"
  let ?st2 = "write_value ir ?st1 j ?y"
  have r2: "ReadScalar ir ?st2 (Value j VOID) = ?y AND mask c"
    using V tj by (simp add: ReadScalar_write_value MaskBits_mask)
  have 1: "RunInst env ir i st s = Some (?st1, s)"
    using ins field m by (simp add: RunInst_def RunBitInsert_def on_stack_def WriteScalar_total shl_def)
  have 2: "RunInst env ir j ?st1 s = Some (?st2, s)"
    using ext field m r1 by (simp add: RunInst_def RunBitExtract_def on_stack_def WriteScalar_total shr_def)
  have "?y AND mask c = take_bit ?w ?v" using field b by (intro extract_bits [OF bit_insert_bits]) auto
  moreover have "bit (?x AND mask b) n = (if ?p \<le> n \<and> n < ?p + ?w then bit ?v (n - ?p) else bit ?d n)" if n: "n < b" for n
    using bit_insert_bits [of n ?d ?p ?w ?v] n b by (simp only: bit_mask_and_iff) auto
  ultimately show ?thesis using 1 2 r1 r2 by (intro exI [of _ ?st1] exI [of _ ?st2]) simp
qed

definition sample_field :: IR where
  "sample_field = sample_ir [
     sample_inst (Help LoadImm) U32 0 [AImm (imm32 0xFFFF00FF)],
     sample_inst (Help LoadImm) U32 1 [AImm (imm32 0x1A5)],
     sample_inst (Bit BitInsert) U32 2 [AValue (val 0), AValue (val 1), AImm (imm32 4), AImm (imm32 8)],
     sample_inst (Bit BitExtract) U32 3 [AValue (val 2), AImm (imm32 4), AImm (imm32 8)]]"

theorem bit_insert_extract_witness:
  "\<exists>st1 st2. RunInst sample_env sample_field 2 (sample_stack [0xFFFF00FF, 0, 0x1A5]) sample_state = Some (st1, sample_state) \<and>
     RunInst sample_env sample_field 3 st1 sample_state = Some (st2, sample_state) \<and>
     ReadScalar sample_field st2 (val 3) = 0xA5"
proof -
  let ?st = "sample_stack [0xFFFF00FF, 0, 0x1A5]"
  have i: "op_code (sample_field 2) = Bit BitInsert" "GetArg_Value (sample_field 2) 0 = Some (val 0)"
    "GetArg_Value (sample_field 2) 1 = Some (val 1)" "GetArg_Imm (sample_field 2) 2 = Some (imm32 4)"
    "GetArg_Imm (sample_field 2) 3 = Some (imm32 8)" by code_simp+
  have j: "op_code (sample_field 3) = Bit BitExtract" "GetArg_Value (sample_field 3) 0 = Some (val 2)"
    "GetArg_Imm (sample_field 3) 1 = Some (imm32 4)" "GetArg_Imm (sample_field 3) 2 = Some (imm32 8)" by code_simp+
  have t: "\<not> IsVector (ret_type (sample_field 2))" "TypeBits (ret_type (sample_field 2)) = Some 32"
    "\<not> IsVector (ret_type (sample_field 3))" "TypeBits (ret_type (sample_field 3)) = Some 32" by code_simp+
  have f: "unat (Imm_Get (imm32 4)) + unat (Imm_Get (imm32 8)) \<le> 32" "unat (Imm_Get (imm32 4)) < 64"
    "unat (Imm_Get (imm32 8)) \<le> 32" by code_simp+
  have "take_bit (unat (Imm_Get (imm32 8))) (ReadScalar sample_field ?st (val 1)) = 0xA5" by code_simp
  then show ?thesis using bit_insert_extract [OF i j t f, of sample_env ?st sample_state] by auto
qed

text \<open>C27. Swapping the bytes of a value twice gives the value back, at 16, 32 and 64 bits, and one
  swap reverses the order of the bytes.\<close>

theorem byte_swap_twice:
  assumes i: "op_code (ir i) = Bit ByteSwap" "GetArg_Value (ir i) 0 = Some v" "GetArg_Imm (ir i) 1 = Some w"
      "\<not> IsVector (ret_type (ir i))" "TypeBits (ret_type (ir i)) = Some b"
    and j: "op_code (ir j) = Bit ByteSwap" "GetArg_Value (ir j) 0 = Some (Value i t)" "GetArg_Imm (ir j) 1 = Some w"
      "\<not> IsVector (ret_type (ir j))" "TypeBits (ret_type (ir j)) = Some b"
    and w: "Imm_Get w = of_nat b" "b \<noteq> 8"
  shows "\<exists>st1 st2. RunInst env ir i st s = Some (st1, s) \<and> RunInst env ir j st1 s = Some (st2, s) \<and>
    ReadScalar ir st2 (Value j VOID) = take_bit b (ReadScalar ir st v) \<and>
    (\<forall>q r. q < b div 8 \<and> r < 8 \<longrightarrow>
       bit (ReadScalar ir st1 (Value i VOID)) (8 * q + r) = bit (ReadScalar ir st v) (8 * (b div 8 - 1 - q) + r))"
proof -
  have V: "ret_type (ir i) \<noteq> VOID" "ret_type (ir j) \<noteq> VOID" using i j by auto
  obtain n where n: "b = 8 * n" "n = 2 \<or> n = 4 \<or> n = 8" using scalar_type_bits [OF i(4) V(1)] i(5) w(2) by auto
  let ?v = "ReadScalar ir st v"
  let ?st1 = "write_value ir st i (bswap n ?v)"
  have r: "ReadScalar ir ?st1 (Value i t') = take_bit b (bswap n ?v)" for t'
    using V i by (simp add: ReadScalar_write_value MaskBits_mask take_bit_eq_mask)
  let ?st2 = "write_value ir ?st1 j (bswap n (take_bit b (bswap n ?v)))"
  have z: "take_bit b (bswap n x) = bswap n x" for x
  proof (rule bit_word_eqI)
    fix k assume "k < LENGTH(64)"
    obtain q r where "k = 8 * q + r" "r < 8" by (rule byte_split)
    then show "bit (take_bit b (bswap n x)) k = bit (bswap n x) k" using n(1) by (auto simp: bit_take_bit_iff bit_bswap)
  qed
  have "RunInst env ir i st s = Some (?st1, s)" "RunInst env ir j ?st1 s = Some (?st2, s)"
    using i j w n r by (auto simp: RunInst_def RunByteSwap_def on_stack_def WriteScalar_total)
  moreover have "ReadScalar ir ?st2 (Value j VOID) = take_bit b ?v"
    using V j bswap_bswap [of n ?v] n(2) unfolding n(1) [symmetric]
    by (auto simp: ReadScalar_write_value MaskBits_mask z simp flip: take_bit_eq_mask)
  moreover have "\<forall>q r. q < b div 8 \<and> r < 8 \<longrightarrow>
      bit (ReadScalar ir ?st1 (Value i VOID)) (8 * q + r) = bit ?v (8 * (b div 8 - 1 - q) + r)"
    using n(2) unfolding r z unfolding n(1) by (auto simp: bit_bswap)
  ultimately show ?thesis by blast
qed

definition sample_bswap :: IR where
  "sample_bswap = sample_ir [
     sample_inst (Help LoadImm) U32 0 [AImm (imm32 0x11223344)],
     sample_inst (Bit ByteSwap) U32 1 [AValue (val 0), AImm (imm32 32)],
     sample_inst (Bit ByteSwap) U32 2 [AValue (val 1), AImm (imm32 32)]]"

theorem byte_swap_twice_witness:
  "\<exists>st1 st2. RunInst sample_env sample_bswap 1 (sample_stack [0x11223344]) sample_state = Some (st1, sample_state) \<and>
     RunInst sample_env sample_bswap 2 st1 sample_state = Some (st2, sample_state) \<and>
     ReadScalar sample_bswap st2 (val 2) = 0x11223344"
proof -
  let ?st = "sample_stack [0x11223344]"
  have i: "op_code (sample_bswap 1) = Bit ByteSwap" "GetArg_Value (sample_bswap 1) 0 = Some (val 0)"
    "GetArg_Imm (sample_bswap 1) 1 = Some (imm32 32)" "\<not> IsVector (ret_type (sample_bswap 1))"
    "TypeBits (ret_type (sample_bswap 1)) = Some 32" by code_simp+
  have j: "op_code (sample_bswap 2) = Bit ByteSwap" "GetArg_Value (sample_bswap 2) 0 = Some (val 1)"
    "GetArg_Imm (sample_bswap 2) 1 = Some (imm32 32)" "\<not> IsVector (ret_type (sample_bswap 2))"
    "TypeBits (ret_type (sample_bswap 2)) = Some 32" by code_simp+
  have w: "Imm_Get (imm32 32) = of_nat 32" "(32::nat) \<noteq> 8" by code_simp+
  have "take_bit 32 (ReadScalar sample_bswap ?st (val 0)) = 0x11223344" by code_simp
  then show ?thesis using byte_swap_twice [OF i j w, of sample_env ?st sample_state] by auto
qed

end
