(* ===== verification/Memory_Correct.thy ===== *)
theory Memory_Correct
  imports Interp_Correct
begin

text \<open>
  Memory: what a load sees after a store, for the byte-wise accesses behind locals, uniforms, guest
  memory and atomics, and the properties of the memory handlers that rest on it.
\<close>

section \<open>Cells of a byte-addressed memory\<close>

definition span :: "u64 \<Rightarrow> nat \<Rightarrow> u64 set" where
  "span a n = {a + of_nat q | q. q < n}"

lemma spanI: "q < n \<Longrightarrow> a + of_nat q \<in> span a n"
  unfolding span_def by blast

locale memory_cells =
  fixes rd :: "memory \<Rightarrow> u64 \<Rightarrow> nat \<Rightarrow> 'a::len word" and wr :: "memory \<Rightarrow> u64 \<Rightarrow> nat \<Rightarrow> 'a word \<Rightarrow> memory"
  assumes rd_bit: "r < 8 \<Longrightarrow> bit (rd m a n) (8 * q + r) \<longleftrightarrow>
      q < n \<and> 8 * q + r < LENGTH('a) \<and> bit (m (a + of_nat q)) r"
    and wr_byte: "n \<le> 16 \<Longrightarrow> q < n \<Longrightarrow> bit (wr m a n v (a + of_nat q)) r \<longleftrightarrow> r < 8 \<and> bit v (8 * q + r)"
    and wr_frame: "b \<notin> span a n \<Longrightarrow> wr m a n v b = m b"
begin

text \<open>A load inside a stored cell gives the corresponding bytes of the value.\<close>

lemma rd_wr_inside:
  assumes "n \<le> 16" "k + j \<le> n"
  shows "rd (wr m a n v) (a + of_nat k) j = take_bit (8 * j) (drop_bit (8 * k) v)"
proof (rule bit_word_eqI)
  fix p assume p: "p < LENGTH('a)"
  obtain q r where r: "p = 8 * q + r" "r < 8" by (rule byte_split)
  have a: "a + of_nat k + of_nat q = a + of_nat (k + q)" by (simp add: add.assoc)
  show "bit (rd (wr m a n v) (a + of_nat k) j) p = bit (take_bit (8 * j) (drop_bit (8 * k) v)) p"
    using assms p r(2) wr_byte [of n "k + q" m a v r] unfolding r(1) rd_bit [OF r(2)] a
    by (simp add: bit_take_bit_iff bit_drop_bit_eq add_mult_distrib2 add.assoc) auto
qed

lemma rd_wr: "n \<le> 16 \<Longrightarrow> rd (wr m a n v) a n = take_bit (8 * n) v"
  using rd_wr_inside [of n 0 n m a v] by simp

lemma rd_cong:
  assumes "\<And>b. b \<in> span a n \<Longrightarrow> m b = m' b"
  shows "rd m a n = rd m' a n"
proof (rule bit_word_eqI)
  fix p :: nat
  obtain q r where r: "p = 8 * q + r" "r < 8" by (rule byte_split)
  show "bit (rd m a n) p = bit (rd m' a n) p"
    using assms [of "a + of_nat q"] unfolding r(1) rd_bit [OF r(2)] by (auto simp: spanI)
qed

lemma rd_wr_outside: "span b k \<inter> span a n = {} \<Longrightarrow> rd (wr m a n v) b k = rd m b k"
  by (rule rd_cong) (auto intro: wr_frame)

lemma rd_bound: "take_bit (8 * n) (rd m a n) = rd m a n"
proof (rule bit_word_eqI)
  fix p :: nat
  obtain q r where r: "p = 8 * q + r" "r < 8" by (rule byte_split)
  show "bit (take_bit (8 * n) (rd m a n)) p = bit (rd m a n) p"
    using r(2) unfolding r(1) bit_take_bit_iff rd_bit [OF r(2)] by auto
qed

end

lemma load_le_bit:
  "r < 8 \<Longrightarrow> bit (load_le m a n :: 'a::len word) (8 * q + r) \<longleftrightarrow>
     q < n \<and> 8 * q + r < LENGTH('a) \<and> bit (m (a + of_nat q)) r"
proof (induction n arbitrary: a q)
  case (Suc n)
  show ?case
  proof (cases q)
    case 0
    then show ?thesis using Suc.prems by (auto simp: bit_or_iff bit_ucast_iff bit_push_bit_iff)
  next
    case (Suc q')
    then show ?thesis using Suc.prems Suc.IH [of "a + 1" q']
      by (auto simp: bit_or_iff bit_ucast_iff bit_push_bit_iff ac_simps dest: bit_imp_le_length)
  qed
qed simp

lemma store_le_byte:
  "n \<le> 16 \<Longrightarrow> q < n \<Longrightarrow> bit (store_le m a n (v::'a::len word) (a + of_nat q)) r \<longleftrightarrow> r < 8 \<and> bit v (8 * q + r)"
proof (induction n arbitrary: a q v)
  case (Suc n)
  show ?case
  proof (cases q)
    case 0
    then show ?thesis by (auto simp: bit_ucast_iff)
  next
    case (Suc q')
    have "unat (of_nat (Suc q') :: u64) = Suc q'"
      using Suc Suc.prems by (subst unat_of_nat) (simp add: take_bit_nat_eq_self)
    then have "(of_nat (Suc q') :: u64) \<noteq> 0" by (metis nat.distinct(1) unat_0)
    then show ?thesis using Suc Suc.prems Suc.IH [of q' "a + 1" "drop_bit 8 v"]
      by (auto simp: bit_drop_bit_eq ac_simps)
  qed
qed simp

lemma store_le_frame: "b \<notin> span a n \<Longrightarrow> store_le m a n (v::'a::len word) b = m b"
proof (induction n arbitrary: a v)
  case (Suc n)
  have "b \<notin> span (a + 1) n" 
  proof
    assume "b \<in> span (a + 1) n"
    then obtain q where "q < n" "b = a + of_nat (Suc q)" by (auto simp: span_def ac_simps)
    then have "b \<in> span a (Suc n)" by (simp only: spanI Suc_less_eq)
    with Suc.prems show False by simp
  qed
  moreover have "b \<noteq> a" using Suc.prems spanI [of 0 "Suc n" a] by auto
  ultimately show ?case by (simp add: Suc.IH)
qed simp

interpretation cells: memory_cells load_le store_le
  by unfold_locales (simp_all add: load_le_bit store_le_byte store_le_frame)

section \<open>Guest loads and stores\<close>

text \<open>An access of \<open>n\<close> bytes at the guest address \<open>g\<close> that lies below the limit and passes the range check.\<close>

definition access_ok :: "State \<Rightarrow> u64 \<Rightarrow> nat \<Rightarrow> bool" where
  "access_ok s g n = (unat g + n \<le> unat (guest_addr_limit s) \<and>
     (case interp_range_check s of None \<Rightarrow> True | Some ok \<Rightarrow> ok g (of_nat n)))"

lemma access_faults_iff:
  assumes "0 < n" "n \<le> 16" "unat (guest_addr_limit s) + 16 \<le> 2 ^ 64"
  shows "access_faults s g (of_nat n) \<longleftrightarrow> \<not> access_ok s g n"
proof -
  have n: "unat (of_nat n :: u64) = n" using assms by (subst unat_of_nat) (simp add: take_bit_nat_eq_self)
  have "g < guest_addr_limit s \<Longrightarrow> unat (g + of_nat n) = unat g + n"
    using assms n unat_add_no_wrap [of g "of_nat n"] by (simp add: word_less_nat_alt)
  then show ?thesis using assms
    by (cases "g < guest_addr_limit s")
      (auto simp: access_faults_def access_ok_def word_less_nat_alt word_le_nat_alt split: option.splits)
qed

lemma take_bit_ucast_mask: "ucast (take_bit n (x::u128)) AND mask n = (ucast (take_bit n x) :: u64)"
  by (rule bit_word_eqI) (auto simp: bit_and_iff bit_mask_iff bit_ucast_iff bit_take_bit_iff)

lemma value_size_bounds: "GetValueSizeByte t = Some n \<Longrightarrow> 0 < n" "GetValueSizeByte t = Some n \<Longrightarrow> \<not> IsVector t \<Longrightarrow> n \<le> 8"
  by (cases t; auto)+

text \<open>A value as the bytes that a store of its type writes.\<close>

definition stored_value :: "IR \<Rightarrow> InterpStack \<Rightarrow> Value \<Rightarrow> u128" where
  "stored_value ir st v = (if IsVector (Value_Type ir v) then ReadVec ir st v else ucast (ReadScalar ir st v))"

lemma store_le_ucast: "store_le m a n (ucast (v::u64) :: u128) = store_le m a n v"
proof (induction n arbitrary: a v)
  case (Suc n)
  have "drop_bit 8 (ucast v :: u128) = ucast (drop_bit 8 v)"
    by (rule bit_word_eqI) (auto simp: bit_drop_bit_eq bit_ucast_iff dest: bit_imp_le_length)
  moreover have "ucast (ucast v :: u128) = (ucast v :: u8)" by (rule bit_word_eqI) (simp add: bit_ucast_iff)
  ultimately show ?case by (simp add: Suc.IH)
qed simp

lemma load_le_ucast: "(load_le m a n :: u64) = ucast (load_le m a n :: u128)"
proof (rule bit_word_eqI)
  fix p :: nat assume "p < LENGTH(64)"
  moreover obtain q r where "p = 8 * q + r" "r < 8" by (rule byte_split)
  ultimately show "bit (load_le m a n :: u64) p = bit (ucast (load_le m a n :: u128) :: u64) p"
    by (auto simp: bit_ucast_iff load_le_bit)
qed

lemma RunStoreMemory_spec:
  assumes "GetArg_Operand (ir i) 0 = Some p" "EvalOperand ir st p = Some a" "GetArg_Value (ir i) 1 = Some v"
    and "GetValueSizeByte (Value_Type ir v) = Some n" "n \<le> 16"
  shows "RunStoreMemory ir i st s =
    (let g = a AND guest_addr_mask s in
     if access_faults s g (of_nat n) then Some (s\<lparr>halt_reason := HaltPageFatal\<rparr>)
     else Some (s\<lparr>mem := store_le (mem s) (g + pt s) n (stored_value ir st v)\<rparr>))"
  using assms by (simp add: RunStoreMemory_def Let_def vec_size_def stored_value_def store_le_ucast)

text \<open>The slots after a load that read \<open>x\<close>.\<close>

definition load_result :: "IR \<Rightarrow> InstPtr \<Rightarrow> InterpStack \<Rightarrow> u128 \<Rightarrow> InterpStack" where
  "load_result ir j st x = (if IsVector (ret_type (ir j)) then WriteVec ir st j x else write_value ir st j (ucast x))"

lemma load_result_read:
  assumes n: "GetValueSizeByte (ret_type (ir j)) = Some n"
  shows "stored_value ir (load_result ir j st (take_bit (8 * n) x)) (Value j VOID) = take_bit (8 * n) x"
proof (cases "IsVector (ret_type (ir j))")
  case True
  then show ?thesis by (simp add: load_result_def stored_value_def Value_Type_def)
next
  case False
  have V: "ret_type (ir j) \<noteq> VOID" using n by auto
  have "ucast (ucast (take_bit (8 * n) x) :: u64) = take_bit (8 * n) x"
    using value_size_bounds(2) [OF n False]
    by (intro bit_word_eqI) (auto simp: bit_ucast_iff bit_take_bit_iff)
  then show ?thesis using V False n
    by (simp add: load_result_def stored_value_def Value_Type_def ReadScalar_write_value TypeBits_def MaskBits_mask take_bit_ucast_mask mult.commute [of n])
qed


definition guest_state :: State where
  "guest_state = sample_state\<lparr>guest_addr_limit := 0x8000, guest_addr_mask := NOT 0, pt := 0x100000\<rparr>"

text \<open>An address, a value, a store of the value, a load and a compare-and-swap at the same address.\<close>

definition sample_mem :: IR where
  "sample_mem = sample_ir [
     sample_inst (Help LoadImm) U64 0 [AImm (imm64 0x7FFC)],
     sample_inst (Help LoadImm) U32 1 [AImm (imm32 0xCAFE1234)],
     sample_inst (Mem StoreMemory) VOID 2 (reg_operand 0 @ [AValue (val 1)]),
     sample_inst (Mem LoadMemory) S32 3 (reg_operand 0),
     sample_inst (Mem CompareAndSwap) U32 4 [AValue (val 0), AValue (val 5), AValue (val 1)],
     sample_inst (Help Zero) U32 5 []]"

abbreviation mem_stack :: InterpStack where "mem_stack \<equiv> sample_stack [0x7FFC, 0, 0xCAFE1234]"


text \<open>C19. A guest load after a guest store to the same address, of a type of the same size, gives the
  stored value at that width, whatever the store left in the rest of memory.\<close>

theorem store_then_load:
  assumes st_op: "op_code (ir i) = Mem StoreMemory \<or> op_code (ir i) = Mem StoreMemoryTSO"
    and st_args: "GetArg_Operand (ir i) 0 = Some p" "EvalOperand ir st p = Some a" "GetArg_Value (ir i) 1 = Some v"
    and size: "GetValueSizeByte (Value_Type ir v) = Some n" "n \<le> 16"
    and ld_op: "op_code (ir j) = Mem LoadMemory \<or> op_code (ir j) = Mem LoadMemoryTSO"
    and ld_args: "GetArg_Operand (ir j) 0 = Some q" "EvalOperand ir st q = Some a" "GetValueSizeByte (ret_type (ir j)) = Some n"
    and ok: "access_ok s (a AND guest_addr_mask s) n" "unat (guest_addr_limit s) + 16 \<le> 2 ^ 64"
  shows "\<exists>s' st'. RunInst env ir i st s = Some (st, s') \<and> RunInst env ir j st s' = Some (st', s') \<and>
    stored_value ir st' (Value j VOID) = take_bit (8 * n) (stored_value ir st v)"
proof -
  let ?g = "a AND guest_addr_mask s" and ?x = "stored_value ir st v"
  let ?s = "s\<lparr>mem := store_le (mem s) (?g + pt s) n ?x\<rparr>"
  have f: "\<not> access_faults s ?g (of_nat n)" "\<not> access_faults ?s ?g (of_nat n)"
    using ok access_faults_iff [OF value_size_bounds(1) [OF size(1)] size(2) ok(2)] by (auto simp: access_faults_def)
  have 1: "RunInst env ir i st s = Some (st, ?s)"
    using st_op f RunStoreMemory_spec [OF st_args size, of s] by (auto simp: RunInst_def on_state_def RunStoreMemoryTSO_def)
  have l: "load_le (mem ?s) (?g + pt s) n = take_bit (8 * n) ?x" using cells.rd_wr [OF size(2), of "mem s" "?g + pt s" ?x] by simp
  have "RunInst env ir j st ?s = RunLoadMemory ir j st ?s"
    using ld_op by (auto simp: RunInst_def RunLoadMemoryTSO_def)
  also have "\<dots> = Some (load_result ir j st (take_bit (8 * n) ?x), ?s)"
    using f(2) ld_args l size(2) by (simp add: RunLoadMemory_def Let_def vec_size_def WriteScalar_total load_le_ucast load_result_def)
  finally show ?thesis using 1 load_result_read [of ir j n st ?x, OF ld_args(3)] by blast
qed

theorem store_then_load_witness:
  "\<exists>s' st'. RunInst sample_env sample_mem 2 mem_stack guest_state = Some (mem_stack, s') \<and>
     RunInst sample_env sample_mem 3 mem_stack s' = Some (st', s') \<and>
     stored_value sample_mem st' (val 3) = 0xCAFE1234"
proof -
  let ?p = "\<lparr>operand_op = \<lparr>op_type = OpNone, shift_ext = 0\<rparr>, operand_left = DValue (val 0), operand_right = DNull\<rparr>"
  have a: "GetArg_Operand (sample_mem 2) 0 = Some ?p" "EvalOperand sample_mem mem_stack ?p = Some 0x7FFC"
    "GetArg_Value (sample_mem 2) 1 = Some (val 1)" by code_simp+
  have o: "op_code (sample_mem 2) = Mem StoreMemory" "op_code (sample_mem 3) = Mem LoadMemory" by code_simp+
  have b: "GetArg_Operand (sample_mem 3) 0 = Some ?p" "GetValueSizeByte (ret_type (sample_mem 3)) = Some 4" by code_simp+
  have z: "GetValueSizeByte (Value_Type sample_mem (val 1)) = Some 4" "unat (guest_addr_limit guest_state) + 16 \<le> 2 ^ 64"
    by code_simp (simp add: guest_state_def)
  have k: "access_ok guest_state (0x7FFC AND guest_addr_mask guest_state) 4"
    by (simp add: access_ok_def guest_state_def sample_state_def)
  have e: "take_bit (8 * 4) (stored_value sample_mem mem_stack (val 1)) = 0xCAFE1234" by code_simp
  show ?thesis
    using store_then_load [OF disjI1 [OF o(1)] a z(1) _ disjI1 [OF o(2)] b(1) a(2) b(2) k z(2), of sample_env] unfolding e by auto
qed

section \<open>Uniforms\<close>

text \<open>C20. Guest registers live in the uniform buffer.  After a store of \<open>n\<close> bytes, a load of \<open>m\<close> bytes
  at \<open>k\<close> bytes into them gives those bytes of the stored value, so partial registers read correctly;
  a load that shares no byte with the store reads what it read before.\<close>

theorem uniform_store_load:
  assumes st_op: "op_code (ir i) = Mem StoreUniform" "GetArg_Uniform (ir i) 0 = Some u" "GetArg_Value (ir i) 1 = Some v"
      "GetValueSizeByte (Value_Type ir v) = Some n" "n \<le> 16"
    and ld_op: "op_code (ir j) = Mem LoadUniform" "GetArg_Uniform (ir j) 0 = Some w"
      "GetValueSizeByte (ret_type (ir j)) = Some m" "m \<le> 16"
  defines "from \<equiv> (ucast (uniform_offset u) :: u64)" and "at \<equiv> (ucast (uniform_offset w) :: u64)"
  shows "\<exists>s' st' st0. RunInst env ir i st s = Some (st, s') \<and> RunInst env ir j st s' = Some (st', s') \<and>
    RunInst env ir j st s = Some (st0, s) \<and>
    (\<forall>k. at = from + of_nat k \<and> k + m \<le> n \<longrightarrow>
       stored_value ir st' (Value j VOID) = take_bit (8 * m) (drop_bit (8 * k) (stored_value ir st v))) \<and>
    (span (uniform_buffer_begin s + at) m \<inter> span (uniform_buffer_begin s + from) n = {} \<longrightarrow> st' = st0)"
proof -
  let ?b = "uniform_buffer_begin s" and ?x = "stored_value ir st v"
  let ?m = "store_le (mem s) (?b + from) n ?x"
  have V: "Value_Type ir v \<noteq> VOID" "ret_type (ir j) \<noteq> VOID" using st_op(4) ld_op(3) by auto
  have 1: "RunInst env ir i st s = Some (st, s\<lparr>mem := ?m\<rparr>)"
    using st_op V by (simp add: RunInst_def on_state_def RunStoreUniform_def Let_def vec_size_def stored_value_def store_le_ucast from_def)
  have 2: "RunInst env ir j st t = Some (load_result ir j st (load_le (mem t) (uniform_buffer_begin t + at) m), t)" for t
    using ld_op V by (simp add: RunInst_def on_stack_def RunLoadUniform_def Let_def vec_size_def WriteScalar_total load_le_ucast load_result_def at_def)
  have "load_le ?m (?b + at) m = take_bit (8 * m) (drop_bit (8 * k) ?x)" if "at = from + of_nat k" "k + m \<le> n" for k
    using cells.rd_wr_inside [OF st_op(5) that(2), of "mem s" "?b + from" ?x] by (simp add: that(1) add.assoc)
  moreover have "load_le ?m (?b + at) m = (load_le (mem s) (?b + at) m :: u128)" if "span (?b + at) m \<inter> span (?b + from) n = {}"
    using that by (rule cells.rd_wr_outside)
  ultimately show ?thesis
    using 1 2 load_result_read [of ir j m st, OF ld_op(3)]
    by (intro exI [of _ "s\<lparr>mem := ?m\<rparr>"] exI conjI) (assumption | simp)+
qed

definition sample_uniform :: IR where
  "sample_uniform = sample_ir [
     sample_inst (Help LoadImm) U64 0 [AImm (imm64 0x1122334455667788)],
     sample_inst (Mem StoreUniform) VOID 1 [AUniform \<lparr>uniform_offset = 16, uniform_type = U64\<rparr>, AValue (val 0)],
     sample_inst (Mem LoadUniform) U16 2 [AUniform \<lparr>uniform_offset = 18, uniform_type = U16\<rparr>]]"

theorem uniform_store_load_witness:
  "\<exists>s' st'. RunInst sample_env sample_uniform 1 (sample_stack [0x1122334455667788]) sample_state =
       Some (sample_stack [0x1122334455667788], s') \<and>
     RunInst sample_env sample_uniform 2 (sample_stack [0x1122334455667788]) s' = Some (st', s') \<and>
     stored_value sample_uniform st' (val 2) = 0x5566"
proof -
  let ?st = "sample_stack [0x1122334455667788]"
  have i: "op_code (sample_uniform 1) = Mem StoreUniform"
    "GetArg_Uniform (sample_uniform 1) 0 = Some \<lparr>uniform_offset = 16, uniform_type = U64\<rparr>"
    "GetArg_Value (sample_uniform 1) 1 = Some (val 0)" "GetValueSizeByte (Value_Type sample_uniform (val 0)) = Some 8" by code_simp+
  have j: "op_code (sample_uniform 2) = Mem LoadUniform"
    "GetArg_Uniform (sample_uniform 2) 0 = Some \<lparr>uniform_offset = 18, uniform_type = U16\<rparr>"
    "GetValueSizeByte (ret_type (sample_uniform 2)) = Some 2" by code_simp+
  have e: "take_bit (8 * 2) (drop_bit (8 * 2) (stored_value sample_uniform ?st (val 0))) = 0x5566" by code_simp
  obtain s' st' where r: "RunInst sample_env sample_uniform 1 ?st sample_state = Some (?st, s')"
    "RunInst sample_env sample_uniform 2 ?st s' = Some (st', s')"
    and k: "\<forall>k. (ucast (uniform_offset \<lparr>uniform_offset = 18, uniform_type = U16\<rparr>) :: u64) =
        ucast (uniform_offset \<lparr>uniform_offset = 16, uniform_type = U64\<rparr>) + of_nat k \<and> k + 2 \<le> 8 \<longrightarrow>
        stored_value sample_uniform st' (val 2) = take_bit (8 * 2) (drop_bit (8 * k) (stored_value sample_uniform ?st (val 0)))"
    using uniform_store_load [OF i _ j, of sample_env ?st sample_state] by auto
  from k [rule_format, of 2] e have "stored_value sample_uniform st' (val 2) = 0x5566" by simp
  with r show ?thesis by blast
qed

section \<open>Atomics\<close>

text \<open>C21. Compare-and-swap at 8, 16, 32 and 64 bits returns the memory's old value; when that equals the
  expected value at the operand width, memory reads back the desired value, otherwise memory is
  unchanged; no byte outside the cell changes.\<close>

theorem compare_and_swap:
  fixes st :: InterpStack and s :: State
  assumes op: "op_code (ir i) = Mem CompareAndSwap" "GetArg_Value (ir i) 0 = Some a" "GetArg_Value (ir i) 1 = Some e"
      "GetArg_Value (ir i) 2 = Some d" "atomic_bytes (Value_Type ir e) = Some n"
    and ty: "\<not> IsVector (ret_type (ir i))" "TypeBits (ret_type (ir i)) = Some (8 * n)"
  defines "ptr \<equiv> guest_ptr s (ReadScalar ir st a)"
  defines "old \<equiv> (load_le (mem s) ptr n :: u64)"
  shows "\<exists>st' s'. RunInst env ir i st s = Some (st', s') \<and> ReadScalar ir st' (Value i VOID) = old \<and>
    (\<forall>b. b \<notin> span ptr n \<longrightarrow> mem s' b = mem s b) \<and>
    (if old = take_bit (8 * n) (ReadScalar ir st e) then load_le (mem s') ptr n = take_bit (8 * n) (ReadScalar ir st d)
     else s' = s)"
proof -
  have V: "ret_type (ir i) \<noteq> VOID" using ty by auto
  have n: "n \<le> 16" using op(5) by (auto simp: atomic_bytes_def bind_eq_Some_conv)
  let ?d = "take_bit (8 * n) (ReadScalar ir st d)"
  let ?s = "if old = take_bit (8 * n) (ReadScalar ir st e) then s\<lparr>mem := store_le (mem s) ptr n ?d\<rparr> else s"
  have "RunInst env ir i st s = Some (write_value ir st i old, ?s)"
    using op by (auto simp: RunInst_def RunCompareAndSwap_def finish_atomic_def AtomicCompareExchange_def Let_def WriteScalar_total
        MaskBits_mask old_def ptr_def simp flip: take_bit_eq_mask)
  moreover have "ReadScalar ir (write_value ir st i old) (Value i VOID) = old"
    using V ty cells.rd_bound [where 'a = 64, of n "mem s" ptr]
    by (simp add: ReadScalar_write_value MaskBits_mask old_def flip: take_bit_eq_mask)
  moreover have "load_le (store_le (mem s) ptr n ?d) ptr n = ?d" using cells.rd_wr [OF n, of "mem s" ptr ?d] by simp
  ultimately show ?thesis by (intro exI [of _ "write_value ir st i old"] exI [of _ ?s]) (auto simp: cells.wr_frame)
qed

theorem compare_and_swap_witness:
  "\<exists>st' s'. RunInst sample_env sample_mem 4 mem_stack guest_state = Some (st', s') \<and>
     ReadScalar sample_mem st' (val 4) = 0 \<and> load_le (mem s') 0x107FFC 4 = (0xCAFE1234 :: u64)"
proof -
  have i: "op_code (sample_mem 4) = Mem CompareAndSwap" "GetArg_Value (sample_mem 4) 0 = Some (val 0)"
    "GetArg_Value (sample_mem 4) 1 = Some (val 5)" "GetArg_Value (sample_mem 4) 2 = Some (val 1)"
    "atomic_bytes (Value_Type sample_mem (val 5)) = Some 4" "\<not> IsVector (ret_type (sample_mem 4))"
    "TypeBits (ret_type (sample_mem 4)) = Some (8 * 4)" by code_simp+
  have e: "guest_ptr guest_state (ReadScalar sample_mem mem_stack (val 0)) = 0x107FFC"
    "(load_le (mem guest_state) 0x107FFC 4 :: u64) = 0" "take_bit (8 * 4) (ReadScalar sample_mem mem_stack (val 5)) = 0"
    "take_bit (8 * 4) (ReadScalar sample_mem mem_stack (val 1)) = 0xCAFE1234" by code_simp+
  show ?thesis using compare_and_swap [OF i, where st = mem_stack and s = guest_state and env = sample_env] unfolding e by auto
qed

end
