(* ===== verification/Edge_Flags.thy ===== *)
theory Edge_Flags
  imports Prelude
begin

text \<open>
  The flag state that a direct edge between translated blocks carries in the host flags
  (\<^verbatim>\<open>backend/edge_flags_state.h\<close>): which of N, Z, C and V are pending in the host register, the
  polarity of the carry, and what the target promises to overwrite before it observes them.
\<close>

definition kEdgeNZCVMask :: u32 where "kEdgeNZCVMask = 0xF0000000"
definition kEdgeCarryMask :: u32 where "kEdgeCarryMask = 0x20000000"

datatype EdgeCarryPolarity = PolDirect | PolInverted | PolUnknown
datatype EdgeFlagsProducer = Arithmetic | Logical | Restore | Canonical

definition EdgeCarry_Publish :: "bool \<Rightarrow> EdgeCarryPolarity" where
  "EdgeCarry_Publish inverted = (if inverted then PolInverted else PolDirect)"

definition EdgeCarry_Resolve :: "EdgeCarryPolarity \<Rightarrow> u32 \<Rightarrow> bool \<Rightarrow> EdgeCarryPolarity" where
  "EdgeCarry_Resolve polarity valid_mask canonical =
     (if valid_mask AND kEdgeCarryMask = 0 then PolUnknown
      else if canonical then PolDirect else polarity)"

record EdgeFlagsState =
  valid_nzcv_mask :: u32
  carry_polarity :: EdgeCarryPolarity
  producer :: EdgeFlagsProducer

definition EdgeFlags_default :: EdgeFlagsState where
  "EdgeFlags_default = \<lparr>valid_nzcv_mask = 0, carry_polarity = PolUnknown, producer = Canonical\<rparr>"

definition IsCanonical :: "EdgeFlagsState \<Rightarrow> bool" where
  "IsCanonical e = (valid_nzcv_mask e = 0 \<and> carry_polarity e = PolUnknown \<and> producer e = Canonical)"

definition EdgeFlags_IsWellFormed :: "EdgeFlagsState \<Rightarrow> bool" where
  "EdgeFlags_IsWellFormed e =
     (if valid_nzcv_mask e AND NOT kEdgeNZCVMask \<noteq> 0 then False
      else if valid_nzcv_mask e = 0 then IsCanonical e
      else producer e \<noteq> Canonical \<and>
        (valid_nzcv_mask e AND kEdgeCarryMask \<noteq> 0 \<or> carry_polarity e = PolUnknown))"

definition HasPendingPState :: "EdgeFlagsState \<Rightarrow> bool" where
  "HasPendingPState e = (valid_nzcv_mask e \<noteq> 0 \<and> EdgeFlags_IsWellFormed e)"

record EdgeFlagsTargetContract =
  overwrite_before_observe :: u32
  observed_nzcv_mask :: u8
  commits_before_fault :: bool
  barrier_before_commit :: bool

definition EdgeContract_default :: EdgeFlagsTargetContract where
  "EdgeContract_default = \<lparr>overwrite_before_observe = 0, observed_nzcv_mask = 0,
     commits_before_fault = False, barrier_before_commit = False\<rparr>"

definition EdgeContract_IsWellFormed :: "EdgeFlagsTargetContract \<Rightarrow> bool" where
  "EdgeContract_IsWellFormed c =
     (overwrite_before_observe c AND NOT kEdgeNZCVMask = 0 \<and>
      (ucast (observed_nzcv_mask c) :: u32) AND NOT 0xF = 0)"

definition ObservedHostMask :: "EdgeFlagsTargetContract \<Rightarrow> u32" where
  "ObservedHostMask c = push_bit 28 (ucast (observed_nzcv_mask c))"

definition CanPublishPendingEntry :: "EdgeFlagsTargetContract \<Rightarrow> bool" where
  "CanPublishPendingEntry c =
     (EdgeContract_IsWellFormed c \<and> overwrite_before_observe c \<noteq> 0 \<and> commits_before_fault c \<and>
      \<not> barrier_before_commit c)"

definition Accepts :: "EdgeFlagsTargetContract \<Rightarrow> EdgeFlagsState \<Rightarrow> bool" where
  "Accepts c e =
     (CanPublishPendingEntry c \<and> HasPendingPState e \<and>
      valid_nzcv_mask e AND NOT (overwrite_before_observe c) = 0 \<and>
      valid_nzcv_mask e AND ObservedHostMask c = 0)"

text \<open>
  A target that keeps its contract: it writes all the flags it promised to overwrite, as a function
  of the host flag word with the flags it observes.
\<close>

definition keeps_contract :: "EdgeFlagsTargetContract \<Rightarrow> (u32 \<Rightarrow> u32) \<Rightarrow> bool" where
  "keeps_contract c run =
     (\<forall>f g. f AND NOT (overwrite_before_observe c AND NOT (ObservedHostMask c)) =
            g AND NOT (overwrite_before_observe c AND NOT (ObservedHostMask c)) \<longrightarrow> run f = run g)"

lemma merge_dead:
  fixes h p m k :: u32
  assumes "\<And>n. bit m n \<Longrightarrow> bit k n"
  shows "((h AND NOT m) OR (p AND m)) AND NOT k = h AND NOT k"
  by (rule bit_word_eqI) (use assms in \<open>auto simp: bit_and_iff bit_or_iff bit_not_iff\<close>)



end
