(* ===== verification/Smc_Epochs.thy ===== *)
theory Smc_Epochs
  imports Prelude
begin

text \<open>
  Reclamation of retired code (\<^verbatim>\<open>backend/smc_tracker.h\<close>, \<^verbatim>\<open>smc_tracker.cpp\<close>): each guest thread
  publishes the epoch it runs in, the invalidator removes code from dispatch, restores the direct
  branches to it, and retires it under a new epoch, and the code is freed once no running thread has
  an older one.  Every atomic access is one step, and the steps of the threads and of the invalidator
  interleave in any order.  The model starts when multithreading is enabled.

  A token also carries what its thread can execute: the code it runs, the code its return stack
  points to, and the direct branches its instruction fetch may still see.
\<close>

section \<open>State\<close>

datatype ReclaimCandidate = ReclaimCandidate u64 u64

type_synonym code = ReclaimCandidate

definition kInactiveEpoch :: u64 where "kInactiveEpoch = - 1"

datatype begin_pc = Idle | Looping | Loaded u64 | Patched u64 | Published u64 | Running

record RuntimeEpoch =
  active_epoch :: u64
  synced_patch_epoch :: u64
  patch_sync_count :: u64
  synced_continuation_epoch :: u64
  l1 :: "nat option"
  exit_request :: "u64 option"
  interrupt_poll :: "bool option"
  rsb_registered :: bool
  rsb_frames :: "code set"
  pc :: begin_pc
  held :: "code set"
  fetched :: "(code \<times> code) set"

record SmcEpochs =
  global_epoch :: u64
  code_patch_epoch :: u64
  tracker_sync_count :: u64
  runtimes :: "nat list"
  token :: "nat \<Rightarrow> RuntimeEpoch"
  retiring :: "(code \<times> u64) list"
  retired :: "(code \<times> u64) list"
  scan :: "((code \<times> u64) \<times> nat list) option"
  ready :: "code list"
  freed :: "code set"
  visible :: "code set"
  links :: "(code \<times> code) set"
  detached :: "code set"
  patch_pending :: bool
  retire_log :: "(code \<times> u64 \<times> u64) list"

definition new_token :: RuntimeEpoch where
  "new_token = \<lparr>active_epoch = kInactiveEpoch, synced_patch_epoch = 0, patch_sync_count = 0, synced_continuation_epoch = 0,
     l1 = None, exit_request = None, interrupt_poll = None, rsb_registered = False, rsb_frames = {}, pc = Idle, held = {}, fetched = {}\<rparr>"

definition SmcEpochs_new :: SmcEpochs where
  "SmcEpochs_new = \<lparr>global_epoch = 1, code_patch_epoch = 1, tracker_sync_count = 0, runtimes = [], token = (\<lambda>_. new_token),
     retiring = [], retired = [], scan = None, ready = [], freed = {}, visible = {}, links = {}, detached = {},
     patch_pending = False, retire_log = []\<rparr>"

definition upd_token :: "nat \<Rightarrow> RuntimeEpoch \<Rightarrow> SmcEpochs \<Rightarrow> SmcEpochs" where
  "upd_token r t s = s\<lparr>token := (token s)(r := t)\<rparr>"

section \<open>Operations of a runtime\<close>

definition RegisterRuntime :: "nat \<Rightarrow> nat option \<Rightarrow> u64 option \<Rightarrow> bool option \<Rightarrow> bool \<Rightarrow> SmcEpochs \<Rightarrow> SmcEpochs" where
  "RegisterRuntime r table request poll rsb s = (upd_token r (new_token\<lparr>synced_patch_epoch := code_patch_epoch s,
     synced_continuation_epoch := global_epoch s, l1 := table, exit_request := request, interrupt_poll := poll,
     rsb_registered := rsb, fetched := links s\<rparr>) s)
     \<lparr>runtimes := runtimes s @ [r]\<rparr>"

definition UnregisterRuntime :: "nat \<Rightarrow> SmcEpochs \<Rightarrow> SmcEpochs" where
  "UnregisterRuntime r s = (upd_token r ((token s r)\<lparr>active_epoch := kInactiveEpoch\<rparr>) s)\<lparr>runtimes := filter (\<lambda>x. x \<noteq> r) (runtimes s)\<rparr>"

definition SynchronizeContinuation :: "u64 \<Rightarrow> RuntimeEpoch \<Rightarrow> RuntimeEpoch" where
  "SynchronizeContinuation epoch t =
     (if synced_continuation_epoch t = epoch then t
      else t\<lparr>rsb_frames := (if rsb_registered t then {} else rsb_frames t), synced_continuation_epoch := epoch\<rparr>)"

definition BeginJit_load :: "SmcEpochs \<Rightarrow> RuntimeEpoch \<Rightarrow> RuntimeEpoch" where
  "BeginJit_load s t = (SynchronizeContinuation (global_epoch s) t)\<lparr>pc := Loaded (global_epoch s)\<rparr>"

definition BeginJit_patch :: "u64 \<Rightarrow> nat \<Rightarrow> SmcEpochs \<Rightarrow> SmcEpochs" where
  "BeginJit_patch epoch r s =
     (let t = (token s r)\<lparr>pc := Patched epoch\<rparr>; patch_epoch = code_patch_epoch s in
      if synced_patch_epoch t < patch_epoch
      then (upd_token r (t\<lparr>fetched := links s, synced_patch_epoch := patch_epoch, patch_sync_count := patch_sync_count t + 1\<rparr>) s)
             \<lparr>tracker_sync_count := tracker_sync_count s + 1\<rparr>
      else upd_token r t s)"

definition BeginJit_publish :: "u64 \<Rightarrow> RuntimeEpoch \<Rightarrow> RuntimeEpoch" where
  "BeginJit_publish epoch t = t\<lparr>active_epoch := epoch, pc := Published epoch\<rparr>"

definition BeginJit_validate :: "SmcEpochs \<Rightarrow> u64 \<Rightarrow> RuntimeEpoch \<Rightarrow> RuntimeEpoch" where
  "BeginJit_validate s epoch t = t\<lparr>pc := (if global_epoch s = epoch then Running else Looping)\<rparr>"

definition EndJit :: "RuntimeEpoch \<Rightarrow> RuntimeEpoch" where
  "EndJit t = t\<lparr>active_epoch := kInactiveEpoch, pc := Idle, held := {}\<rparr>"

section \<open>Operations of the invalidator\<close>

text \<open>A runtime is asked to leave its code: its request counter is bumped and its poll page armed.\<close>

definition publish_exit :: "RuntimeEpoch \<Rightarrow> RuntimeEpoch" where
  "publish_exit t =
     (case exit_request t of
        None \<Rightarrow> t
      | Some q \<Rightarrow> t\<lparr>exit_request := Some (q + 1), interrupt_poll := map_option (\<lambda>_. True) (interrupt_poll t)\<rparr>)"

definition PublishExitRequest :: "bool \<Rightarrow> SmcEpochs \<Rightarrow> SmcEpochs" where
  "PublishExitRequest exit_latch_enabled s =
     (if \<not> exit_latch_enabled then s
      else s\<lparr>token := (\<lambda>r. if r \<in> set (runtimes s) then publish_exit (token s r) else token s r)\<rparr>)"

definition AdvanceCodePatchEpoch :: "SmcEpochs \<Rightarrow> SmcEpochs" where
  "AdvanceCodePatchEpoch s = s\<lparr>code_patch_epoch := code_patch_epoch s + 1, patch_pending := False\<rparr>"

definition Retire_epoch :: "code list \<Rightarrow> SmcEpochs \<Rightarrow> SmcEpochs" where
  "Retire_epoch cs s =
     (if cs = [] then s
      else let e = global_epoch s + 1 in
        s\<lparr>global_epoch := e, retiring := map (\<lambda>c. (c, e)) cs, retire_log := map (\<lambda>c. (c, e, code_patch_epoch s)) cs @ retire_log s\<rparr>)"

definition Retire_push :: "SmcEpochs \<Rightarrow> SmcEpochs" where
  "Retire_push s = s\<lparr>retired := retired s @ retiring s, retiring := []\<rparr>"

definition CanReclaim_blocked :: "u64 \<Rightarrow> RuntimeEpoch \<Rightarrow> bool" where
  "CanReclaim_blocked retire_epoch t = (active_epoch t \<noteq> kInactiveEpoch \<and> active_epoch t < retire_epoch)"

definition CanReclaim_step :: "SmcEpochs \<Rightarrow> SmcEpochs" where
  "CanReclaim_step s =
     (case scan s of
        Some ((c, e), r # rest) \<Rightarrow> if CanReclaim_blocked e (token s r) then s\<lparr>scan := None\<rparr> else s\<lparr>scan := Some ((c, e), rest)\<rparr>
      | Some ((c, e), []) \<Rightarrow> s\<lparr>scan := None, retired := filter (\<lambda>x. x \<noteq> (c, e)) (retired s), ready := c # ready s\<rparr>
      | None \<Rightarrow> s)"

definition ReclaimRetired_free :: "code \<Rightarrow> SmcEpochs \<Rightarrow> SmcEpochs" where
  "ReclaimRetired_free c s = s\<lparr>ready := filter (\<lambda>x. x \<noteq> c) (ready s), freed := insert c (freed s)\<rparr>"

section \<open>Interleaving\<close>

datatype smc_act =
    ARegister nat "nat option" "u64 option" "bool option" bool | AUnregister nat
  | ABegin nat | ALoad nat | APatch nat | APublish nat | AValidate nat | AEnd nat
  | ALookup nat code | ACall nat code | AReturn nat code | AFollow nat code code | AFetch nat
  | APublishExit bool | APublishCode code | ALink code code | ADelink code | AAdvance
  | ARetire "code list" | APush | AScan code u64 | AScanStep | AFree code

text \<open>
  The first two groups are the calls of a runtime; the third is what the code it runs can do: look up
  a published address, push and pop return frames, take a direct branch it can see.  The last group is
  the work of the translator and of the invalidator.  Retirement and reclamation hold the invalidation
  mutex, and the scan of the tokens holds the metadata lock, which registration takes too.
\<close>

fun smc_exec :: "smc_act \<Rightarrow> SmcEpochs \<Rightarrow> SmcEpochs option" where
  "smc_exec (ARegister r table request poll rsb) s =
     (if r \<notin> set (runtimes s) \<and> scan s = None then Some (RegisterRuntime r table request poll rsb s) else None)"
| "smc_exec (AUnregister r) s = (if r \<in> set (runtimes s) \<and> pc (token s r) = Idle \<and> scan s = None then Some (UnregisterRuntime r s) else None)"
| "smc_exec (ABegin r) s = (if r \<in> set (runtimes s) \<and> pc (token s r) = Idle then Some (upd_token r ((token s r)\<lparr>pc := Looping\<rparr>) s) else None)"
| "smc_exec (ALoad r) s = (if r \<in> set (runtimes s) \<and> pc (token s r) = Looping then Some (upd_token r (BeginJit_load s (token s r)) s) else None)"
| "smc_exec (APatch r) s = (if r \<in> set (runtimes s) then (case pc (token s r) of Loaded e \<Rightarrow> Some (BeginJit_patch e r s) | _ \<Rightarrow> None) else None)"
| "smc_exec (APublish r) s = (if r \<in> set (runtimes s) then
     (case pc (token s r) of Patched e \<Rightarrow> Some (upd_token r (BeginJit_publish e (token s r)) s) | _ \<Rightarrow> None) else None)"
| "smc_exec (AValidate r) s = (if r \<in> set (runtimes s) then
     (case pc (token s r) of Published e \<Rightarrow> Some (upd_token r (BeginJit_validate s e (token s r)) s) | _ \<Rightarrow> None) else None)"
| "smc_exec (AEnd r) s = (if r \<in> set (runtimes s) \<and> pc (token s r) = Running then Some (upd_token r (EndJit (token s r)) s) else None)"
| "smc_exec (ALookup r c) s = (if r \<in> set (runtimes s) \<and> pc (token s r) = Running \<and> c \<in> visible s
     then Some (upd_token r ((token s r)\<lparr>held := insert c (held (token s r))\<rparr>) s) else None)"
| "smc_exec (ACall r c) s = (if r \<in> set (runtimes s) \<and> pc (token s r) = Running \<and> rsb_registered (token s r) \<and> c \<in> held (token s r)
     then Some (upd_token r ((token s r)\<lparr>rsb_frames := insert c (rsb_frames (token s r))\<rparr>) s) else None)"
| "smc_exec (AReturn r c) s = (if r \<in> set (runtimes s) \<and> pc (token s r) = Running \<and> c \<in> rsb_frames (token s r)
     then Some (upd_token r ((token s r)\<lparr>held := insert c (held (token s r))\<rparr>) s) else None)"
| "smc_exec (AFollow r x c) s = (if r \<in> set (runtimes s) \<and> pc (token s r) = Running \<and> x \<in> held (token s r) \<and> (x, c) \<in> fetched (token s r)
     then Some (upd_token r ((token s r)\<lparr>held := insert c (held (token s r))\<rparr>) s) else None)"
| "smc_exec (AFetch r) s = Some (upd_token r ((token s r)\<lparr>fetched := fetched (token s r) \<union> links s\<rparr>) s)"
| "smc_exec (APublishExit latch) s = Some (PublishExitRequest latch s)"
| "smc_exec (APublishCode c) s = (if c \<in> detached s then None else Some (s\<lparr>visible := insert c (visible s)\<rparr>))"
| "smc_exec (ALink x c) s = (if c \<in> detached s then None else Some (s\<lparr>links := insert (x, c) (links s)\<rparr>))"
| "smc_exec (ADelink c) s = Some (s\<lparr>visible := visible s - {c}, links := Set.filter (\<lambda>(x, d). d \<noteq> c) (links s),
     detached := insert c (detached s), patch_pending := (patch_pending s \<or> (\<exists>(x, d) \<in> links s. d = c))\<rparr>)"
| "smc_exec AAdvance s = Some (AdvanceCodePatchEpoch s)"
| "smc_exec (ARetire cs) s = (if set cs \<subseteq> detached s \<and> distinct cs \<and> set cs \<inter> fst ` set (retire_log s) = {} \<and> \<not> patch_pending s \<and>
     retiring s = [] \<and> scan s = None then Some (Retire_epoch cs s) else None)"
| "smc_exec APush s = (if scan s = None then Some (Retire_push s) else None)"
| "smc_exec (AScan c e) s = (if (c, e) \<in> set (retired s) \<and> scan s = None \<and> retiring s = [] then Some (s\<lparr>scan := Some ((c, e), runtimes s)\<rparr>) else None)"
| "smc_exec AScanStep s = (if scan s \<noteq> None then Some (CanReclaim_step s) else None)"
| "smc_exec (AFree c) s = (if c \<in> set (ready s) \<and> scan s = None then Some (ReclaimRetired_free c s) else None)"

inductive smc_trace :: "SmcEpochs \<Rightarrow> smc_act list \<Rightarrow> SmcEpochs \<Rightarrow> bool" where
  smc_stop: "smc_trace s [] s"
| smc_next: "smc_exec a s = Some s' \<Longrightarrow> smc_trace s' as s'' \<Longrightarrow> smc_trace s (a # as) s''"

inductive_simps smc_trace_simps [simp]: "smc_trace s [] s'" "smc_trace s (a # as) s'"

section \<open>The invariant\<close>

definition logged :: "SmcEpochs \<Rightarrow> code \<Rightarrow> u64 \<Rightarrow> u64 \<Rightarrow> bool" where
  "logged s c e p \<longleftrightarrow> (c, e, p) \<in> set (retire_log s)"

fun begun :: "begin_pc \<Rightarrow> u64 option" where
  "begun (Loaded e) = Some e" | "begun (Patched e) = Some e" | "begun (Published e) = Some e" | "begun _ = None"

fun patched :: "begin_pc \<Rightarrow> bool" where
  "patched (Patched e) = True" | "patched (Published e) = True" | "patched Running = True" | "patched _ = False"

definition tok_ok :: "SmcEpochs \<Rightarrow> RuntimeEpoch \<Rightarrow> bool" where
  "tok_ok s t \<longleftrightarrow>
     synced_continuation_epoch t \<le> global_epoch s \<and> synced_patch_epoch t \<le> code_patch_epoch s \<and>
     (\<forall>e. begun (pc t) = Some e \<longrightarrow> synced_continuation_epoch t = e) \<and>
     (\<forall>e. pc t = Published e \<longrightarrow> active_epoch t = e) \<and>
     (pc t = Running \<longrightarrow> active_epoch t = synced_continuation_epoch t) \<and>
     (pc t \<noteq> Running \<longrightarrow> held t = {}) \<and>
     (patched (pc t) \<longrightarrow> (\<forall>c e p. logged s c e p \<longrightarrow> e \<le> synced_continuation_epoch t \<longrightarrow> p \<le> synced_patch_epoch t)) \<and>
     (\<not> rsb_registered t \<longrightarrow> rsb_frames t = {}) \<and>
     (\<forall>c e p. c \<in> rsb_frames t \<longrightarrow> logged s c e p \<longrightarrow> synced_continuation_epoch t < e) \<and>
     (\<forall>c e p. c \<in> held t \<longrightarrow> logged s c e p \<longrightarrow> synced_continuation_epoch t < e) \<and>
     (\<forall>x c e p. (x, c) \<in> fetched t \<longrightarrow> logged s c e p \<longrightarrow> synced_patch_epoch t < p) \<and>
     (\<forall>x c. (x, c) \<in> fetched t \<longrightarrow> (x, c) \<in> links s \<or> c \<in> detached s \<and> (synced_patch_epoch t < code_patch_epoch s \<or> patch_pending s))"

definition passed :: "RuntimeEpoch \<Rightarrow> u64 \<Rightarrow> bool" where
  "passed t e \<longleftrightarrow> (pc t = Running \<longrightarrow> e \<le> active_epoch t)"

definition smc_ok :: "SmcEpochs \<Rightarrow> bool" where
  "smc_ok s \<longleftrightarrow>
     (\<forall>r. tok_ok s (token s r)) \<and>
     (\<forall>r. r \<notin> set (runtimes s) \<longrightarrow> pc (token s r) = Idle) \<and>
     (\<forall>c e p. logged s c e p \<longrightarrow> c \<in> detached s \<and> e \<le> global_epoch s \<and> p \<le> code_patch_epoch s) \<and>
     (\<forall>c \<in> detached s. c \<notin> visible s \<and> (\<forall>x. (x, c) \<notin> links s)) \<and>
     (\<forall>c e. (c, e) \<in> set (retired s) \<union> set (retiring s) \<longrightarrow> (\<exists>p. logged s c e p)) \<and>
     (\<forall>c e rest. scan s = Some ((c, e), rest) \<longrightarrow> (\<exists>p. logged s c e p) \<and> (\<forall>r. r \<notin> set rest \<longrightarrow> passed (token s r) e)) \<and>
     (\<forall>c \<in> set (ready s) \<union> freed s. \<exists>e p. logged s c e p \<and> (\<forall>r. passed (token s r) e))"

lemma tok_ok_cong:
  "global_epoch s' = global_epoch s \<Longrightarrow> code_patch_epoch s' = code_patch_epoch s \<Longrightarrow> retire_log s' = retire_log s \<Longrightarrow> links s' = links s \<Longrightarrow>
   detached s' = detached s \<Longrightarrow> patch_pending s' = patch_pending s \<Longrightarrow> tok_ok s' t = tok_ok s t"
  by (simp add: tok_ok_def logged_def)

lemma upd_token_sel [simp]:
  "global_epoch (upd_token r t s) = global_epoch s" "code_patch_epoch (upd_token r t s) = code_patch_epoch s"
  "retire_log (upd_token r t s) = retire_log s" "links (upd_token r t s) = links s" "detached (upd_token r t s) = detached s"
  "patch_pending (upd_token r t s) = patch_pending s" "runtimes (upd_token r t s) = runtimes s" "retired (upd_token r t s) = retired s"
  "retiring (upd_token r t s) = retiring s" "scan (upd_token r t s) = scan s" "ready (upd_token r t s) = ready s"
  "freed (upd_token r t s) = freed s" "visible (upd_token r t s) = visible s" "token (upd_token r t s) = (token s)(r := t)"
  "logged (upd_token r t s) = logged s" "tok_ok (upd_token r t s) = tok_ok s"
  by (simp_all add: upd_token_def logged_def fun_eq_iff tok_ok_def)

lemma upd_token_ok:
  assumes "smc_ok s" "tok_ok s t" "r \<in> set (runtimes s) \<or> pc t = Idle"
    "\<And>c e p. logged s c e p \<Longrightarrow> passed (token s r) e \<Longrightarrow> passed t e"
  shows "smc_ok (upd_token r t s)"
proof -
  have p: "passed (((token s)(r := t)) x) e" if "logged s c e p" "passed (token s x) e" for x c e p
    using assms(4)[OF that(1)] that(2) by auto
  have "\<forall>c e rest. scan s = Some ((c, e), rest) \<longrightarrow>
      (\<exists>p. logged s c e p) \<and> (\<forall>x. x \<notin> set rest \<longrightarrow> passed (((token s)(r := t)) x) e)"
    using assms(1) p unfolding smc_ok_def by metis
  moreover have "\<forall>c \<in> set (ready s) \<union> freed s. \<exists>e p. logged s c e p \<and> (\<forall>x. passed (((token s)(r := t)) x) e)"
    using assms(1) unfolding smc_ok_def by (metis p)
  ultimately show ?thesis using assms(1-3) unfolding smc_ok_def upd_token_sel by simp blast
qed

lemma smc_ok_frame:
  assumes "smc_ok s" "global_epoch s' = global_epoch s" "code_patch_epoch s' = code_patch_epoch s" "retire_log s' = retire_log s"
    "links s' = links s" "detached s' = detached s" "patch_pending s' = patch_pending s" "retired s' = retired s" "retiring s' = retiring s"
    "scan s' = scan s" "ready s' = ready s" "freed s' = freed s" "visible s' = visible s" "token s' = token s"
    "\<And>r. r \<notin> set (runtimes s') \<Longrightarrow> pc (token s' r) = Idle"
  shows "smc_ok s'"
proof -
  have l: "logged s' = logged s" by (simp add: fun_eq_iff logged_def assms(4))
  have t: "tok_ok s' = tok_ok s" by (rule ext, rule tok_ok_cong) (simp_all add: assms)
  show ?thesis using assms(1,15) unfolding smc_ok_def assms(2-14) l t by blast
qed

lemma smc_okI:
  assumes "\<And>r. tok_ok s (token s r)" "\<And>r. r \<notin> set (runtimes s) \<Longrightarrow> pc (token s r) = Idle"
    "\<And>c e p. logged s c e p \<Longrightarrow> c \<in> detached s \<and> e \<le> global_epoch s \<and> p \<le> code_patch_epoch s"
    "\<And>c x. c \<in> detached s \<Longrightarrow> c \<notin> visible s \<and> (x, c) \<notin> links s"
    "\<And>c e. (c, e) \<in> set (retired s) \<union> set (retiring s) \<Longrightarrow> \<exists>p. logged s c e p"
    "\<And>c e rest. scan s = Some ((c, e), rest) \<Longrightarrow> (\<exists>p. logged s c e p) \<and> (\<forall>r. r \<notin> set rest \<longrightarrow> passed (token s r) e)"
    "\<And>c. c \<in> set (ready s) \<union> freed s \<Longrightarrow> \<exists>e p. logged s c e p \<and> (\<forall>r. passed (token s r) e)"
  shows "smc_ok s"
  unfolding smc_ok_def using assms by (intro conjI allI impI ballI) blast+

lemma smc_okD:
  assumes "smc_ok s"
  shows "tok_ok s (token s r)" "logged s c e p \<Longrightarrow> e \<le> global_epoch s" "logged s c e p \<Longrightarrow> p \<le> code_patch_epoch s"
    "logged s c e p \<Longrightarrow> c \<in> detached s" "c \<in> visible s \<Longrightarrow> \<not> logged s c e p" "(x, c) \<in> links s \<Longrightarrow> \<not> logged s c e p"
    "(x, c) \<in> links s \<Longrightarrow> c \<notin> detached s" "c \<in> visible s \<Longrightarrow> c \<notin> detached s"
  using assms unfolding smc_ok_def by blast+

section \<open>Steps of a runtime\<close>

lemma RegisterRuntime_ok:
  assumes "smc_ok s" "r \<notin> set (runtimes s)" "scan s = None"
  shows "smc_ok (RegisterRuntime r table request poll rsb s)"
proof -
  define t where "t = new_token\<lparr>synced_patch_epoch := code_patch_epoch s, synced_continuation_epoch := global_epoch s,
    l1 := table, exit_request := request, interrupt_poll := poll, rsb_registered := rsb, fetched := links s\<rparr>"
  have "tok_ok s t" using smc_okD[OF assms(1)] by (auto simp: tok_ok_def t_def new_token_def)
  then have "smc_ok (upd_token r t s)" by (intro upd_token_ok assms) (simp_all add: passed_def t_def new_token_def)
  then show ?thesis unfolding RegisterRuntime_def t_def[symmetric]
    by (rule smc_ok_frame) (use assms(1) in \<open>auto simp: smc_ok_def\<close>)
qed

lemma UnregisterRuntime_ok:
  assumes "smc_ok s" "pc (token s r) = Idle" "scan s = None"
  shows "smc_ok (UnregisterRuntime r s)"
proof -
  define t where "t = (token s r)\<lparr>active_epoch := kInactiveEpoch\<rparr>"
  have "tok_ok s t" using smc_okD(1)[OF assms(1), of r] assms(2) by (simp add: tok_ok_def t_def)
  then have "smc_ok (upd_token r t s)" by (intro upd_token_ok assms) (simp_all add: passed_def t_def assms(2))
  then show ?thesis unfolding UnregisterRuntime_def t_def[symmetric]
    by (rule smc_ok_frame) (use assms in \<open>auto simp: smc_ok_def t_def\<close>)
qed

lemma ABegin_ok:
  assumes "smc_ok s" "r \<in> set (runtimes s)" "pc (token s r) = Idle"
  shows "smc_ok (upd_token r ((token s r)\<lparr>pc := Looping\<rparr>) s)"
  using smc_okD(1)[OF assms(1), of r] assms by (intro upd_token_ok) (simp_all add: tok_ok_def passed_def)

lemma ALoad_ok:
  assumes "smc_ok s" "r \<in> set (runtimes s)" "pc (token s r) = Looping"
  shows "smc_ok (upd_token r (BeginJit_load s (token s r)) s)"
proof (rule upd_token_ok)
  show "tok_ok s (BeginJit_load s (token s r))"
  proof (cases "synced_continuation_epoch (token s r) = global_epoch s")
    case True
    then show ?thesis using smc_okD(1)[OF assms(1), of r] assms(3)
      by (simp add: tok_ok_def BeginJit_load_def SynchronizeContinuation_def True[symmetric])
  next
    case False
    then show ?thesis using smc_okD(1)[OF assms(1), of r] assms(3)
      by (simp add: tok_ok_def BeginJit_load_def SynchronizeContinuation_def)
  qed
qed (use assms in \<open>simp_all add: BeginJit_load_def passed_def\<close>)

lemma APatch_ok:
  assumes "smc_ok s" "r \<in> set (runtimes s)" "pc (token s r) = Loaded e"
  shows "smc_ok (BeginJit_patch e r s)"
proof -
  define t where "t = (if synced_patch_epoch (token s r) < code_patch_epoch s
    then (token s r)\<lparr>pc := Patched e, fetched := links s, synced_patch_epoch := code_patch_epoch s, patch_sync_count := patch_sync_count (token s r) + 1\<rparr>
    else (token s r)\<lparr>pc := Patched e\<rparr>)"
  have "tok_ok s t" using smc_okD(1)[OF assms(1), of r] assms(3) smc_okD(3,6)[OF assms(1)]
    unfolding tok_ok_def t_def by auto
  then have "smc_ok (upd_token r t s)" using assms by (intro upd_token_ok) (auto simp: passed_def t_def)
  moreover obtain k where k: "BeginJit_patch e r s = (upd_token r t s)\<lparr>tracker_sync_count := k\<rparr>"
  proof
    show "BeginJit_patch e r s = (upd_token r t s)\<lparr>tracker_sync_count := tracker_sync_count (BeginJit_patch e r s)\<rparr>"
      by (simp add: BeginJit_patch_def Let_def t_def upd_token_def)
  qed
  ultimately show ?thesis unfolding k by (elim smc_ok_frame) (use assms in \<open>auto simp: smc_ok_def\<close>)
qed

lemma APublish_ok:
  assumes "smc_ok s" "r \<in> set (runtimes s)" "pc (token s r) = Patched e"
  shows "smc_ok (upd_token r (BeginJit_publish e (token s r)) s)"
  using smc_okD(1)[OF assms(1), of r] assms by (intro upd_token_ok) (auto simp: tok_ok_def passed_def BeginJit_publish_def)

lemma AValidate_ok:
  assumes "smc_ok s" "r \<in> set (runtimes s)" "pc (token s r) = Published e"
  shows "smc_ok (upd_token r (BeginJit_validate s e (token s r)) s)"
proof (rule upd_token_ok)
  show "tok_ok s (BeginJit_validate s e (token s r))"
    using smc_okD(1)[OF assms(1), of r] assms(3) unfolding tok_ok_def BeginJit_validate_def by auto
  show "passed (BeginJit_validate s e (token s r)) e'" if "logged s c e' p" for c e' p
    using smc_okD(1)[OF assms(1), of r] smc_okD(2)[OF assms(1) that] assms(3)
    unfolding passed_def BeginJit_validate_def tok_ok_def by auto
qed (use assms in simp_all)

lemma AEnd_ok:
  assumes "smc_ok s" "r \<in> set (runtimes s)" "pc (token s r) = Running"
  shows "smc_ok (upd_token r (EndJit (token s r)) s)"
  using smc_okD(1)[OF assms(1), of r] assms by (intro upd_token_ok) (simp_all add: tok_ok_def passed_def EndJit_def)

text \<open>Code a running thread may enter is code whose retirement, if any, is newer than the thread's epoch.\<close>

definition enterable :: "SmcEpochs \<Rightarrow> RuntimeEpoch \<Rightarrow> code \<Rightarrow> bool" where
  "enterable s t c \<longleftrightarrow> c \<in> visible s \<or> c \<in> rsb_frames t \<or> c \<in> held t \<or> (\<exists>x \<in> held t. (x, c) \<in> fetched t)"

lemma enterable_newer:
  assumes "smc_ok s" "pc (token s r) = Running" "enterable s (token s r) c" "logged s c e p"
  shows "active_epoch (token s r) < e"
proof -
  have t: "tok_ok s (token s r)" by (rule smc_okD(1)[OF assms(1)])
  then have a: "active_epoch (token s r) = synced_continuation_epoch (token s r)" using assms(2) by (simp add: tok_ok_def)
  consider "c \<in> rsb_frames (token s r)" | "c \<in> held (token s r)" | x where "(x, c) \<in> fetched (token s r)"
    using assms(3,4) smc_okD(5)[OF assms(1), of c e p] unfolding enterable_def by blast
  then show ?thesis
  proof cases
    case 3
    have "synced_patch_epoch (token s r) < p" using t 3 assms(4) unfolding tok_ok_def by blast
    moreover have "e \<le> synced_continuation_epoch (token s r) \<Longrightarrow> p \<le> synced_patch_epoch (token s r)"
      using t assms(2,4) unfolding tok_ok_def by (metis patched.simps(3))
    ultimately show ?thesis using a by fastforce
  qed (use t assms(4) a in \<open>unfold tok_ok_def, metis\<close>)+
qed

lemma enter_ok:
  assumes "smc_ok s" "r \<in> set (runtimes s)" "pc (token s r) = Running" "enterable s (token s r) c"
  shows "smc_ok (upd_token r ((token s r)\<lparr>held := insert c (held (token s r))\<rparr>) s)"
proof (rule upd_token_ok)
  have "active_epoch (token s r) = synced_continuation_epoch (token s r)"
    using smc_okD(1)[OF assms(1), of r] assms(3) by (simp add: tok_ok_def)
  then have "\<forall>e p. logged s c e p \<longrightarrow> synced_continuation_epoch (token s r) < e"
    using enterable_newer[OF assms(1,3,4)] by simp
  then show "tok_ok s ((token s r)\<lparr>held := insert c (held (token s r))\<rparr>)"
    using smc_okD(1)[OF assms(1), of r] assms(3) unfolding tok_ok_def by simp blast
qed (use assms in \<open>simp_all add: passed_def\<close>)

lemma ACall_ok:
  assumes "smc_ok s" "r \<in> set (runtimes s)" "pc (token s r) = Running" "rsb_registered (token s r)" "c \<in> held (token s r)"
  shows "smc_ok (upd_token r ((token s r)\<lparr>rsb_frames := insert c (rsb_frames (token s r))\<rparr>) s)"
proof (rule upd_token_ok)
  show "tok_ok s ((token s r)\<lparr>rsb_frames := insert c (rsb_frames (token s r))\<rparr>)"
    using smc_okD(1)[OF assms(1), of r] assms(3-5) unfolding tok_ok_def by simp blast
qed (use assms in \<open>simp_all add: passed_def\<close>)

lemma AFetch_ok:
  assumes "smc_ok s"
  shows "smc_ok (upd_token r ((token s r)\<lparr>fetched := fetched (token s r) \<union> links s\<rparr>) s)"
proof (rule upd_token_ok)
  show "tok_ok s ((token s r)\<lparr>fetched := fetched (token s r) \<union> links s\<rparr>)"
    using smc_okD(1)[OF assms, of r] smc_okD(6)[OF assms] unfolding tok_ok_def by auto
  show "r \<in> set (runtimes s) \<or> pc ((token s r)\<lparr>fetched := fetched (token s r) \<union> links s\<rparr>) = Idle"
    using assms by (auto simp: smc_ok_def)
qed (use assms in \<open>simp_all add: passed_def\<close>)

section \<open>Steps of the invalidator\<close>

definition fits :: "SmcEpochs \<Rightarrow> bool" where
  "fits s \<longleftrightarrow> global_epoch s < kInactiveEpoch \<and> code_patch_epoch s < kInactiveEpoch"

lemma below_inactive: "x < kInactiveEpoch \<Longrightarrow> x < x + 1"
proof -
  assume "x < kInactiveEpoch"
  then have "unat x < 2 ^ 64 - 1" by (simp add: kInactiveEpoch_def word_less_nat_alt unsigned_minus_1_eq_mask mask_eq_exp_minus_1)
  then have "unat (x + 1) = unat x + 1" by (subst unat_add_no_wrap) simp_all
  then show ?thesis by (simp add: word_less_nat_alt)
qed

lemma publish_exit_sel [simp]:
  "active_epoch (publish_exit t) = active_epoch t" "synced_patch_epoch (publish_exit t) = synced_patch_epoch t"
  "synced_continuation_epoch (publish_exit t) = synced_continuation_epoch t" "rsb_registered (publish_exit t) = rsb_registered t"
  "rsb_frames (publish_exit t) = rsb_frames t" "pc (publish_exit t) = pc t" "held (publish_exit t) = held t" "fetched (publish_exit t) = fetched t"
  "tok_ok s (publish_exit t) = tok_ok s t" "passed (publish_exit t) e = passed t e"
  by (simp_all add: publish_exit_def tok_ok_def passed_def split: option.split)

lemma PublishExitRequest_ok:
  assumes "smc_ok s"
  shows "smc_ok (PublishExitRequest latch s)" (is "smc_ok ?s")
proof (cases latch)
  case True
  have l: "logged ?s = logged s" by (simp add: logged_def fun_eq_iff PublishExitRequest_def)
  have t: "tok_ok ?s = tok_ok s" by (rule ext, rule tok_ok_cong) (simp_all add: PublishExitRequest_def)
  have p: "passed (token ?s r) e = passed (token s r) e" "tok_ok s (token ?s r) = tok_ok s (token s r)" "pc (token ?s r) = pc (token s r)" for r e
    by (simp_all add: PublishExitRequest_def)
  show ?thesis using assms unfolding smc_ok_def l t p by (auto simp: PublishExitRequest_def True)
qed (use assms in \<open>simp add: PublishExitRequest_def\<close>)

lemma APublishCode_ok:
  assumes "smc_ok s" "c \<notin> detached s"
  shows "smc_ok (s\<lparr>visible := insert c (visible s)\<rparr>)" (is "smc_ok ?s")
proof -
  have l: "logged ?s = logged s" by (simp add: logged_def fun_eq_iff)
  have t: "tok_ok ?s = tok_ok s" by (rule ext, rule tok_ok_cong) simp_all
  show ?thesis using assms unfolding smc_ok_def l t by auto
qed

lemma ALink_ok:
  assumes "smc_ok s" "c \<notin> detached s"
  shows "smc_ok (s\<lparr>links := insert (x, c) (links s)\<rparr>)"
proof -
  have "tok_ok (s\<lparr>links := insert (x, c) (links s)\<rparr>) t" if "tok_ok s t" for t
    using that unfolding tok_ok_def logged_def by simp
  then show ?thesis using assms unfolding smc_ok_def logged_def by auto
qed

lemma ADelink_ok:
  assumes "smc_ok s"
  shows "smc_ok (s\<lparr>visible := visible s - {c}, links := Set.filter (\<lambda>(x, d). d \<noteq> c) (links s),
     detached := insert c (detached s), patch_pending := (patch_pending s \<or> (\<exists>(x, d) \<in> links s. d = c))\<rparr>)" (is "smc_ok ?s")
proof -
  have l: "logged ?s = logged s" by (simp add: logged_def fun_eq_iff)
  have "tok_ok ?s t" if t: "tok_ok s t" for t
  proof -
    have "(x, d) \<in> links ?s \<or> d \<in> detached ?s \<and> (synced_patch_epoch t < code_patch_epoch ?s \<or> patch_pending ?s)"
      if "(x, d) \<in> fetched t" for x d
    proof (cases "(x, d) \<in> links s")
      case False
      then show ?thesis using t that unfolding tok_ok_def by auto
    qed auto
    then show ?thesis using t unfolding tok_ok_def l by simp
  qed
  then show ?thesis using assms unfolding smc_ok_def l by auto
qed

lemma AAdvance_ok:
  assumes "smc_ok s" "fits s"
  shows "smc_ok (AdvanceCodePatchEpoch s)"
proof -
  have p: "code_patch_epoch s < code_patch_epoch s + 1" using assms(2) below_inactive by (simp add: fits_def)
  have l: "logged (AdvanceCodePatchEpoch s) = logged s" by (simp add: logged_def fun_eq_iff AdvanceCodePatchEpoch_def)
  have "tok_ok (AdvanceCodePatchEpoch s) t" if "tok_ok s t" for t
    using that p unfolding tok_ok_def l by (auto simp: AdvanceCodePatchEpoch_def)
  moreover have "q \<le> code_patch_epoch s + 1" if "logged s c e q" for c e q
    using smc_okD(3)[OF assms(1) that] p by simp
  ultimately show ?thesis using assms(1) unfolding smc_ok_def l by (auto simp: AdvanceCodePatchEpoch_def)
qed

lemma Retire_epoch_ok:
  assumes "smc_ok s" "fits s" "set cs \<subseteq> detached s" "\<not> patch_pending s" "retiring s = []" "scan s = None"
  shows "smc_ok (Retire_epoch cs s)"
proof (cases "cs = []")
  case False
  let ?s = "Retire_epoch cs s" and ?e = "global_epoch s + 1"
  have g: "global_epoch s < ?e" using assms(2) below_inactive by (simp add: fits_def)
  have l: "logged ?s c e p \<longleftrightarrow> logged s c e p \<or> c \<in> set cs \<and> e = ?e \<and> p = code_patch_epoch s" for c e p
    using False by (auto simp: Retire_epoch_def Let_def logged_def)
  have sel: "global_epoch ?s = ?e" "code_patch_epoch ?s = code_patch_epoch s" "runtimes ?s = runtimes s" "token ?s = token s"
    "retiring ?s = map (\<lambda>c. (c, ?e)) cs" "retired ?s = retired s" "scan ?s = None" "ready ?s = ready s" "freed ?s = freed s"
    "visible ?s = visible s" "links ?s = links s" "detached ?s = detached s" "patch_pending ?s = False"
    using False assms(4,6) by (simp_all add: Retire_epoch_def Let_def)
  have "tok_ok ?s t" if t: "tok_ok s t" for t
  proof -
    have n: "synced_continuation_epoch t < ?e" using t g unfolding tok_ok_def by (blast intro: le_less_trans)
    have "synced_patch_epoch t < code_patch_epoch s" if "(x, c) \<in> fetched t" "c \<in> set cs" for x c
    proof -
      have "c \<in> detached s" "(x, c) \<notin> links s" using that(2) assms(3) smc_okD(7)[OF assms(1)] by blast+
      then show ?thesis using t that(1) assms(4) unfolding tok_ok_def by blast
    qed
    then show ?thesis using t n unfolding tok_ok_def l sel by (simp add: assms(4))
  qed
  then show ?thesis
  proof (intro smc_okI)
    show "c \<in> detached ?s \<and> e \<le> global_epoch ?s \<and> p \<le> code_patch_epoch ?s" if "logged ?s c e p" for c e p
      using that smc_okD(2-4)[OF assms(1), of c e p] g assms(3) unfolding l sel by auto
    show "\<exists>p. logged ?s c e p" if "(c, e) \<in> set (retired ?s) \<union> set (retiring ?s)" for c e
      using that assms(1,5) unfolding smc_ok_def l sel by auto blast
    show "\<exists>e p. logged ?s c e p \<and> (\<forall>r. passed (token ?s r) e)" if "c \<in> set (ready ?s) \<union> freed ?s" for c
      using that assms(1) unfolding smc_ok_def l sel by blast
  qed (use assms(1) in \<open>auto simp: smc_ok_def sel\<close>)
qed (use assms in \<open>simp add: Retire_epoch_def\<close>)

lemma Retire_push_ok: "smc_ok s \<Longrightarrow> scan s = None \<Longrightarrow> smc_ok (Retire_push s)"
  unfolding smc_ok_def Retire_push_def tok_ok_def logged_def by auto

lemma AScan_ok:
  assumes "smc_ok s" "(c, e) \<in> set (retired s)"
  shows "smc_ok (s\<lparr>scan := Some ((c, e), runtimes s)\<rparr>)" (is "smc_ok ?s")
proof -
  have l: "logged ?s = logged s" by (simp add: logged_def fun_eq_iff)
  have t: "tok_ok ?s = tok_ok s" by (rule ext, rule tok_ok_cong) simp_all
  have p: "\<exists>p. logged s c e p"
    using assms unfolding smc_ok_def by blast
  show ?thesis using assms(1) p unfolding smc_ok_def l t by (auto simp: passed_def)
qed

lemma not_blocked_passed:
  assumes "smc_ok s" "fits s" "\<not> CanReclaim_blocked e (token s r)"
  shows "passed (token s r) e"
proof -
  have "active_epoch (token s r) \<noteq> kInactiveEpoch" if "pc (token s r) = Running"
    using smc_okD(1)[OF assms(1), of r] that assms(2) unfolding tok_ok_def fits_def by auto
  then show ?thesis using assms(3) by (auto simp: passed_def CanReclaim_blocked_def)
qed

lemma CanReclaim_step_ok:
  assumes "smc_ok s" "fits s"
  shows "smc_ok (CanReclaim_step s)"
proof -
  let ?s = "CanReclaim_step s"
  have sel: "global_epoch ?s = global_epoch s" "code_patch_epoch ?s = code_patch_epoch s" "runtimes ?s = runtimes s" "token ?s = token s"
    "retiring ?s = retiring s" "freed ?s = freed s" "retire_log ?s = retire_log s"
    "visible ?s = visible s" "links ?s = links s" "detached ?s = detached s" "patch_pending ?s = patch_pending s"
    by (simp_all add: CanReclaim_step_def split: option.split list.split)
  have l: "logged ?s = logged s" by (simp add: logged_def fun_eq_iff sel)
  have t: "tok_ok ?s = tok_ok s" by (rule ext, rule tok_ok_cong) (simp_all add: sel)
  have "set (retired ?s) \<subseteq> set (retired s)" by (auto simp: CanReclaim_step_def split: option.split list.split)
  moreover have "(\<exists>p. logged s c e p) \<and> (\<forall>r. r \<notin> set rest \<longrightarrow> passed (token s r) e)" if n: "scan ?s = Some ((c, e), rest)" for c e rest
  proof -
    obtain r where r: "scan s = Some ((c, e), r # rest)" "\<not> CanReclaim_blocked e (token s r)"
      using n unfolding CanReclaim_step_def by (auto split: option.splits list.splits if_splits)
    then have "(\<exists>p. logged s c e p) \<and> (\<forall>x. x \<notin> set (r # rest) \<longrightarrow> passed (token s x) e)"
      using assms(1) unfolding smc_ok_def by blast
    then show ?thesis using not_blocked_passed[OF assms r(2)] by auto
  qed
  moreover have "\<exists>e p. logged s c e p \<and> (\<forall>r. passed (token s r) e)" if n: "c \<in> set (ready ?s) \<union> freed s" for c
  proof -
    consider "c \<in> set (ready s) \<union> freed s" | e where "scan s = Some ((c, e), [])"
      using n unfolding CanReclaim_step_def by (auto split: option.splits list.splits if_splits)
    then show ?thesis
    proof cases
      case (2 e)
      then have "(\<exists>p. logged s c e p) \<and> (\<forall>r. r \<notin> set [] \<longrightarrow> passed (token s r) e)" using assms(1) unfolding smc_ok_def by blast
      then show ?thesis by auto
    qed (use assms(1) in \<open>auto simp: smc_ok_def\<close>)
  qed
  ultimately show ?thesis
    by (intro smc_okI; unfold l t sel) (use assms(1) in \<open>auto simp: smc_ok_def\<close>)
qed

lemma ReclaimRetired_free_ok:
  assumes "smc_ok s" "c \<in> set (ready s)"
  shows "smc_ok (ReclaimRetired_free c s)" (is "smc_ok ?s")
proof -
  have l: "logged ?s = logged s" by (simp add: logged_def fun_eq_iff ReclaimRetired_free_def)
  have t: "tok_ok ?s = tok_ok s" by (rule ext, rule tok_ok_cong) (simp_all add: ReclaimRetired_free_def)
  show ?thesis using assms unfolding smc_ok_def l t by (auto simp: ReclaimRetired_free_def)
qed

section \<open>Every trace\<close>

lemma smc_new_ok: "smc_ok SmcEpochs_new"
  by (simp add: smc_ok_def tok_ok_def SmcEpochs_new_def new_token_def logged_def)

lemma smc_exec_ok:
  assumes "smc_ok s" "fits s" "smc_exec a s = Some s'"
  shows "smc_ok s'"
proof (cases a)
  case (ADelink c)
  then show ?thesis using ADelink_ok[OF assms(1)] assms(3) by auto
next
  case (ARetire cs)
  then show ?thesis using Retire_epoch_ok[OF assms(1,2)] assms(3) by (auto split: if_splits)
next
  case (AFollow r x c)
  then show ?thesis using enter_ok[OF assms(1)] assms(3) by (auto simp: enterable_def split: if_splits)
qed (use assms in \<open>auto simp: enterable_def split: if_splits begin_pc.splits
      intro: RegisterRuntime_ok UnregisterRuntime_ok ABegin_ok ALoad_ok APatch_ok APublish_ok AValidate_ok AEnd_ok enter_ok ACall_ok
        AFetch_ok PublishExitRequest_ok APublishCode_ok ALink_ok AAdvance_ok Retire_push_ok AScan_ok CanReclaim_step_ok ReclaimRetired_free_ok\<close>)

lemma unat_inc_le: "unat (x + 1 :: u64) \<le> unat x + 1"
  by (metis mod_less_eq_dividend unat_word_ariths(1) unsigned_1)

lemma smc_exec_epochs:
  assumes "smc_exec a s = Some s'"
  shows "unat (global_epoch s') \<le> unat (global_epoch s) + 1" "unat (code_patch_epoch s') \<le> unat (code_patch_epoch s) + 1"
  using assms unat_inc_le[of "global_epoch s"] unat_inc_le[of "code_patch_epoch s"]
  by (cases a; auto simp: RegisterRuntime_def UnregisterRuntime_def BeginJit_patch_def Let_def AdvanceCodePatchEpoch_def
        Retire_epoch_def Retire_push_def CanReclaim_step_def ReclaimRetired_free_def PublishExitRequest_def
        split: if_splits begin_pc.splits option.splits list.splits)+

lemma smc_trace_ok:
  assumes "smc_trace s as s'" "smc_ok s" "unat (global_epoch s) + length as < 2 ^ 64 - 1" "unat (code_patch_epoch s) + length as < 2 ^ 64 - 1"
  shows "smc_ok s' \<and> fits s'"
  using assms
proof (induction rule: smc_trace.induct)
  case (smc_stop s)
  then show ?case by (simp add: fits_def kInactiveEpoch_def word_less_nat_alt unsigned_minus_1_eq_mask mask_eq_exp_minus_1)
next
  case (smc_next a s s' as s'')
  have "fits s" using smc_next.prems
    by (simp add: fits_def kInactiveEpoch_def word_less_nat_alt unsigned_minus_1_eq_mask mask_eq_exp_minus_1)
  then have "smc_ok s'" using smc_exec_ok smc_next.hyps(1) smc_next.prems(1) by blast
  then show ?case using smc_next.IH smc_next.prems smc_exec_epochs[OF smc_next.hyps(1)] by simp
qed

lemma smc_reached_ok:
  assumes "smc_trace SmcEpochs_new as s" "length as < 2 ^ 64 - 2"
  shows "smc_ok s \<and> fits s"
  by (rule smc_trace_ok[OF assms(1) smc_new_ok]) (use assms(2) in \<open>simp_all add: SmcEpochs_new_def\<close>)

lemma smc_trace_append: "smc_trace s as s' \<Longrightarrow> smc_trace s' bs s'' \<Longrightarrow> smc_trace s (as @ bs) s''"
  by (induction rule: smc_trace.induct) auto

lemma scan_completes:
  assumes "scan s = Some ((c, e), rs)" "\<forall>r \<in> set rs. \<not> CanReclaim_blocked e (token s r)"
  shows "smc_trace s (replicate (Suc (length rs)) AScanStep)
    (s\<lparr>scan := None, retired := filter (\<lambda>x. x \<noteq> (c, e)) (retired s), ready := c # ready s\<rparr>)"
  using assms
proof (induction rs arbitrary: s)
  case (Cons r rs)
  then show ?case using Cons.IH[of "s\<lparr>scan := Some ((c, e), rs)\<rparr>"] by (simp add: CanReclaim_step_def)
qed (simp add: CanReclaim_step_def)

lemma BeginJit_enters:
  assumes "r \<in> set (runtimes s)" "pc (token s r) = Looping"
  shows "\<exists>s'. smc_trace s [ALoad r, APatch r, APublish r, AValidate r] s' \<and> pc (token s' r) = Running \<and>
    active_epoch (token s' r) = global_epoch s"
  using assms by (simp add: BeginJit_load_def BeginJit_patch_def BeginJit_publish_def BeginJit_validate_def Let_def)

section \<open>Properties\<close>


fun smc_fold :: "smc_act list \<Rightarrow> SmcEpochs \<Rightarrow> SmcEpochs option" where
  "smc_fold [] s = Some s"
| "smc_fold (a # as) s = Option.bind (smc_exec a s) (smc_fold as)"

lemma smc_fold_trace: "smc_fold as s = Some s' \<Longrightarrow> smc_trace s as s'"
  by (induction as arbitrary: s) (auto simp: bind_eq_Some_conv)

lemma smc_fold_the: "smc_fold as s \<noteq> None \<Longrightarrow> smc_trace s as (the (smc_fold as s))"
  using smc_fold_trace by fastforce

text \<open>
  Thread 0 runs \<open>a\<close>, follows the direct branch to \<open>b\<close> and pushes a return frame for it; \<open>b\<close> is then
  delinked and retired while thread 1 is entering, and reclaimed once both threads have moved on.
\<close>

abbreviation code_a :: code where "code_a \<equiv> ReclaimCandidate 1 0x100"
abbreviation code_b :: code where "code_b \<equiv> ReclaimCandidate 1 0x200"

definition smc_history :: "smc_act list" where
  "smc_history =
     [ARegister 0 None None None True, ARegister 1 None None None True, APublishCode code_a, APublishCode code_b, ALink code_a code_b,
      ABegin 0, ALoad 0, APatch 0, APublish 0, AValidate 0, ALookup 0 code_a, AFetch 0, AFollow 0 code_a code_b,
      ACall 0 code_b, ABegin 1, ALoad 1, ADelink code_b, AAdvance, ARetire [code_b], APush,
      APatch 1, APublish 1, AValidate 1, AScan code_b 2, AScanStep, AEnd 0,
      ABegin 0, ALoad 0, APatch 0, APublish 0, AValidate 0, ALookup 0 code_a, ALoad 1, APatch 1, APublish 1, AValidate 1]"

definition smc_reclaimed :: SmcEpochs where
  "smc_reclaimed = the (smc_fold (smc_history @ [AScan code_b 2, AScanStep, AScanStep, AScanStep, AFree code_b]) SmcEpochs_new)"

definition smc_waiting :: SmcEpochs where
  "smc_waiting = the (smc_fold smc_history SmcEpochs_new)"




end
