(* ===== verification/Address_Map.thy ===== *)
theory Address_Map
  imports Prelude
begin

text \<open>
  The bucketed address map of \<^verbatim>\<open>common/address_hash_map.h\<close>, from guest locations to nodes.  A bucket
  is the intrusive red-black tree of the nodes of one stretch of addresses, here its elements in key
  order; the key of a node is its location, which is the address every caller passes.  The map is shown to
  keep the laws of a partial function on the addresses it covers.
\<close>

section \<open>The map\<close>

type_synonym bucket = "(u64 \<times> nat) list"

record AddressHashMap =
  addr_start :: u64
  addr_end :: u64
  hash_item_size :: u64
  hash_size :: u64
  hash_map :: "u64 \<Rightarrow> bucket option"

definition AddressHashMap_new :: "u64 \<Rightarrow> u64 \<Rightarrow> u64 \<Rightarrow> AddressHashMap" where
  "AddressHashMap_new start stop item_size =
     \<lparr>addr_start = start, addr_end = stop, hash_item_size = item_size, hash_size = (stop - start) div item_size + 1,
      hash_map = (\<lambda>_. None)\<rparr>"

definition AHash :: "AddressHashMap \<Rightarrow> u64 \<Rightarrow> u64" where
  "AHash m addr = (addr - addr_start m) div hash_item_size m"

definition InRange :: "AddressHashMap \<Rightarrow> u64 \<Rightarrow> bool" where
  "InRange m addr = (addr \<ge> addr_start m \<and> AHash m addr < hash_size m)"

definition AMap_Get :: "AddressHashMap \<Rightarrow> u64 \<Rightarrow> nat option" where
  "AMap_Get m addr =
     (if \<not> InRange m addr then None
      else case hash_map m (AHash m addr) of None \<Rightarrow> None | Some b \<Rightarrow> map_of b addr)"

text \<open>The tree inserts a node only if none has its key.\<close>

definition bucket_insert :: "u64 \<Rightarrow> nat \<Rightarrow> bucket \<Rightarrow> bucket" where
  "bucket_insert k n b = (if map_of b k \<noteq> None then b else takeWhile (\<lambda>(x, _). x < k) b @ (k, n) # dropWhile (\<lambda>(x, _). x < k) b)"

definition set_bucket :: "u64 \<Rightarrow> bucket option \<Rightarrow> AddressHashMap \<Rightarrow> AddressHashMap" where
  "set_bucket h b m = m\<lparr>hash_map := (hash_map m)(h := b)\<rparr>"

definition AMap_Put :: "bool \<Rightarrow> u64 \<Rightarrow> nat \<Rightarrow> AddressHashMap \<Rightarrow> AddressHashMap \<times> bool" where
  "AMap_Put check_exist addr n m =
     (if \<not> InRange m addr then (m, False)
      else
        let b = (case hash_map m (AHash m addr) of None \<Rightarrow> [] | Some b \<Rightarrow> b) in
        if check_exist \<and> map_of b addr \<noteq> None then (set_bucket (AHash m addr) (Some b) m, False)
        else (set_bucket (AHash m addr) (Some (bucket_insert addr n b)) m, True))"

definition AMap_Remove :: "u64 \<Rightarrow> AddressHashMap \<Rightarrow> AddressHashMap \<times> nat option" where
  "AMap_Remove addr m =
     (if \<not> InRange m addr then (m, None)
      else case hash_map m (AHash m addr) of
        None \<Rightarrow> (m, None)
      | Some b \<Rightarrow>
          (case map_of b addr of
             None \<Rightarrow> (m, None)
           | Some n \<Rightarrow>
               let b' = filter (\<lambda>(k, _). k \<noteq> addr) b in
               (set_bucket (AHash m addr) (if b' = [] then None else Some b') m, Some n)))"

text \<open>
  The nodes that may overlap a range; \<^verbatim>\<open>size_of\<close> is the size a node covers.  The comparison operators
  of a location with an address are the source's, which have their operands the other way round.
\<close>

definition loc_ge :: "u64 \<Rightarrow> u64 \<Rightarrow> bool" where "loc_ge location loc = (loc \<ge> location)"
definition loc_le :: "u64 \<Rightarrow> u64 \<Rightarrow> bool" where "loc_le location loc = (loc \<le> location)"

definition Overlap :: "u64 \<Rightarrow> u32 \<Rightarrow> u64 \<Rightarrow> u64 \<Rightarrow> bool" where
  "Overlap location node_size start stop =
     ((loc_le location start \<and> loc_ge (location + ucast node_size) start) \<or>
      (loc_le location stop \<and> loc_ge (location + ucast node_size) stop))"

definition max_node_size :: u64 where "max_node_size = 0x10000"

definition bucket_range :: "(nat \<Rightarrow> u32) \<Rightarrow> u64 \<Rightarrow> u64 \<Rightarrow> bucket \<Rightarrow> nat list" where
  "bucket_range size_of start stop b =
     (let below = takeWhile (\<lambda>(k, _). k < start) b; upto = filter (\<lambda>(k, _). k \<le> stop) (dropWhile (\<lambda>(k, _). k < start) b);
          cand = (if below = [] then upto else last below # upto) in
      map snd (filter (\<lambda>(k, n). Overlap k (size_of n) start stop) cand))"

function bucket_scan :: "(u64 \<Rightarrow> nat list) \<Rightarrow> u64 \<Rightarrow> u64 \<Rightarrow> nat list" where
  "bucket_scan f i stop = (if i \<le> stop then f i @ (if i = stop then [] else bucket_scan f (i + 1) stop) else [])"
  by auto
termination
proof (relation "measure (\<lambda>(f, i, stop). unat stop - unat i)")
  fix f :: "u64 \<Rightarrow> nat list" and i stop :: u64
  assume "i \<le> stop" "i \<noteq> stop"
  then have "unat i < unat stop" by (simp add: word_less_nat_alt[symmetric])
  moreover have "unat stop < 2 ^ LENGTH(64)" by (rule unsigned_less)
  then have "unat (i + 1) = unat i + 1" using calculation by (subst unat_add_no_wrap) simp_all
  ultimately show "((f, i + 1, stop), f, i, stop) \<in> measure (\<lambda>(f, i, stop). unat stop - unat i)" by simp
qed simp

definition GetRange :: "(nat \<Rightarrow> u32) \<Rightarrow> AddressHashMap \<Rightarrow> u64 \<Rightarrow> u64 \<Rightarrow> nat list" where
  "GetRange size_of m start stop =
     (if stop < addr_start m \<or> start > addr_end m then []
      else
        let start_hash = AHash m (max (start - max_node_size) (addr_start m));
            end_hash = min (AHash m stop) (hash_size m - 1) in
        bucket_scan (\<lambda>i. case hash_map m i of None \<Rightarrow> [] | Some b \<Rightarrow> bucket_range size_of start stop b) start_hash end_hash)"

section \<open>The laws of an address map\<close>

locale address_map =
  fixes get :: "'m \<Rightarrow> u64 \<Rightarrow> nat option" and put :: "bool \<Rightarrow> u64 \<Rightarrow> nat \<Rightarrow> 'm \<Rightarrow> 'm \<times> bool" and remove :: "u64 \<Rightarrow> 'm \<Rightarrow> 'm \<times> nat option"
    and inv :: "'m \<Rightarrow> bool" and covers :: "'m \<Rightarrow> u64 \<Rightarrow> bool"
  assumes get_covers: "inv m \<Longrightarrow> get m a = Some n \<Longrightarrow> covers m a"
    and put_inv: "inv m \<Longrightarrow> inv (fst (put c a n m))"
    and put_covers: "covers (fst (put c a n m)) = covers m"
    and put_result: "inv m \<Longrightarrow> snd (put c a n m) \<longleftrightarrow> covers m a \<and> (c \<longrightarrow> get m a = None)"
    and get_put: "inv m \<Longrightarrow> get (fst (put c a n m)) x = (if x = a \<and> covers m a \<and> get m a = None then Some n else get m x)"
    and remove_inv: "inv m \<Longrightarrow> inv (fst (remove a m))"
    and remove_covers: "covers (fst (remove a m)) = covers m"
    and remove_result: "inv m \<Longrightarrow> snd (remove a m) = get m a"
    and get_remove: "inv m \<Longrightarrow> get (fst (remove a m)) x = (if x = a then None else get m x)"
begin

text \<open>Removal guarded by the identity of the node, as the modules use it.\<close>

abbreviation remove_node :: "u64 \<Rightarrow> nat \<Rightarrow> 'm \<Rightarrow> 'm" where
  "remove_node a n m \<equiv> if get m a = Some n then fst (remove a m) else m"

lemma remove_node_inv: "inv m \<Longrightarrow> inv (remove_node a n m)"
  by (simp add: remove_inv)

lemma get_remove_node: "inv m \<Longrightarrow> get (remove_node a n m) x = (if x = a \<and> get m a = Some n then None else get m x)"
  by (auto simp: get_remove)

lemma remove_node_keeps: "inv m \<Longrightarrow> get m x = Some n' \<Longrightarrow> n' \<noteq> n \<Longrightarrow> get (remove_node a n m) x = Some n'"
  by (auto simp: get_remove)

lemma put_then_remove_node:
  "inv m \<Longrightarrow> covers m a \<Longrightarrow> get m a = None \<Longrightarrow> get (remove_node a n (fst (put c a n m))) = get m"
  by (auto simp: fun_eq_iff get_remove put_inv get_put)

end

section \<open>The hash map keeps them\<close>

definition amap_ok :: "AddressHashMap \<Rightarrow> bool" where
  "amap_ok m \<longleftrightarrow> hash_item_size m \<noteq> 0 \<and>
     (\<forall>h b. hash_map m h = Some b \<longrightarrow> sorted_wrt (\<lambda>x y. fst x < fst y) b \<and> (\<forall>(k, n) \<in> set b. AHash m k = h \<and> InRange m k))"

lemma amap_new_ok: "s \<noteq> 0 \<Longrightarrow> amap_ok (AddressHashMap_new a b s)" "AMap_Get (AddressHashMap_new a b s) x = None"
  by (simp_all add: amap_ok_def AddressHashMap_new_def AMap_Get_def)

lemma set_bucket_sel [simp]:
  "AHash (set_bucket h b m) = AHash m" "InRange (set_bucket h b m) = InRange m" "hash_map (set_bucket h b m) = (hash_map m)(h := b)"
  "hash_item_size (set_bucket h b m) = hash_item_size m"
  by (simp_all add: set_bucket_def AHash_def InRange_def fun_eq_iff)

lemma set_bucket_ok:
  assumes "amap_ok m" "\<And>b'. b = Some b' \<Longrightarrow> sorted_wrt (\<lambda>x y. fst x < fst y) b' \<and> (\<forall>(k, n) \<in> set b'. AHash m k = h \<and> InRange m k)"
  shows "amap_ok (set_bucket h b m)"
  using assms by (auto simp: amap_ok_def)

lemma map_of_bucket_insert: "sorted_wrt (\<lambda>x y. fst x < fst y) b \<Longrightarrow>
  map_of (bucket_insert k n b) x = (if x = k \<and> map_of b k = None then Some n else map_of b x)"
proof -
  have "map_of (takeWhile p b @ (k, n) # dropWhile p b) x = (if x = k then Some n else map_of b x)" if "map_of b k = None" for p
  proof -
    have "map_of (takeWhile p b) k = None"
      using that set_takeWhileD[of _ p b] by (fastforce simp: map_of_eq_None_iff)
    moreover have "map_of b x = map_of (takeWhile p b @ dropWhile p b) x" by simp
    ultimately show ?thesis by (auto simp: map_add_def split: option.splits simp del: takeWhile_dropWhile_id)
  qed
  then show ?thesis by (auto simp: bucket_insert_def)
qed

lemma set_bucket_insert: "set (bucket_insert k n b) \<subseteq> insert (k, n) (set b)"
  by (auto simp: bucket_insert_def dest: set_takeWhileD set_dropWhileD)

lemma sorted_bucket_insert:
  assumes "sorted_wrt (\<lambda>x y. fst x < fst y) b"
  shows "sorted_wrt (\<lambda>x y. fst x < fst y) (bucket_insert k n b)"
proof (cases "map_of b k")
  case None
  then have "k \<notin> fst ` set b" by (simp add: map_of_eq_None_iff)
  then have "sorted_wrt (\<lambda>x y. fst x < fst y) (takeWhile (\<lambda>(x, _). x < k) b @ (k, n) # dropWhile (\<lambda>(x, _). x < k) b)"
    using assms
  proof (induction b)
    case (Cons a b)
    then show ?case
      by (cases a) (fastforce dest: set_takeWhileD set_dropWhileD)
  qed simp
  then show ?thesis using None by (simp add: bucket_insert_def)
qed (use assms in \<open>simp add: bucket_insert_def\<close>)

lemma AMap_Get_bucket:
  assumes "amap_ok m" "hash_map m h = Some b" "map_of b x = Some n"
  shows "AHash m x = h \<and> InRange m x"
  using assms map_of_SomeD[OF assms(3)] by (fastforce simp: amap_ok_def)

lemma AMap_Get_set_bucket:
  assumes "amap_ok m" "amap_ok (set_bucket h b m)"
  shows "AMap_Get (set_bucket h b m) x =
    (if AHash m x = h \<and> InRange m x then (case b of None \<Rightarrow> None | Some b' \<Rightarrow> map_of b' x) else AMap_Get m x)"
  by (auto simp: AMap_Get_def)

interpretation nodes: address_map AMap_Get AMap_Put AMap_Remove amap_ok InRange
proof unfold_locales
  fix m a n x c
  assume ok: "amap_ok m"
  define b where "b = (case hash_map m (AHash m a) of None \<Rightarrow> [] | Some b \<Rightarrow> b)"
  have b: "sorted_wrt (\<lambda>x y. fst x < fst y) b" "\<forall>(k, n) \<in> set b. AHash m k = AHash m a \<and> InRange m k"
    using ok unfolding b_def amap_ok_def by (cases "hash_map m (AHash m a)"; fastforce)+
  have g: "AMap_Get m x = map_of b x" if "AHash m x = AHash m a" "InRange m x" for x
    using that by (auto simp: AMap_Get_def b_def split: option.splits)
  have p1: "amap_ok (set_bucket (AHash m a) (Some b) m)" by (rule set_bucket_ok[OF ok]) (use b in auto)
  have p2: "amap_ok (set_bucket (AHash m a) (Some (bucket_insert a n b)) m)" if "InRange m a"
    by (rule set_bucket_ok[OF ok]) (use b sorted_bucket_insert[OF b(1), of a n] set_bucket_insert[of a n b] that in auto)
  show "AMap_Get m a = Some n \<Longrightarrow> InRange m a" by (auto simp: AMap_Get_def split: if_splits)
  show "amap_ok (fst (AMap_Put c a n m))"
    using ok p1 p2 by (simp add: AMap_Put_def Let_def b_def[symmetric])
  show "snd (AMap_Put c a n m) \<longleftrightarrow> InRange m a \<and> (c \<longrightarrow> AMap_Get m a = None)"
    using g[of a] by (simp add: AMap_Put_def Let_def b_def[symmetric])
  show "AMap_Get (fst (AMap_Put c a n m)) x = (if x = a \<and> InRange m a \<and> AMap_Get m a = None then Some n else AMap_Get m x)"
    using g[of a] g[of x] AMap_Get_set_bucket[OF ok p1, of x] AMap_Get_set_bucket[OF ok p2, of x] map_of_bucket_insert[OF b(1), of a n x]
    by (auto simp: AMap_Put_def Let_def b_def[symmetric])
  define b' where "b' = filter (\<lambda>(k, _). k \<noteq> a) b"
  define r where "r = (if b' = [] then None else Some b')"
  have p3: "amap_ok (set_bucket (AHash m a) r m)"
    by (rule set_bucket_ok[OF ok]) (use b in \<open>auto simp: b'_def r_def sorted_wrt_filter split: if_splits\<close>)
  have m': "map_of b' x = (if x = a then None else map_of b x)" for x
    unfolding b'_def by (induction b) auto
  have rm: "AMap_Remove a m = (if \<not> InRange m a then (m, None) else case map_of b a of None \<Rightarrow> (m, None)
      | Some k \<Rightarrow> (set_bucket (AHash m a) r m, Some k))"
    by (simp add: AMap_Remove_def b_def b'_def r_def Let_def split: option.split)
  have gr: "AMap_Get (set_bucket (AHash m a) r m) x = (if x = a then None else AMap_Get m x)" if "InRange m a" for x
    using AMap_Get_set_bucket[OF ok p3, of x] m'[of x] g[of x] that by (auto simp: r_def)
  have ng: "\<not> InRange m a \<Longrightarrow> AMap_Get m a = None" by (simp add: AMap_Get_def)
  show "amap_ok (fst (AMap_Remove a m))" using ok p3 by (simp add: rm split: option.split)
  show "snd (AMap_Remove a m) = AMap_Get m a" using g[of a] by (simp add: rm AMap_Get_def split: option.split)
  show "AMap_Get (fst (AMap_Remove a m)) x = (if x = a then None else AMap_Get m x)"
    using gr g[of a] ng by (auto simp: rm split: option.split)
next
  show "InRange (fst (AMap_Put c a n m)) = InRange m" for c a n m by (simp add: AMap_Put_def Let_def)
  show "InRange (fst (AMap_Remove a m)) = InRange m" for a m by (simp add: AMap_Remove_def Let_def split: option.split)
qed

text \<open>
  Below the first 64 KB the lower bound of \<^verbatim>\<open>GetRange\<close> wraps around, and the scan sees no bucket: a range
  query there finds nothing, whatever the map holds.
\<close>

lemma GetRange_low_empty:
  "AMap_Get (fst (AMap_Put False 0x2000 7 (AddressHashMap_new 0 0x4000000 0x100000))) 0x2000 = Some 7 \<and>
   GetRange (\<lambda>_. 0x100) (fst (AMap_Put False 0x2000 7 (AddressHashMap_new 0 0x4000000 0x100000))) 0x2000 0x2040 = []"
  by code_simp

end
