(* ===== verification/Code_Region.thy ===== *)
theory Code_Region
  imports Word_Arith
begin

text \<open>
  Executable memory of the back end: the dual-mapped code region with its writable and executable
  views (\<^verbatim>\<open>backend/code_cache.h\<close>, \<^verbatim>\<open>code_cache.cpp\<close>), and the AArch64 branch words that
  direct linking writes into it (\<^verbatim>\<open>backend/link_manager.cpp\<close>).  A pointer is a 64-bit word and
  the null pointer is 0.
\<close>

section \<open>Regions\<close>

definition kInvalidTrampolineOffset :: u32 where "kInvalidTrampolineOffset = - 1"

record CodeRegion =
  region_id :: u64
  rw_base :: u64
  rx_base :: u64
  capacity :: u32
  trampoline_offset :: u32
  pending_flags_trampoline_offset :: u32
  return_trampoline_offset :: u32

definition Contains :: "u64 \<Rightarrow> u32 \<Rightarrow> u64 \<Rightarrow> bool" where
  "Contains base cap address =
     (base \<noteq> 0 \<and> address \<noteq> 0 \<and> address \<ge> base \<and> address - base < ucast cap)"

definition ContainsRx :: "CodeRegion \<Rightarrow> u64 \<Rightarrow> bool" where
  "ContainsRx r address = Contains (rx_base r) (capacity r) address"

definition ContainsRw :: "CodeRegion \<Rightarrow> u64 \<Rightarrow> bool" where
  "ContainsRw r address = Contains (rw_base r) (capacity r) address"

definition SiteRxToRw :: "CodeRegion \<Rightarrow> u64 \<Rightarrow> u64" where
  "SiteRxToRw r rx_site = (if \<not> ContainsRx r rx_site then 0 else rw_base r + (rx_site - rx_base r))"

definition SiteRwToRx :: "CodeRegion \<Rightarrow> u64 \<Rightarrow> u64" where
  "SiteRwToRx r rw_site = (if \<not> ContainsRw r rw_site then 0 else rx_base r + (rw_site - rw_base r))"

definition SameRegion :: "CodeRegion \<Rightarrow> CodeRegion \<Rightarrow> bool" where
  "SameRegion lhs rhs = (region_id lhs \<noteq> 0 \<and> region_id lhs = region_id rhs)"

definition SameRegion_sites :: "CodeRegion \<Rightarrow> u64 \<Rightarrow> u64 \<Rightarrow> bool" where
  "SameRegion_sites r rx_a rx_b = (ContainsRx r rx_a \<and> ContainsRx r rx_b)"

definition Imm26Reachable :: "u64 \<Rightarrow> u64 \<Rightarrow> bool" where
  "Imm26Reachable site target =
     (site \<noteq> 0 \<and> target \<noteq> 0 \<and> site AND 3 = 0 \<and> target AND 3 = 0 \<and>
      (if target \<ge> site then target - site \<le> 2 ^ 27 - 4 else site - target \<le> 2 ^ 27 - 4))"

section \<open>Branch words\<close>

definition kImm26MaxDistance :: int where "kImm26MaxDistance = 2 ^ 27 - 4"
definition kBranchImmediateMask :: u32 where "kBranchImmediateMask = 0x03FFFFFF"
definition kBranchOpcodeMask :: u32 where "kBranchOpcodeMask = 0x7C000000"
definition kBranchTypeMask :: u32 where "kBranchTypeMask = 0xFC000000"
definition kBranchOpcode :: u32 where "kBranchOpcode = 0x14000000"
definition kBOpcode :: u32 where "kBOpcode = 0x14000000"
definition kBLOpcode :: u32 where "kBLOpcode = 0x94000000"

definition EncodeBranch :: "int \<Rightarrow> u32 \<Rightarrow> u32 option" where
  "EncodeBranch offset opcode =
     (if offset mod 4 \<noteq> 0 \<or> offset < - kImm26MaxDistance \<or> offset > kImm26MaxDistance then None
      else Some (opcode OR (word_of_int (offset div 4) AND kBranchImmediateMask)))"

definition EncodeB :: "int \<Rightarrow> u32 option" where
  "EncodeB offset = EncodeBranch offset kBOpcode"

definition EncodeBL :: "int \<Rightarrow> u32 option" where
  "EncodeBL offset = EncodeBranch offset kBLOpcode"

definition DecodeBranchTarget :: "u64 \<Rightarrow> u32 \<Rightarrow> u64 option" where
  "DecodeBranchTarget site insn =
     (if site = 0 \<or> site AND 3 \<noteq> 0 \<or> insn AND kBranchOpcodeMask \<noteq> kBranchOpcode then None
      else
        let offset = sint (signed_drop_bit 6 (push_bit 6 insn)) * 4 in
        if offset < - kImm26MaxDistance \<or> offset > kImm26MaxDistance then None
        else if offset \<ge> 0 then Some (site + word_of_int offset) else Some (site - word_of_int (- offset)))"

text \<open>
  Code memory holds one instruction word per writable address.  A failed assertion is
  \<^const>\<open>None\<close>; cache maintenance has no effect on the stored words.
\<close>

type_synonym code_words = "u64 \<Rightarrow> u32"

definition PatchCodeWord :: "CodeRegion \<Rightarrow> u64 \<Rightarrow> u64 \<Rightarrow> u32 \<Rightarrow> code_words \<Rightarrow> (code_words \<times> bool) option" where
  "PatchCodeWord r rx_site rw_site insn m = do {
     ASSERT (ContainsRx r rx_site);
     ASSERT (ContainsRw r rw_site);
     ASSERT (SiteRxToRw r rx_site = rw_site);
     ASSERT (rx_site AND 3 = 0);
     ASSERT (rw_site AND 3 = 0);
     Some (m(rw_site := insn), True) }"

definition PatchDirectBranch :: "CodeRegion \<Rightarrow> u64 \<Rightarrow> u64 \<Rightarrow> u32 \<Rightarrow> code_words \<Rightarrow> (code_words \<times> bool) option" where
  "PatchDirectBranch r rx_site rw_site insn m =
     (if insn AND kBranchOpcodeMask \<noteq> kBranchOpcode then Some (m, False)
      else PatchCodeWord r rx_site rw_site insn m)"

section \<open>Code cache\<close>

text \<open>
  The arena allocator is dlmalloc's mspace, which is external: it is a function from its state, the
  alignment and the size to a pointer (0 when it fails) and the next state; \<^verbatim>\<open>mspace_free\<close> is a
  function from its state and a pointer.
\<close>

record 'h Mspace =
  mspace_memalign :: "'h \<Rightarrow> u64 \<Rightarrow> u64 \<Rightarrow> u64 \<times> 'h"
  mspace_free :: "'h \<Rightarrow> u64 \<Rightarrow> 'h"

record 'h CodeCache =
  cc_region :: CodeRegion
  inst_alignment :: u64
  read_only :: bool
  max_size :: u32
  space_code :: 'h
  code_mem :: u64
  code_mem_mapped :: u64
  code_cursor :: u64

record CodeBuffer =
  exec_data :: u64
  rw_data :: u64
  buf_offset :: u32
  buf_size :: u64

definition AlignUp :: "u64 \<Rightarrow> u64 \<Rightarrow> u64" where
  "AlignUp value n = (let m = value mod n; v = value - m in if m = 0 then v else v + n)"

definition CodeCache_Init :: "u64 \<Rightarrow> u64 \<Rightarrow> u64 \<Rightarrow> u32 \<Rightarrow> u64 \<Rightarrow> bool \<Rightarrow> 'h \<Rightarrow> 'h CodeCache" where
  "CodeCache_Init rid memory mapped bytes align ro h =
     \<lparr>cc_region = \<lparr>region_id = rid, rw_base = memory,
        rx_base = (if mapped \<noteq> 0 then mapped else memory), capacity = bytes,
        trampoline_offset = kInvalidTrampolineOffset,
        pending_flags_trampoline_offset = kInvalidTrampolineOffset,
        return_trampoline_offset = kInvalidTrampolineOffset\<rparr>,
      inst_alignment = align, read_only = ro, max_size = bytes, space_code = h,
      code_mem = memory, code_mem_mapped = mapped, code_cursor = (if ro then memory else 0)\<rparr>"

definition code_buffer :: "'h CodeCache \<Rightarrow> u64 \<Rightarrow> u64 \<Rightarrow> CodeBuffer" where
  "code_buffer c result n =
     \<lparr>exec_data = (if code_mem_mapped c \<noteq> 0 then result - code_mem c + code_mem_mapped c else result),
      rw_data = result, buf_offset = ucast (result - code_mem c), buf_size = n\<rparr>"

definition AllocCode :: "'h Mspace \<Rightarrow> 'h CodeCache \<Rightarrow> u64 \<Rightarrow> CodeBuffer option \<times> 'h CodeCache" where
  "AllocCode ms c n =
     (if read_only c then
        let cursor = AlignUp (code_cursor c) (inst_alignment c); c' = c\<lparr>code_cursor := cursor\<rparr> in
        if cursor + n \<le> code_mem c + ucast (max_size c) \<and> cursor \<noteq> 0
        then (Some (code_buffer c cursor n), c') else (None, c')
      else
        let (result, h) = mspace_memalign ms (space_code c) (inst_alignment c) n;
            base = code_mem c; limit = ucast (max_size c) in
        if result = 0 then (None, c\<lparr>space_code := h\<rparr>)
        else if result < base \<or> n > limit \<or> result - base > limit - n
        then (None, c\<lparr>space_code := mspace_free ms h result\<rparr>)
        else (Some (code_buffer c result n), c\<lparr>space_code := h\<rparr>))"

definition FreeCode :: "'h Mspace \<Rightarrow> 'h CodeCache \<Rightarrow> u64 \<Rightarrow> 'h CodeCache option" where
  "FreeCode ms c exec_ptr = do {
     ASSERT (\<not> read_only c);
     let p = (if code_mem_mapped c \<noteq> 0 then code_mem c + (exec_ptr - code_mem_mapped c) else exec_ptr);
     Some (c\<lparr>space_code := mspace_free ms (space_code c) p\<rparr>) }"

definition Contain :: "'h CodeCache \<Rightarrow> u64 \<Rightarrow> bool" where
  "Contain c exec_ptr =
     (let base = (if code_mem_mapped c \<noteq> 0 then code_mem_mapped c else code_mem c) in
      exec_ptr \<ge> base \<and> exec_ptr \<le> base + ucast (max_size c))"

definition GetExePtr :: "'h CodeCache \<Rightarrow> u32 \<Rightarrow> u64" where
  "GetExePtr c offset =
     (if offset > max_size c then 0
      else if code_mem_mapped c \<noteq> 0 then code_mem_mapped c + ucast offset else code_mem c + ucast offset)"

definition GetRWPtr_offset :: "'h CodeCache \<Rightarrow> u32 \<Rightarrow> u64" where
  "GetRWPtr_offset c offset = (if offset > max_size c then 0 else code_mem c + ucast offset)"

definition GetRWPtr :: "'h CodeCache \<Rightarrow> u64 \<Rightarrow> u64" where
  "GetRWPtr c exec_ptr =
     (if code_mem_mapped c \<noteq> 0 then
        if exec_ptr < code_mem_mapped c \<or> exec_ptr > code_mem_mapped c + ucast (max_size c) then 0
        else code_mem c + (exec_ptr - code_mem_mapped c)
      else if exec_ptr < code_mem c \<or> exec_ptr > code_mem c + ucast (max_size c) then 0
      else exec_ptr)"

definition GetRegionTrampoline :: "'h CodeCache \<Rightarrow> u64" where
  "GetRegionTrampoline c =
     (if trampoline_offset (cc_region c) = kInvalidTrampolineOffset then 0
      else rx_base (cc_region c) + ucast (trampoline_offset (cc_region c)))"

definition GetPendingFlagsRegionTrampoline :: "'h CodeCache \<Rightarrow> u64" where
  "GetPendingFlagsRegionTrampoline c =
     (if pending_flags_trampoline_offset (cc_region c) = kInvalidTrampolineOffset then 0
      else rx_base (cc_region c) + ucast (pending_flags_trampoline_offset (cc_region c)))"

definition GetReturnRegionTrampoline :: "'h CodeCache \<Rightarrow> u64" where
  "GetReturnRegionTrampoline c =
     (if return_trampoline_offset (cc_region c) = kInvalidTrampolineOffset then 0
      else rx_base (cc_region c) + ucast (return_trampoline_offset (cc_region c)))"

section \<open>Branch encoding\<close>

lemma and_3_iff: "(w::u64) AND 3 = 0 \<longleftrightarrow> uint w mod 4 = 0"
proof -
  have "w AND 3 = take_bit 2 w" unfolding take_bit_eq_mask by (simp add: mask_eq_exp_minus_1)
  then have "uint (w AND 3) = uint w mod 4" by (simp add: uint_take_bit_mod)
  then show ?thesis by (simp add: word_uint_eq_iff)
qed

lemma bit_asr32: "n < 32 \<Longrightarrow> bit (signed_drop_bit k (w::u32)) n \<longleftrightarrow> bit w (min (n + k) 31)"
  by (auto simp: bit_signed_drop_bit_iff min_def ac_simps numeral_eq_Suc)

lemma branch_words:
  assumes "op AND kBranchImmediateMask = 0" "- (2 ^ 25) \<le> words" "words < 2 ^ 25"
  shows "signed_drop_bit 6 (push_bit 6 (op OR (word_of_int words AND kBranchImmediateMask))) = (word_of_int words :: u32)"
proof (rule bit_word_eqI)
  fix n assume "n < LENGTH(32)"
  then have n: "n < 32" by simp
  have m: "kBranchImmediateMask = mask 26" by (simp add: kBranchImmediateMask_def mask_eq_exp_minus_1)
  have o: "\<not> bit op k" if "k < 26" for k
    using arg_cong [OF assms(1), of "\<lambda>w. bit w k"] that by (auto simp: m bit_and_iff bit_mask_iff)
  have w: "bit words k = bit words 25" if "25 \<le> k" for k
  proof -
    have "bit words k = bit (signed_take_bit 25 words) k" using assms(2,3) by (simp add: signed_take_bit_int_eq_self)
    then show ?thesis using that by (simp add: bit_signed_take_bit_iff min_absorb1)
  qed
  let ?k = "min n 25"
  have "bit (signed_drop_bit 6 (push_bit 6 (op OR (word_of_int words AND kBranchImmediateMask)) :: u32)) n =
      bit (op OR (word_of_int words AND kBranchImmediateMask)) ?k"
    using n unfolding bit_asr32 [OF n] bit_push_bit_iff by (simp add: min_def)
  also have "\<dots> = bit words ?k" using o [of ?k] n by (auto simp: bit_or_iff bit_and_iff m bit_mask_iff bit_word_of_int_iff)
  also have "\<dots> = bit words n" using w [of n] by (auto simp: min_def)
  finally show "bit (signed_drop_bit 6 (push_bit 6 (op OR (word_of_int words AND kBranchImmediateMask)) :: u32)) n =
      bit (word_of_int words :: u32) n" using n by (simp add: bit_word_of_int_iff)
qed

lemma EncodeBranch_decode:
  assumes "EncodeBranch offset op = Some insn" "op = kBOpcode \<or> op = kBLOpcode" "site \<noteq> 0" "site AND 3 = 0"
  shows "DecodeBranchTarget site insn = Some (site + word_of_int offset)"
proof -
  have r: "offset mod 4 = 0" "- kImm26MaxDistance \<le> offset" "offset \<le> kImm26MaxDistance"
    and i: "insn = op OR (word_of_int (offset div 4) AND kBranchImmediateMask)"
    using assms(1) by (auto simp: EncodeBranch_def split: if_splits)
  have w: "- (2 ^ 25) \<le> offset div 4" "offset div 4 < 2 ^ 25" "offset div 4 * 4 = offset"
    using r by (auto simp: kImm26MaxDistance_def)
  have o: "op AND kBranchImmediateMask = 0" "(x AND kBranchImmediateMask) AND kBranchOpcodeMask = 0" "op AND kBranchOpcodeMask = kBranchOpcode" for x
    using assms(2) by (auto simp: kBOpcode_def kBLOpcode_def kBranchImmediateMask_def kBranchOpcodeMask_def kBranchOpcode_def and.assoc)
  have "insn AND kBranchOpcodeMask = kBranchOpcode"
    unfolding i bit.conj_disj_distrib2 o by simp
  moreover have "sint (signed_drop_bit 6 (push_bit 6 insn)) * 4 = offset"
    using w unfolding i branch_words [OF o(1) w(1,2)]
    by (simp add: sint_uint unsigned_of_int signed_take_bit_take_bit signed_take_bit_int_eq_self)
  ultimately show ?thesis
    using assms(3,4) r unfolding DecodeBranchTarget_def Let_def by simp
qed

lemma reachable_EncodeBranch:
  assumes "Imm26Reachable site target" "op = kBOpcode \<or> op = kBLOpcode"
  shows "\<exists>insn. EncodeBranch (uint target - uint site) op = Some insn \<and> DecodeBranchTarget site insn = Some target"
proof -
  let ?o = "uint target - uint site"
  have a: "site \<noteq> 0" "site AND 3 = 0" "uint site mod 4 = 0" "uint target mod 4 = 0"
    using assms by (auto simp: Imm26Reachable_def and_3_iff)
  then have "?o mod 4 = 0" by presburger
  moreover have "- kImm26MaxDistance \<le> ?o \<and> ?o \<le> kImm26MaxDistance"
    using assms by (auto simp: Imm26Reachable_def kImm26MaxDistance_def word_le_def uint_sub_if' split: if_splits)
  ultimately obtain insn where e: "EncodeBranch ?o op = Some insn" by (auto simp: EncodeBranch_def)
  have "site + word_of_int ?o = target" by (simp add: of_int_uint)
  with e EncodeBranch_decode [OF e assms(2) a(1,2)] show ?thesis by auto
qed

text \<open>C32. Every branch target within reach can be encoded, as a branch or as a branch with link, and
  the word decodes to exactly that target: a patched site never goes anywhere else.\<close>

theorem reachable_branch_encodes:
  assumes "Imm26Reachable site target"
  shows "\<exists>b bl. EncodeB (uint target - uint site) = Some b \<and> EncodeBL (uint target - uint site) = Some bl \<and>
    DecodeBranchTarget site b = Some target \<and> DecodeBranchTarget site bl = Some target"
  using reachable_EncodeBranch [OF assms, of kBOpcode] reachable_EncodeBranch [OF assms, of kBLOpcode]
  by (auto simp: EncodeB_def EncodeBL_def)

theorem reachable_branch_encodes_witness:
  "\<exists>b. EncodeB (- 0x1000) = Some b \<and> DecodeBranchTarget 0x100000 b = Some 0xFF000"
proof -
  have "Imm26Reachable 0x100000 0xFF000" by code_simp
  from reachable_branch_encodes [OF this] show ?thesis by auto
qed

section \<open>Two views of one region\<close>

definition region_ok :: "CodeRegion \<Rightarrow> bool" where
  "region_ok r = (rx_base r \<noteq> 0 \<and> rw_base r \<noteq> 0 \<and>
     unat (rx_base r) + unat (capacity r) < 2 ^ 64 \<and> unat (rw_base r) + unat (capacity r) < 2 ^ 64)"

lemma unat_ucast32 [simp]: "unat (ucast (x::u32) :: u64) = unat x"
  using unsigned_less [where 'a = nat, of x] by (simp add: unsigned_ucast_eq take_bit_nat_eq_self_iff)

lemma Contains_offset:
  assumes "base \<noteq> 0" "unat base + unat cap < 2 ^ 64" "k < ucast (cap::u32)"
  shows "Contains base cap (base + k)"
proof -
  have "unat k < unat cap" using assms(3) by (simp add: word_less_nat_alt)
  then have u: "unat (base + k) = unat base + unat k" using assms(2) by (intro unat_add_no_wrap) simp
  then have "base \<le> base + k" by (simp add: word_le_nat_alt)
  moreover from this have "base + k \<noteq> 0" using assms(1) by (metis word_le_0_iff)
  ultimately show ?thesis using assms by (simp add: Contains_def)
qed

lemma site_alias:
  assumes "region_ok r" "k < ucast (capacity r)"
  shows "ContainsRx r (rx_base r + k)" "ContainsRw r (rw_base r + k)"
    "SiteRxToRw r (rx_base r + k) = rw_base r + k" "SiteRwToRx r (rw_base r + k) = rx_base r + k"
  using assms Contains_offset [of "rx_base r" "capacity r" k] Contains_offset [of "rw_base r" "capacity r" k]
  by (simp_all add: region_ok_def ContainsRx_def ContainsRw_def SiteRxToRw_def SiteRwToRx_def)

text \<open>A cache as its initialisation leaves it: the region describes the two mappings.\<close>

definition cache_ok :: "'h CodeCache \<Rightarrow> bool" where
  "cache_ok c = (region_ok (cc_region c) \<and> capacity (cc_region c) = max_size c \<and> rw_base (cc_region c) = code_mem c \<and>
     rx_base (cc_region c) = (if code_mem_mapped c \<noteq> 0 then code_mem_mapped c else code_mem c))"

lemma AllocCode_offset:
  assumes "cache_ok c" "\<not> read_only c" "AllocCode ms c n = (Some buf, c')" "0 < n"
  obtains o' where "rw_data buf = code_mem c + o'" "exec_data buf = rx_base (cc_region c) + o'"
    "unat o' + unat n \<le> unat (max_size c)" "buf_offset buf = ucast o'" "buf_size buf = n"
    "c' = c\<lparr>space_code := snd (mspace_memalign ms (space_code c) (inst_alignment c) n)\<rparr>"
proof -
  obtain p h where p: "mspace_memalign ms (space_code c) (inst_alignment c) n = (p, h)" by fastforce
  have b: "code_mem c \<le> p" "n \<le> ucast (max_size c)" "p - code_mem c \<le> ucast (max_size c) - n"
      "buf = code_buffer c p n" "c' = c\<lparr>space_code := h\<rparr>"
    using assms(2,3) p by (auto simp: AllocCode_def Let_def not_less split: if_splits)
  have "unat (p - code_mem c) + unat n \<le> unat (max_size c)"
    using b(2,3) by (simp add: word_le_nat_alt unat_sub)
  moreover have "exec_data buf = rx_base (cc_region c) + (p - code_mem c)"
    using assms(1) b(4) by (simp add: code_buffer_def cache_ok_def)
  ultimately show ?thesis using that [of "p - code_mem c"] b(4,5) p by (simp add: code_buffer_def)
qed

text \<open>C33. Code that the cache allocates lies inside its region: every byte of it is executable at the
  address given to the code and writable at the same offset of the other mapping, and the pointers
  that locate, look up and free the allocation agree on that offset.\<close>

theorem alloc_code_in_region:
  assumes c: "cache_ok c" "\<not> read_only c" and a: "AllocCode ms c n = (Some buf, c')" "0 < n"
  shows "(\<forall>k < n. ContainsRx (cc_region c) (exec_data buf + k) \<and>
      SiteRxToRw (cc_region c) (exec_data buf + k) = rw_data buf + k) \<and>
    GetRWPtr c (exec_data buf) = rw_data buf \<and> GetExePtr c (buf_offset buf) = exec_data buf \<and> Contain c (exec_data buf) \<and>
    FreeCode ms c' (exec_data buf) = Some (c'\<lparr>space_code := mspace_free ms (space_code c') (rw_data buf)\<rparr>)"
proof -
  obtain x where x: "rw_data buf = code_mem c + x" "exec_data buf = rx_base (cc_region c) + x"
      "unat x + unat n \<le> unat (max_size c)" "buf_offset buf = ucast x"
      "c' = c\<lparr>space_code := snd (mspace_memalign ms (space_code c) (inst_alignment c) n)\<rparr>"
    using AllocCode_offset [OF c a] by blast
  have r: "region_ok (cc_region c)" "capacity (cc_region c) = max_size c" "rw_base (cc_region c) = code_mem c"
    using c(1) by (auto simp: cache_ok_def)
  have k: "x + k < ucast (max_size c)" if "k < n" for k
  proof -
    have "unat x + unat k < unat (max_size c)" using x(3) that by (simp add: word_less_nat_alt)
    moreover have "unat (max_size c) < 2 ^ 32" using unsigned_less [where 'a = nat, of "max_size c"] by simp
    ultimately have "unat (x + k) = unat x + unat k" by (intro unat_add_no_wrap) simp
    then show ?thesis using \<open>unat x + unat k < unat (max_size c)\<close> by (simp add: word_less_nat_alt)
  qed
  have s: "ContainsRx (cc_region c) (exec_data buf + k) \<and> SiteRxToRw (cc_region c) (exec_data buf + k) = rw_data buf + k"
    if "k < n" for k
    using site_alias [OF r(1), of "x + k"] k [OF that] r x by (simp add: add.assoc)
  let ?b = "rx_base (cc_region c)"
  have x': "unat x < unat (max_size c)" using x(3) a(2) by (simp add: word_less_nat_alt)
  have b: "?b = (if code_mem_mapped c \<noteq> 0 then code_mem_mapped c else code_mem c)" using c(1) by (simp add: cache_ok_def)
  have n: "unat ?b + unat (max_size c) < 2 ^ 64" using r by (simp add: region_ok_def)
  have "unat (?b + x) = unat ?b + unat x" "unat (?b + ucast (max_size c)) = unat ?b + unat (max_size c)"
    using n x' by (auto intro!: unat_add_no_wrap [THEN trans])
  then have w: "?b \<le> ?b + x" "?b + x \<le> ?b + ucast (max_size c)" using x' by (auto simp: word_le_nat_alt)
  have o: "unat (ucast x :: u32) = unat x" "ucast (ucast x :: u32) = x"
    using x' unsigned_less [where 'a = nat, of "max_size c"]
    by (simp_all add: unsigned_ucast_eq take_bit_nat_eq_self_iff word_unat_eq_iff) (simp add: unsigned_take_bit_eq take_bit_nat_eq_self_iff)
  then have e: "GetExePtr c (buf_offset buf) = exec_data buf" "Contain c (exec_data buf)" "GetRWPtr c (exec_data buf) = rw_data buf"
    using x x' b w by (auto simp: GetExePtr_def Contain_def GetRWPtr_def Let_def word_less_nat_alt not_less word_le_nat_alt split: if_splits)
  have "FreeCode ms c' (exec_data buf) = Some (c'\<lparr>space_code := mspace_free ms (space_code c') (rw_data buf)\<rparr>)"
    using c(2) x b by (simp add: FreeCode_def split: if_splits)
  with s e show ?thesis by blast
qed

text \<open>A bump allocator stands for the arena.\<close>

definition bump_space :: "u64 Mspace" where
  "bump_space = \<lparr>mspace_memalign = \<lambda>h a n. (h, h + n), mspace_free = \<lambda>h p. h\<rparr>"

definition sample_cache :: "bool \<Rightarrow> u64 CodeCache" where
  "sample_cache ro = CodeCache_Init 1 0x10000 0x90000 0x1000 4 ro 0x10000"

theorem alloc_code_in_region_witness:
  "\<exists>buf c'. AllocCode bump_space (sample_cache False) 0x20 = (Some buf, c') \<and> exec_data buf = 0x90000 \<and>
     SiteRxToRw (cc_region (sample_cache False)) (exec_data buf + 4) = 0x10004"
proof -
  have c: "cache_ok (sample_cache False)" "\<not> read_only (sample_cache False)"
    by (simp_all add: cache_ok_def region_ok_def sample_cache_def CodeCache_Init_def)
  obtain buf c' where a: "AllocCode bump_space (sample_cache False) 0x20 = (Some buf, c')" "exec_data buf = 0x90000" "rw_data buf = 0x10000"
    by (simp add: AllocCode_def bump_space_def sample_cache_def CodeCache_Init_def code_buffer_def)
  have "(0::u64) < 0x20" "(4::u64) < 0x20" by simp_all
  with alloc_code_in_region [OF c a(1)]
  have "SiteRxToRw (cc_region (sample_cache False)) (exec_data buf + 4) = rw_data buf + 4" by blast
  with a show ?thesis by auto
qed

text \<open>
  The containment test of the cache accepts the first address after its mapping, which belongs to
  whatever is mapped there, and the read-only allocator hands out the same bytes again, because its
  cursor never moves past an allocation.
\<close>

lemma Contain_accepts_end:
  "Contain (sample_cache False) 0x91000 \<and> \<not> ContainsRx (cc_region (sample_cache False)) 0x91000"
  by code_simp

lemma read_only_alloc_overlaps:
  "(let (a, c) = AllocCode bump_space (sample_cache True) 0x20; (b, c') = AllocCode bump_space c 0x20 in a = b \<and> a \<noteq> None)"
  by code_simp

end
