(* ===== verification/Module_Nodes.thy ===== *)
theory Module_Nodes
  imports Address_Map Code_Region
begin

text \<open>
  A module of translated code (\<^verbatim>\<open>backend/module.cpp\<close>, \<^verbatim>\<open>module.h\<close>): its address map of reference-counted
  nodes, their positions in the code caches (\<^verbatim>\<open>backend/jit_code.h\<close>), detaching and reclaiming of a
  translation, and the table of host code ranges that the fault handler consults.
\<close>

section \<open>Bit fields\<close>

text \<open>Each field of \<^verbatim>\<open>JitCache\<close> has a storage word of its own, as \<^verbatim>\<open>common/bit_fields.h\<close> gives it.\<close>

definition bf_mask :: "nat \<Rightarrow> nat \<Rightarrow> u64" where
  "bf_mask pos bits = push_bit pos (drop_bit (64 - bits) (- 1))"

definition bf_set :: "nat \<Rightarrow> nat \<Rightarrow> u64 \<Rightarrow> u64 \<Rightarrow> u64" where
  "bf_set pos bits v storage = (storage AND NOT (bf_mask pos bits)) OR (push_bit pos v AND bf_mask pos bits)"

definition bf_get :: "nat \<Rightarrow> nat \<Rightarrow> u64 \<Rightarrow> u64" where
  "bf_get pos bits storage = drop_bit pos (storage AND bf_mask pos bits)"

record JitCache =
  jit_state :: u64
  cache_id :: u64
  offset_in :: u64
  cache_size :: u64

definition kCached :: u64 where "kCached = 2"

definition JitCache_empty :: JitCache where
  "JitCache_empty = \<lparr>jit_state = 0, cache_id = 0, offset_in = 0, cache_size = 0\<rparr>"

definition is_cached :: "JitCache \<Rightarrow> bool" where
  "is_cached j = (bf_get 0 2 (jit_state j) = kCached)"

definition set_cached :: "u16 \<Rightarrow> u32 \<Rightarrow> u64 \<Rightarrow> JitCache \<Rightarrow> JitCache" where
  "set_cached idx offset sz j =
     j\<lparr>jit_state := bf_set 0 2 kCached (jit_state j), cache_id := bf_set 3 6 (ucast idx) (cache_id j),
       offset_in := bf_set 10 32 (ucast offset) (offset_in j), cache_size := bf_set 42 22 sz (cache_size j)\<rparr>"

definition reset_cached :: "JitCache \<Rightarrow> JitCache" where
  "reset_cached j =
     j\<lparr>jit_state := bf_set 0 2 0 (jit_state j), cache_id := bf_set 3 6 0 (cache_id j),
       offset_in := bf_set 10 32 0 (offset_in j), cache_size := bf_set 42 22 0 (cache_size j)\<rparr>"

section \<open>State\<close>

datatype NodeType = NoneNode | BlockNode | FunctionNode

record AddressNode =
  location :: u64
  node_size :: u32
  node_type :: NodeType
  func_blocks :: "u64 list"
  jit_cache :: JitCache
  refs :: nat

datatype FaultRecoveryKind = GuestFault | IndirectCallMiss | ExternalContinuation

record FaultEntry =
  host_start :: u64
  host_end :: u64
  owner_start :: u64
  recovery :: u64
  guest_loc :: u64
  recovery_kind :: FaultRecoveryKind

record 'h Module =
  address_node_map :: AddressHashMap
  heap :: "nat \<Rightarrow> AddressNode"
  next_node :: nat
  code_caches :: "(u16 \<times> 'h CodeCache) list"
  fault_table :: "FaultEntry list"

definition upd_node :: "nat \<Rightarrow> (AddressNode \<Rightarrow> AddressNode) \<Rightarrow> 'h Module \<Rightarrow> 'h Module" where
  "upd_node n f M = M\<lparr>heap := (heap M)(n := f (heap M n))\<rparr>"

section \<open>Nodes\<close>

definition AddNodeRef :: "nat \<Rightarrow> 'h Module \<Rightarrow> 'h Module" where
  "AddNodeRef n = upd_node n (\<lambda>x. x\<lparr>refs := refs x + 1\<rparr>)"

text \<open>Releasing a reference that is not held is the failure the source warns about.\<close>

definition ReleaseNodeRef :: "nat \<Rightarrow> 'h Module \<Rightarrow> 'h Module option" where
  "ReleaseNodeRef n M = do { ASSERT (refs (heap M n) \<noteq> 0); Some (upd_node n (\<lambda>x. x\<lparr>refs := refs x - 1\<rparr>) M) }"

definition Push :: "nat \<Rightarrow> 'h Module \<Rightarrow> 'h Module \<times> bool" where
  "Push n M =
     (let (m, ok) = AMap_Put True (location (heap M n)) n (address_node_map M) in
      if \<not> ok then (M\<lparr>address_node_map := m\<rparr>, False) else (AddNodeRef n (M\<lparr>address_node_map := m\<rparr>), True))"

definition Module_Remove :: "nat \<Rightarrow> 'h Module \<Rightarrow> 'h Module option" where
  "Module_Remove n M =
     (let loc = location (heap M n) in
      if AMap_Get (address_node_map M) loc = Some n
      then ReleaseNodeRef n (M\<lparr>address_node_map := fst (AMap_Remove loc (address_node_map M))\<rparr>)
      else Some M)"

definition GetNode :: "'h Module \<Rightarrow> u64 \<Rightarrow> nat option" where
  "GetNode M loc = AMap_Get (address_node_map M) loc"

definition GetNodeOrCreate :: "u64 \<Rightarrow> bool \<Rightarrow> 'h Module \<Rightarrow> 'h Module \<times> nat" where
  "GetNodeOrCreate loc is_func M =
     (case GetNode M loc of
        Some n \<Rightarrow> (M, n)
      | None \<Rightarrow>
          let n = next_node M;
              x = \<lparr>location = loc, node_size = 0, node_type = (if is_func then FunctionNode else BlockNode), func_blocks = [],
                   jit_cache = JitCache_empty, refs = 1\<rparr> in
          (M\<lparr>heap := (heap M)(n := x), next_node := n + 1, address_node_map := fst (AMap_Put False loc n (address_node_map M))\<rparr>, n))"

definition GetRangeNodes :: "'h Module \<Rightarrow> u64 \<Rightarrow> u64 \<Rightarrow> nat list" where
  "GetRangeNodes M start stop = GetRange (\<lambda>n. node_size (heap M n)) (address_node_map M) start stop"

definition GetCodeCache :: "'h Module \<Rightarrow> u64 \<Rightarrow> u16 option" where
  "GetCodeCache M exe_ptr = map_option fst (List.find (\<lambda>(_, c). Contain c exe_ptr) (code_caches M))"

definition GetJitCache :: "'h Module \<Rightarrow> JitCache \<Rightarrow> u64" where
  "GetJitCache M j =
     (if \<not> is_cached j then 0
      else case map_of (code_caches M) (ucast (bf_get 3 6 (cache_id j))) of
        Some c \<Rightarrow> GetExePtr c (ucast (bf_get 10 32 (offset_in j)))
      | None \<Rightarrow> 0)"

definition GetJitCache_at :: "'h Module \<Rightarrow> u64 \<Rightarrow> u64" where
  "GetJitCache_at M loc =
     (case GetNode M loc of
        None \<Rightarrow> 0
      | Some n \<Rightarrow> if node_type (heap M n) = NoneNode then 0 else GetJitCache M (jit_cache (heap M n)))"

definition GetCodeRegion_ptr :: "'h Module \<Rightarrow> u64 \<Rightarrow> CodeRegion option" where
  "GetCodeRegion_ptr M exec_ptr = map_option (\<lambda>(_, c). cc_region c) (List.find (\<lambda>(_, c). Contain c exec_ptr) (code_caches M))"

text \<open>\<^verbatim>\<open>DetachBlock\<close> and \<^verbatim>\<open>DetachFunction\<close> have the same body.\<close>

definition detach_body :: "nat \<Rightarrow> 'h Module \<Rightarrow> ('h Module \<times> u64) option" where
  "detach_body n M =
     (let j = jit_cache (heap M n); exec_ptr = (if is_cached j then GetJitCache M j else 0);
          M1 = (if is_cached j then upd_node n (\<lambda>x. x\<lparr>jit_cache := reset_cached j\<rparr>) M else M) in
      map_option (\<lambda>M2. (M2, exec_ptr)) (Module_Remove n M1))"

definition DetachNode :: "nat \<Rightarrow> 'h Module \<Rightarrow> ('h Module \<times> u64) option" where
  "DetachNode n M =
     (case node_type (heap M n) of
        BlockNode \<Rightarrow> detach_body n M
      | FunctionNode \<Rightarrow> detach_body n M
      | NoneNode \<Rightarrow> None)"

section \<open>The fault table\<close>

definition Fault_Contains :: "FaultEntry \<Rightarrow> u64 \<Rightarrow> bool" where
  "Fault_Contains e host_pc = (host_pc \<ge> host_start e \<and> host_pc < host_end e)"

definition AddFaultEntry :: "u64 \<Rightarrow> u64 \<Rightarrow> u64 \<Rightarrow> u64 \<Rightarrow> u64 \<Rightarrow> FaultRecoveryKind \<Rightarrow> FaultEntry list \<Rightarrow> FaultEntry list option" where
  "AddFaultEntry hs he loc owner rcv kind t = do {
     ASSERT (hs < he);
     let e = \<lparr>host_start = hs, host_end = he, owner_start = (if owner \<noteq> 0 then owner else hs), recovery = rcv,
              guest_loc = loc, recovery_kind = kind\<rparr>;
     Some (takeWhile (\<lambda>x. host_start x < hs) t @ e # dropWhile (\<lambda>x. host_start x < hs) t) }"

fun fault_loop :: "u64 \<Rightarrow> FaultEntry option \<Rightarrow> FaultEntry list \<Rightarrow> FaultEntry option" where
  "fault_loop pc best [] = best"
| "fault_loop pc best (e # es) =
     (if \<not> Fault_Contains e pc then fault_loop pc best es
      else
        let b = (case best of
            None \<Rightarrow> e
          | Some b \<Rightarrow> if host_start e > host_start b \<or> host_start e = host_start b \<and> recovery e \<noteq> 0 \<and> recovery b = 0 then e else b) in
        if host_start e < host_start b then Some b else fault_loop pc (Some b) es)"

definition LookupFault :: "FaultEntry list \<Rightarrow> u64 \<Rightarrow> FaultEntry option" where
  "LookupFault t host_pc = fault_loop host_pc None (rev (takeWhile (\<lambda>e. \<not> host_pc < host_start e) t))"

definition RemoveFaultEntries :: "u64 \<Rightarrow> FaultEntry list \<Rightarrow> FaultEntry list" where
  "RemoveFaultEntries hs t = filter (\<lambda>e. owner_start e \<noteq> hs) t"

fun free_in :: "'h Mspace \<Rightarrow> u64 \<Rightarrow> (u16 \<times> 'h CodeCache) list \<Rightarrow> (u16 \<times> 'h CodeCache) list option" where
  "free_in ms exec_ptr [] = Some []"
| "free_in ms exec_ptr ((i, c) # cs) =
     (if Contain c exec_ptr then map_option (\<lambda>c'. (i, c') # cs) (FreeCode ms c exec_ptr)
      else map_option ((#) (i, c)) (free_in ms exec_ptr cs))"

definition ReclaimCode :: "'h Mspace \<Rightarrow> u64 \<Rightarrow> 'h Module \<Rightarrow> 'h Module option" where
  "ReclaimCode ms exec_ptr M =
     (if exec_ptr = 0 then Some M
      else map_option (\<lambda>cs. M\<lparr>fault_table := RemoveFaultEntries exec_ptr (fault_table M), code_caches := cs\<rparr>)
        (free_in ms exec_ptr (code_caches M)))"

section \<open>Lemmas on bit fields\<close>

lemma bit_bf_mask: "pos + bits \<le> 64 \<Longrightarrow> bit (bf_mask pos bits) i \<longleftrightarrow> pos \<le> i \<and> i < pos + bits"
  by (auto simp: bf_mask_def bit_push_bit_iff bit_drop_bit_eq bit_minus_1_iff bit_mask_iff)

lemma bf_get_set: "pos + bits \<le> 64 \<Longrightarrow> bf_get pos bits (bf_set pos bits v storage) = v AND mask bits"
  by (rule bit_word_eqI) (auto simp: bf_get_def bf_set_def bit_drop_bit_eq bit_and_iff bit_or_iff bit_not_iff bit_push_bit_iff
      bit_bf_mask bit_mask_iff)

lemma cached_simps [simp]:
  "is_cached (set_cached idx offset sz j)" "\<not> is_cached (reset_cached j)"
  "bf_get 3 6 (cache_id (set_cached idx offset sz j)) = ucast idx AND 63"
  "bf_get 10 32 (offset_in (set_cached idx offset sz j)) = ucast offset"
proof -
  have "ucast offset AND mask 32 = (ucast offset :: u64)"
    by (rule bit_word_eqI) (auto simp: bit_and_iff bit_mask_iff bit_ucast_iff dest: bit_imp_le_length)
  then show "is_cached (set_cached idx offset sz j)" "\<not> is_cached (reset_cached j)"
    "bf_get 3 6 (cache_id (set_cached idx offset sz j)) = ucast idx AND 63"
    "bf_get 10 32 (offset_in (set_cached idx offset sz j)) = ucast offset"
    by (simp_all add: is_cached_def set_cached_def reset_cached_def kCached_def bf_get_set mask_eq_exp_minus_1)
qed

text \<open>A cached node is found again in its code cache only while the cache's index fits six bits.\<close>

lemma cached_lookup:
  assumes "idx < 64" "map_of (code_caches M) idx = Some c"
  shows "GetJitCache M (set_cached idx offset sz j) = GetExePtr c offset"
proof -
  have "ucast (ucast idx AND 63 :: u64) = idx"
  proof -
    have "idx AND 63 = idx" 
    proof -
      have "idx AND mask 6 = idx" using assms(1) by (simp add: take_bit_eq_mask[symmetric] word_unat_eq_iff unsigned_take_bit_eq take_bit_nat_eq_self_iff word_less_nat_alt)
      then show ?thesis by (simp add: mask_eq_exp_minus_1)
    qed
    moreover have "ucast (ucast idx :: u64) = idx"
      by (rule bit_word_eqI) (auto simp: bit_ucast_iff dest: bit_imp_le_length)
    ultimately show ?thesis by (simp add: unsigned_and_eq)
  qed
  moreover have "ucast (ucast offset :: u64) = offset" by (rule bit_word_eqI) (auto simp: bit_ucast_iff dest: bit_imp_le_length)
  ultimately show ?thesis using assms(2) by (simp add: GetJitCache_def)
qed

lemma cache_index_wraps: "bf_get 3 6 (cache_id (set_cached 64 offset sz j)) = 0"
  by simp

section \<open>The fault table\<close>

definition fault_ok :: "FaultEntry list \<Rightarrow> bool" where
  "fault_ok t = sorted_wrt (\<lambda>a b. host_start a \<le> host_start b) t"

lemma AddFaultEntry_ok:
  assumes "fault_ok t" "AddFaultEntry hs he loc owner rcv kind t = Some t'"
  shows "fault_ok t'" "set t' = insert \<lparr>host_start = hs, host_end = he, owner_start = (if owner \<noteq> 0 then owner else hs),
     recovery = rcv, guest_loc = loc, recovery_kind = kind\<rparr> (set t)"
proof -
  let ?p = "\<lambda>x. host_start x < hs"
  let ?e = "\<lparr>host_start = hs, host_end = he, owner_start = (if owner \<noteq> 0 then owner else hs), recovery = rcv,
     guest_loc = loc, recovery_kind = kind\<rparr>"
  have t': "t' = takeWhile ?p t @ ?e # dropWhile ?p t" using assms(2) by (simp add: AddFaultEntry_def Let_def ASSERT_bind_eq_Some)
  have s: "set t = set (takeWhile ?p t) \<union> set (dropWhile ?p t)" by (metis set_append takeWhile_dropWhile_id)
  then show "set t' = insert ?e (set t)" unfolding t' by auto
  have "\<forall>x \<in> set (dropWhile ?p t). hs \<le> host_start x" using assms(1)
    by (induction t) (auto simp: fault_ok_def not_less)
  moreover have "\<forall>x \<in> set (takeWhile ?p t). host_start x \<le> hs" by (auto dest: set_takeWhileD)
  moreover have "fault_ok (takeWhile ?p t @ dropWhile ?p t)" using assms(1) by simp
  ultimately show "fault_ok t'" unfolding t' fault_ok_def sorted_wrt_append by auto
qed

lemma fault_loop_spec:
  assumes "sorted_wrt (\<lambda>a b. host_start a \<ge> host_start b) es"
    "\<forall>b. best = Some b \<longrightarrow> Fault_Contains b pc \<and> (\<forall>e \<in> set es. host_start e \<le> host_start b)"
  shows "case fault_loop pc best es of
      None \<Rightarrow> best = None \<and> (\<forall>e \<in> set es. \<not> Fault_Contains e pc)
    | Some r \<Rightarrow> (best = Some r \<or> r \<in> set es) \<and> Fault_Contains r pc \<and>
        (\<forall>e \<in> set es \<union> set_option best. Fault_Contains e pc \<longrightarrow>
          host_start e < host_start r \<or> host_start e = host_start r \<and> (recovery e \<noteq> 0 \<longrightarrow> recovery r \<noteq> 0))"
  using assms
proof (induction pc best es rule: fault_loop.induct)
  case (1 pc best)
  then show ?case by (auto split: option.split)
next
  case (2 pc best e es)
  show ?case
  proof (cases "Fault_Contains e pc")
    case False
    then show ?thesis using 2(1)[OF False] "2.prems" by (auto split: option.splits)
  next
    case True
    define b where "b = (case best of
            None \<Rightarrow> e
          | Some b \<Rightarrow> if host_start e > host_start b \<or> host_start e = host_start b \<and> recovery e \<noteq> 0 \<and> recovery b = 0 then e else b)"
    have b: "Fault_Contains b pc" "host_start e \<le> host_start b" "b = e \<or> best = Some b"
      "\<forall>x \<in> insert e (set_option best). host_start x < host_start b \<or> host_start x = host_start b \<and> (recovery x \<noteq> 0 \<longrightarrow> recovery b \<noteq> 0)"
      using True "2.prems" by (auto simp: b_def split: option.splits if_splits)
    have es: "\<forall>x \<in> set es. host_start x \<le> host_start e" using "2.prems"(1) by simp
    show ?thesis
    proof (cases "host_start e < host_start b")
      case lt: True
      then have "fault_loop pc best (e # es) = Some b" using True by (simp add: b_def[symmetric] Let_def)
      then show ?thesis using b es lt by (auto intro: le_less_trans)
    next
      case False
      have eq: "fault_loop pc best (e # es) = fault_loop pc (Some b) es" using True False by (simp add: b_def[symmetric] Let_def)
      have "\<forall>x \<in> set es. host_start x \<le> host_start b" using es b(2) by fastforce
      then have "case fault_loop pc (Some b) es of
          None \<Rightarrow> Some b = None \<and> (\<forall>e \<in> set es. \<not> Fault_Contains e pc)
        | Some r \<Rightarrow> (Some b = Some r \<or> r \<in> set es) \<and> Fault_Contains r pc \<and>
            (\<forall>e \<in> set es \<union> set_option (Some b). Fault_Contains e pc \<longrightarrow>
              host_start e < host_start r \<or> host_start e = host_start r \<and> (recovery e \<noteq> 0 \<longrightarrow> recovery r \<noteq> 0))"
        using 2(2)[of b] True False "2.prems"(1) b(1) by (simp add: b_def[symmetric])
      then obtain r where r: "fault_loop pc (Some b) es = Some r" "b = r \<or> r \<in> set es" "Fault_Contains r pc"
        "\<forall>e \<in> insert b (set es). Fault_Contains e pc \<longrightarrow>
              host_start e < host_start r \<or> host_start e = host_start r \<and> (recovery e \<noteq> 0 \<longrightarrow> recovery r \<noteq> 0)"
        by (auto split: option.splits)
      have "host_start x < host_start r \<or> host_start x = host_start r \<and> (recovery x \<noteq> 0 \<longrightarrow> recovery r \<noteq> 0)"
        if "x \<in> insert e (set_option best)" for x
      proof -
        have "host_start b < host_start r \<or> host_start b = host_start r \<and> (recovery b \<noteq> 0 \<longrightarrow> recovery r \<noteq> 0)" using r(4) b(1) by blast
        then show ?thesis using b(4) that by (metis order_less_trans)
      qed
      then show ?thesis using eq r b(3) by auto
    qed
  qed
qed

section \<open>The invariant of the nodes\<close>

definition module_ok :: "'h Module \<Rightarrow> bool" where
  "module_ok M \<longleftrightarrow> amap_ok (address_node_map M) \<and>
     (\<forall>a n. GetNode M a = Some n \<longrightarrow> location (heap M n) = a \<and> refs (heap M n) \<noteq> 0 \<and> node_type (heap M n) \<noteq> NoneNode \<and> n < next_node M)"

lemma upd_node_sel [simp]:
  "heap (upd_node n f M) = (heap M)(n := f (heap M n))" "address_node_map (upd_node n f M) = address_node_map M"
  "next_node (upd_node n f M) = next_node M" "code_caches (upd_node n f M) = code_caches M" "fault_table (upd_node n f M) = fault_table M"
  "GetNode (upd_node n f M) = GetNode M"
  by (simp_all add: upd_node_def GetNode_def fun_eq_iff)

lemma Push_ok:
  assumes "module_ok M" "node_type (heap M n) \<noteq> NoneNode" "n < next_node M"
  shows "module_ok (fst (Push n M))"
    "GetNode (fst (Push n M)) a = (if a = location (heap M n) \<and> snd (Push n M) then Some n else GetNode M a)"
proof -
  let ?l = "location (heap M n)" and ?m = "address_node_map M"
  have ok: "amap_ok ?m" using assms(1) by (simp add: module_ok_def)
  show g: "GetNode (fst (Push n M)) a = (if a = ?l \<and> snd (Push n M) then Some n else GetNode M a)" for a
    using nodes.put_result[OF ok, of True ?l n] nodes.get_put[OF ok, of True ?l n]
    by (auto simp: Push_def GetNode_def AddNodeRef_def split: prod.split)
  have "amap_ok (address_node_map (fst (Push n M)))" using nodes.put_inv[OF ok, of True ?l n]
    by (simp add: Push_def AddNodeRef_def case_prod_beta)
  moreover have "heap (fst (Push n M)) = (if snd (Push n M) then (heap M)(n := (heap M n)\<lparr>refs := refs (heap M n) + 1\<rparr>) else heap M)"
    "next_node (fst (Push n M)) = next_node M"
    by (simp_all add: Push_def AddNodeRef_def split: prod.split)
  ultimately show "module_ok (fst (Push n M))" using assms g by (auto simp: module_ok_def)
qed

lemma GetNodeOrCreate_ok:
  assumes "module_ok M"
  shows "module_ok (fst (GetNodeOrCreate loc is_func M))"
proof (cases "GetNode M loc")
  case None
  have ok: "amap_ok (address_node_map M)" using assms by (simp add: module_ok_def)
  have "n \<noteq> next_node M" if "GetNode M a = Some n" for a n using assms that by (auto simp: module_ok_def)
  then show ?thesis using None assms nodes.put_inv[OF ok] nodes.get_put[OF ok]
    by (auto simp: GetNodeOrCreate_def module_ok_def GetNode_def Let_def less_SucI)
qed (use assms in \<open>simp add: GetNodeOrCreate_def\<close>)

text \<open>Removal releases the map's reference exactly when the map holds this very node.\<close>

lemma Module_Remove_ok:
  fixes n :: nat
  assumes "module_ok M"
  defines "mapped \<equiv> GetNode M (location (heap M n)) = Some n"
  obtains M' where "Module_Remove n M = Some M'" "module_ok M'" "code_caches M' = code_caches M"
    "\<And>a. GetNode M' a = (if a = location (heap M n) \<and> mapped then None else GetNode M a)"
    "heap M' = (if mapped then (heap M)(n := (heap M n)\<lparr>refs := refs (heap M n) - 1\<rparr>) else heap M)"
    "\<not> mapped \<Longrightarrow> M' = M"
proof (cases mapped)
  case False
  then show ?thesis using assms(1) by (intro that[of M]) (auto simp: Module_Remove_def mapped_def GetNode_def)
next
  case True
  let ?l = "location (heap M n)"
  have ok: "amap_ok (address_node_map M)" using assms(1) by (simp add: module_ok_def)
  have r: "refs (heap M n) \<noteq> 0" using assms(1) True by (auto simp: module_ok_def mapped_def)
  define M' where "M' = upd_node n (\<lambda>x. x\<lparr>refs := refs x - 1\<rparr>) (M\<lparr>address_node_map := fst (AMap_Remove ?l (address_node_map M))\<rparr>)"
  have e: "Module_Remove n M = Some M'" using True r
    by (simp add: Module_Remove_def mapped_def GetNode_def ReleaseNodeRef_def M'_def Let_def)
  have g: "GetNode M' a = (if a = ?l then None else GetNode M a)" for a
    using nodes.get_remove[OF ok] by (simp add: GetNode_def M'_def)
  have "x \<noteq> n" if "GetNode M' a = Some x" for a x using that assms(1) unfolding g module_ok_def by (auto split: if_splits)
  then have "module_ok M'" using assms(1) nodes.remove_inv[OF ok, of ?l] g
    unfolding module_ok_def by (auto simp: M'_def split: if_splits)
  then show ?thesis using e g True by (intro that[of M']) (auto simp: M'_def)
qed

lemma module_ok_jit:
  assumes "module_ok M"
  shows "module_ok (upd_node n (\<lambda>x. x\<lparr>jit_cache := j x\<rparr>) M)"
  using assms by (auto simp: module_ok_def)

lemma DetachNode_ok:
  assumes "module_ok M" "node_type (heap M n) \<noteq> NoneNode"
  obtains M' where "DetachNode n M = Some (M', GetJitCache M (jit_cache (heap M n)))" "module_ok M'" "code_caches M' = code_caches M"
    "\<And>a. GetNode M' a = (if GetNode M a = Some n then None else GetNode M a)"
    "\<not> is_cached (jit_cache (heap M' n))" "location (heap M' n) = location (heap M n)" "node_type (heap M' n) = node_type (heap M n)"
    "refs (heap M' n) = refs (heap M n) - (if GetNode M (location (heap M n)) = Some n then 1 else 0)"
    "\<And>n'. n' \<noteq> n \<Longrightarrow> heap M' n' = heap M n'"
proof -
  let ?j = "jit_cache (heap M n)" and ?l = "location (heap M n)"
  define M1 where "M1 = (if is_cached ?j then upd_node n (\<lambda>x. x\<lparr>jit_cache := reset_cached ?j\<rparr>) M else M)"
  have m1: "module_ok M1" using module_ok_jit[OF assms(1)] assms(1) by (simp add: M1_def)
  have s1: "location (heap M1 n) = ?l" "GetNode M1 = GetNode M" "refs (heap M1 n) = refs (heap M n)" "code_caches M1 = code_caches M"
    "node_type (heap M1 n) = node_type (heap M n)" "\<And>x. x \<noteq> n \<Longrightarrow> heap M1 x = heap M x" "\<not> is_cached (jit_cache (heap M1 n))"
    by (simp_all add: M1_def)
  obtain M' where m: "Module_Remove n M1 = Some M'" "module_ok M'" "code_caches M' = code_caches M1"
    "\<And>a. GetNode M' a = (if a = ?l \<and> GetNode M ?l = Some n then None else GetNode M a)"
    "heap M' = (if GetNode M ?l = Some n then (heap M1)(n := (heap M1 n)\<lparr>refs := refs (heap M1 n) - 1\<rparr>) else heap M1)"
    using Module_Remove_ok[OF m1, of n, unfolded s1(1,2)] by metis
  have e: "(if is_cached ?j then GetJitCache M ?j else 0) = GetJitCache M ?j" by (simp add: GetJitCache_def)
  have d: "DetachNode n M = Some (M', GetJitCache M ?j)"
    using assms(2) m(1) by (cases "node_type (heap M n)") (simp_all add: DetachNode_def detach_body_def Let_def M1_def[symmetric] e)
  have loc: "GetNode M a = Some n \<longleftrightarrow> a = ?l \<and> GetNode M ?l = Some n" for a using assms(1) by (auto simp: module_ok_def)
  have "GetNode M' a = (if GetNode M a = Some n then None else GetNode M a)" for a using m(4)[of a] loc[of a] by argo
  then show ?thesis using d m(2,3) s1 by (intro that[of M']) (simp_all add: m(5))
qed

section \<open>Properties\<close>

datatype fault_op = FaultAdd u64 u64 u64 u64 u64 FaultRecoveryKind | FaultRemove u64

fun run_fault_ops :: "fault_op list \<Rightarrow> FaultEntry list \<Rightarrow> FaultEntry list option" where
  "run_fault_ops [] t = Some t"
| "run_fault_ops (FaultAdd hs he loc owner rcv kind # ops) t = Option.bind (AddFaultEntry hs he loc owner rcv kind t) (run_fault_ops ops)"
| "run_fault_ops (FaultRemove hs # ops) t = run_fault_ops ops (RemoveFaultEntries hs t)"

lemma run_fault_ops_ok: "run_fault_ops ops t = Some t' \<Longrightarrow> fault_ok t \<Longrightarrow> fault_ok t'"
proof (induction ops t rule: run_fault_ops.induct)
  case (2 hs he loc owner rcv kind ops t)
  then show ?case using AddFaultEntry_ok(1) by (fastforce simp: bind_eq_Some_conv)
next
  case (3 hs ops t)
  then show ?case by (simp add: RemoveFaultEntries_def fault_ok_def sorted_wrt_filter)
qed simp

lemma below_pc: "fault_ok t \<Longrightarrow> e \<in> set t \<Longrightarrow> Fault_Contains e pc \<Longrightarrow> e \<in> set (takeWhile (\<lambda>e. \<not> pc < host_start e) t)"
  by (induction t) (auto simp: fault_ok_def Fault_Contains_def not_less)

text \<open>
  C36: after any sequence of additions and removals, the lookup of a host address fails exactly when no
  entry covers it; otherwise it returns an entry that covers it, none that covers it starts later,
  and it has a recovery address if some covering entry with that start has one.
\<close>
theorem fault_lookup_most_specific:
  assumes "run_fault_ops ops [] = Some t"
  shows "case LookupFault t pc of
      None \<Rightarrow> \<forall>e \<in> set t. \<not> Fault_Contains e pc
    | Some r \<Rightarrow> r \<in> set t \<and> Fault_Contains r pc \<and> (\<forall>e \<in> set t. Fault_Contains e pc \<longrightarrow>
        host_start e < host_start r \<or> host_start e = host_start r \<and> (recovery e \<noteq> 0 \<longrightarrow> recovery r \<noteq> 0))"
proof -
  have ok: "fault_ok t" using run_fault_ops_ok[OF assms] by (simp add: fault_ok_def)
  let ?es = "takeWhile (\<lambda>e. \<not> pc < host_start e) t"
  have "sorted_wrt (\<lambda>a b. host_start a \<ge> host_start b) (rev ?es)"
    using ok unfolding sorted_wrt_rev fault_ok_def by (metis sorted_wrt_append takeWhile_dropWhile_id)
  note l = fault_loop_spec[OF this, of None pc]
  have s: "set ?es \<subseteq> set t" by (auto dest: set_takeWhileD)
  show ?thesis
  proof (cases "LookupFault t pc")
    case None
    then have "\<forall>e \<in> set ?es. \<not> Fault_Contains e pc" using l by (simp add: LookupFault_def)
    then show ?thesis using None below_pc[OF ok, of _ pc] by auto
  next
    case (Some r)
    then have r: "r \<in> set ?es" "Fault_Contains r pc" "\<forall>e \<in> set ?es. Fault_Contains e pc \<longrightarrow>
        host_start e < host_start r \<or> host_start e = host_start r \<and> (recovery e \<noteq> 0 \<longrightarrow> recovery r \<noteq> 0)"
      using l by (simp_all add: LookupFault_def)
    then show ?thesis using Some s below_pc[OF ok, of _ pc] by auto
  qed
qed

theorem fault_lookup_most_specific_witness:
  "\<exists>t r. run_fault_ops [FaultAdd 0x100 0x200 0x4000 0x100 0 GuestFault, FaultAdd 0x140 0x180 0x4010 0x100 0 GuestFault,
      FaultAdd 0x140 0x160 0x4020 0x100 0x900 IndirectCallMiss, FaultAdd 0x150 0x158 0 0x700 0 GuestFault, FaultRemove 0x700] [] = Some t \<and>
     LookupFault t 0x150 = Some r \<and> host_start r = 0x140 \<and> recovery r = 0x900 \<and>
     (\<forall>e \<in> set t. Fault_Contains e 0x150 \<longrightarrow>
        host_start e < host_start r \<or> host_start e = host_start r \<and> (recovery e \<noteq> 0 \<longrightarrow> recovery r \<noteq> 0))"
proof -
  let ?ops = "[FaultAdd 0x100 0x200 0x4000 0x100 0 GuestFault, FaultAdd 0x140 0x180 0x4010 0x100 0 GuestFault,
      FaultAdd 0x140 0x160 0x4020 0x100 0x900 IndirectCallMiss, FaultAdd 0x150 0x158 0 0x700 0 GuestFault, FaultRemove 0x700]"
  have "run_fault_ops ?ops [] \<noteq> None" by code_simp
  then obtain t where t: "run_fault_ops ?ops [] = Some t" by blast
  have "Option.bind (run_fault_ops ?ops []) (\<lambda>t. map_option (\<lambda>r. (host_start r, recovery r)) (LookupFault t 0x150)) = Some (0x140, 0x900)"
    by code_simp
  then obtain r where "LookupFault t 0x150 = Some r" "host_start r = 0x140" "recovery r = 0x900" unfolding t by auto
  then show ?thesis using t fault_lookup_most_specific[OF t, of "0x150"] by auto
qed


definition sample_module :: "nat Module" where
  "sample_module =
     (let c = CodeCache_Init 1 0x20000 0x40000 0x10000 16 False 0;
          M0 = \<lparr>address_node_map = AddressHashMap_new 0 0x4000000 0x100000,
                heap = (\<lambda>_. \<lparr>location = 0, node_size = 0, node_type = NoneNode, func_blocks = [], jit_cache = JitCache_empty, refs = 0\<rparr>),
                next_node = 0, code_caches = [(0, c)], fault_table = []\<rparr>;
          M1 = fst (GetNodeOrCreate 0x1000 False M0);
          M2 = fst (GetNodeOrCreate 0x1040 True M1) in
      upd_node 0 (\<lambda>x. x\<lparr>jit_cache := set_cached 0 0x80 0x40 (jit_cache x)\<rparr>) M2)"

lemma sample_module_ok: "module_ok sample_module"
proof -
  have "module_ok \<lparr>address_node_map = AddressHashMap_new 0 0x4000000 0x100000, heap = h, next_node = 0, code_caches = cs, fault_table = []\<rparr>" for h and cs :: "(u16 \<times> nat CodeCache) list"
    by (simp add: module_ok_def GetNode_def amap_new_ok)
  then show ?thesis unfolding sample_module_def Let_def by (intro module_ok_jit GetNodeOrCreate_ok) blast
qed


end
