(* ===== verification/Link_Manager.thy ===== *)
theory Link_Manager
  imports Code_Region Edge_Flags "HOL-Library.AList"
begin

text \<open>
  Direct linking between translated blocks (\<^verbatim>\<open>backend/link_manager.h\<close>, \<^verbatim>\<open>link_manager.cpp\<close>,
  \<^verbatim>\<open>link_manager_flags.cpp\<close>).  Hash maps are association lists with distinct keys, sets of sites are
  distinct lists, and a pointer to a signal node is its index in the storage vector, which only
  grows.  Every operation holds the manager's mutex, so it is one step here: the publishing and
  linking counters have their old value again when it ends, and a compare-exchange loop ends in its
  first round.  The interleaving with the signal handler is the subject of theory
  \<^verbatim>\<open>Link_Protocol\<close>.  A failed assertion is \<^const>\<open>None\<close>.
\<close>

section \<open>Data\<close>

datatype LinkSiteState = Unlinked | Linked | Far | Retiring

datatype LinkSiteKind =
    Unconditional | ConditionalThen | ConditionalElse | SwitchArm | CheckHalt | BackedgeCold | LinkCall
  | KindCount

record LinkSiteKey =
  key_region_id :: u64
  key_offset :: u32

record LinkSourceOwner =
  owner_module :: u64
  owner_allocation :: u64

definition no_bypass :: u32 where "no_bypass = - 1"

record LinkSiteRecord =
  site :: LinkSiteKey
  guest_target :: u64
  source_owner :: LinkSourceOwner
  target_generation :: u64
  edge_flags :: EdgeFlagsState
  flags_bypass_offset :: u32
  flags_bypass_instruction :: u32
  site_state :: LinkSiteState
  site_kind :: LinkSiteKind
  pending_flags_compatible :: bool

record LinkFlagsBypassPatch =
  bp_rx_site :: u64
  bp_rw_site :: u64
  unlinked_instruction :: u32
  linked_instruction :: u32

record LinkSignalPatchSite =
  sp_region :: CodeRegion
  sp_rx_site :: u64
  sp_rw_site :: u64
  unlinked_bl :: u32
  flags_bypass :: LinkFlagsBypassPatch

record LinkTargetRecord =
  lt_guest_target :: u64
  lt_host_pc :: u64
  lt_direct_host_pc :: u64
  lt_pending_flags_host_pc :: u64
  lt_pending_flags_contract :: EdgeFlagsTargetContract
  lt_call_host_pc :: u64
  lt_call_pending_flags_host_pc :: u64
  lt_region_id :: u64
  lt_generation :: u64
  lt_target_owner :: LinkSourceOwner

record TargetRecord =
  tr_generation :: u64
  tr_host_pc :: u64
  tr_direct_host_pc :: u64
  tr_pending_flags_host_pc :: u64
  tr_pending_flags_contract :: EdgeFlagsTargetContract
  tr_call_host_pc :: u64
  tr_call_pending_flags_host_pc :: u64
  tr_region_id :: u64
  tr_target_owner :: LinkSourceOwner
  tr_signal_target :: "nat option"
  tr_active :: bool

record SignalSite =
  patch :: LinkSignalPatchSite
  ss_linked :: bool
  ss_live :: bool

record SignalTarget =
  st_guest_target :: u64
  active_generation :: u64
  st_sites :: "nat list"

record OutgoingRecord =
  out_sites :: "LinkSiteKey list"
  out_retiring :: bool

record LinkManager =
  sites :: "(LinkSiteKey \<times> LinkSiteRecord) list"
  incoming :: "(u64 \<times> LinkSiteKey list) list"
  outgoing :: "(LinkSourceOwner \<times> OutgoingRecord) list"
  targets :: "(u64 \<times> TargetRecord) list"
  signal_sites :: "(LinkSiteKey \<times> nat) list"
  signal_targets_storage :: "SignalTarget list"
  signal_sites_storage :: "SignalSite list"
  signal_buckets :: "nat \<Rightarrow> nat list"
  signal_readers :: u32
  signal_invalidations :: u64
  signal_delinks :: u64
  next_target_generation :: u64
  sites_registered :: u64
  linker_calls :: u64
  delinks :: u64
  max_in_degree :: nat

definition LinkManager_new :: LinkManager where
  "LinkManager_new = \<lparr>sites = [], incoming = [], outgoing = [], targets = [], signal_sites = [],
     signal_targets_storage = [], signal_sites_storage = [], signal_buckets = (\<lambda>_. []),
     signal_readers = 0, signal_invalidations = 0, signal_delinks = 0, next_target_generation = 1,
     sites_registered = 0, linker_calls = 0, delinks = 0, max_in_degree = 0\<rparr>"

definition kParityPublishRegisterMask :: u32 where "kParityPublishRegisterMask = 0x3E0"
definition kParityPublishOpcode :: u32 where "kParityPublishOpcode = 0xB3401C1A"
definition kSignalInvalidatingGeneration :: u64 where "kSignalInvalidatingGeneration = - 1"
definition kSignalBucketCount :: u64 where "kSignalBucketCount = 4096"

section \<open>The signal index\<close>

text \<open>The standard library's hash of an integer is the integer.\<close>

definition signal_bucket :: "u64 \<Rightarrow> nat" where
  "signal_bucket t = unat (t mod kSignalBucketCount)"

definition FindSignalTarget :: "LinkManager \<Rightarrow> u64 \<Rightarrow> nat option" where
  "FindSignalTarget lm t =
     find (\<lambda>i. st_guest_target (signal_targets_storage lm ! i) = t) (signal_buckets lm (signal_bucket t))"

definition GetOrCreateSignalTargetLocked :: "LinkManager \<Rightarrow> u64 \<Rightarrow> nat \<times> LinkManager" where
  "GetOrCreateSignalTargetLocked lm t =
     (case FindSignalTarget lm t of
        Some i \<Rightarrow> (i, lm)
      | None \<Rightarrow>
          let raw = length (signal_targets_storage lm); b = signal_bucket t in
          (raw, lm\<lparr>signal_targets_storage := signal_targets_storage lm @
                     [\<lparr>st_guest_target = t, active_generation = 0, st_sites = []\<rparr>],
                   signal_buckets := (signal_buckets lm)(b := raw # signal_buckets lm b)\<rparr>))"

definition upd_target :: "nat \<Rightarrow> (SignalTarget \<Rightarrow> SignalTarget) \<Rightarrow> LinkManager \<Rightarrow> LinkManager" where
  "upd_target i f lm = lm\<lparr>signal_targets_storage :=
     (signal_targets_storage lm)[i := f (signal_targets_storage lm ! i)]\<rparr>"

definition upd_site :: "nat \<Rightarrow> (SignalSite \<Rightarrow> SignalSite) \<Rightarrow> LinkManager \<Rightarrow> LinkManager" where
  "upd_site n f lm = lm\<lparr>signal_sites_storage :=
     (signal_sites_storage lm)[n := f (signal_sites_storage lm ! n)]\<rparr>"

definition UnlinkSignalSiteLocked :: "nat \<Rightarrow> nat \<Rightarrow> LinkManager \<Rightarrow> LinkManager" where
  "UnlinkSignalSiteLocked i n lm =
     (if n \<in> set (st_sites (signal_targets_storage lm ! i)) then
        upd_site n (\<lambda>s. s\<lparr>ss_linked := False\<rparr>) (upd_target i (\<lambda>t. t\<lparr>st_sites := remove1 n (st_sites t)\<rparr>) lm)
      else lm)"

definition set_signal_linked :: "LinkSiteKey \<Rightarrow> bool \<Rightarrow> LinkManager \<Rightarrow> LinkManager" where
  "set_signal_linked k b lm =
     (case map_of (signal_sites lm) k of
        None \<Rightarrow> lm
      | Some n \<Rightarrow> upd_site n (\<lambda>s. s\<lparr>ss_linked := b\<rparr>) lm)"

section \<open>Registration and publication\<close>

definition has_flags_bypass :: "LinkSignalPatchSite option \<Rightarrow> bool" where
  "has_flags_bypass sp = (case sp of None \<Rightarrow> False | Some p \<Rightarrow> bp_rx_site (flags_bypass p) \<noteq> 0)"

definition patch_valid :: "LinkSiteKey \<Rightarrow> LinkSignalPatchSite \<Rightarrow> bool" where
  "patch_valid k p =
     (region_id (sp_region p) = key_region_id k \<and> ContainsRx (sp_region p) (sp_rx_site p) \<and>
      ContainsRw (sp_region p) (sp_rw_site p) \<and> SiteRxToRw (sp_region p) (sp_rx_site p) = sp_rw_site p \<and>
      ucast (sp_rx_site p - rx_base (sp_region p)) = key_offset k \<and>
      unlinked_bl p AND kBranchOpcodeMask = kBranchOpcode)"

definition bypass_valid :: "CodeRegion \<Rightarrow> LinkFlagsBypassPatch \<Rightarrow> bool" where
  "bypass_valid r b =
     (let linked_branch = linked_instruction b AND kBranchOpcodeMask = kBranchOpcode;
          linked_parity_publish = linked_instruction b AND NOT kParityPublishRegisterMask = kParityPublishOpcode in
      bp_rw_site b \<noteq> 0 \<and> ContainsRx r (bp_rx_site b) \<and> ContainsRw r (bp_rw_site b) \<and>
      SiteRxToRw r (bp_rx_site b) = bp_rw_site b \<and> (linked_branch \<or> linked_parity_publish) \<and>
      (linked_parity_publish \<longrightarrow> unlinked_instruction b AND kBranchTypeMask = kBLOpcode))"

definition register_accepts ::
  "LinkSiteKey \<Rightarrow> LinkSourceOwner \<Rightarrow> LinkSignalPatchSite option \<Rightarrow> LinkSiteKind \<Rightarrow> EdgeFlagsState \<Rightarrow> LinkManager \<Rightarrow> bool" where
  "register_accepts k owner sp knd ef lm =
     (\<not> (key_region_id k = 0 \<or> key_offset k AND 3 \<noteq> 0 \<or> owner_module owner = 0 \<or> owner_allocation owner = 0 \<or> knd = KindCount) \<and>
      \<not> (\<not> EdgeFlags_IsWellFormed ef \<or> has_flags_bypass sp \<noteq> HasPendingPState ef) \<and>
      (case sp of None \<Rightarrow> True
       | Some p \<Rightarrow> patch_valid k p \<and> (has_flags_bypass sp \<longrightarrow> bypass_valid (sp_region p) (flags_bypass p))) \<and>
      \<not> (case map_of (outgoing lm) owner of None \<Rightarrow> False | Some out \<Rightarrow> out_retiring out) \<and>
      map_of (sites lm) k = None)"

definition new_site_record ::
  "LinkSiteKey \<Rightarrow> u64 \<Rightarrow> LinkSourceOwner \<Rightarrow> LinkSignalPatchSite option \<Rightarrow> LinkSiteKind \<Rightarrow> EdgeFlagsState \<Rightarrow> LinkSiteRecord" where
  "new_site_record k t owner sp knd ef =
     \<lparr>site = k, guest_target = t, source_owner = owner, target_generation = 0, edge_flags = ef,
      flags_bypass_offset = (case sp of None \<Rightarrow> no_bypass
        | Some p \<Rightarrow> if has_flags_bypass sp then ucast (bp_rx_site (flags_bypass p) - rx_base (sp_region p)) else no_bypass),
      flags_bypass_instruction = (case sp of None \<Rightarrow> 0
        | Some p \<Rightarrow> if has_flags_bypass sp then unlinked_instruction (flags_bypass p) else 0),
      site_state = Unlinked, site_kind = knd, pending_flags_compatible = False\<rparr>"

definition publish_signal_site :: "LinkSiteKey \<Rightarrow> u64 \<Rightarrow> LinkSignalPatchSite \<Rightarrow> LinkManager \<Rightarrow> LinkManager" where
  "publish_signal_site k t p lm =
     (let (i, lm') = GetOrCreateSignalTargetLocked lm t; n = length (signal_sites_storage lm') in
      upd_target i (\<lambda>st. st\<lparr>st_sites := n # st_sites st\<rparr>)
        (lm'\<lparr>signal_sites := AList.update k n (signal_sites lm'),
             signal_sites_storage := signal_sites_storage lm' @ [\<lparr>patch = p, ss_linked = False, ss_live = True\<rparr>]\<rparr>))"

definition RegisterSite ::
  "LinkSiteKey \<Rightarrow> u64 \<Rightarrow> LinkSourceOwner \<Rightarrow> LinkSignalPatchSite option \<Rightarrow> LinkSiteKind \<Rightarrow> EdgeFlagsState \<Rightarrow>
   LinkManager \<Rightarrow> LinkManager \<times> bool" where
  "RegisterSite k t owner sp knd ef lm =
     (if \<not> register_accepts k owner sp knd ef lm then (lm, False)
      else
        let inc = List.insert k (case map_of (incoming lm) t of None \<Rightarrow> [] | Some ks \<Rightarrow> ks);
            out = (case map_of (outgoing lm) owner of None \<Rightarrow> \<lparr>out_sites = [], out_retiring = False\<rparr> | Some out \<Rightarrow> out);
            lm1 = lm\<lparr>sites := AList.update k (new_site_record k t owner sp knd ef) (sites lm),
                     incoming := AList.update t inc (incoming lm),
                     outgoing := AList.update owner (out\<lparr>out_sites := List.insert k (out_sites out)\<rparr>) (outgoing lm)\<rparr>;
            lm2 = (case sp of None \<Rightarrow> lm1 | Some p \<Rightarrow> publish_signal_site k t p lm1) in
        (lm2\<lparr>sites_registered := sites_registered lm2 + 1,
             max_in_degree := max (max_in_degree lm2) (length inc)\<rparr>, True))"

definition QuerySite :: "LinkManager \<Rightarrow> LinkSiteKey \<Rightarrow> LinkSiteRecord option" where
  "QuerySite lm k = map_of (sites lm) k"

definition PublishTarget ::
  "u64 \<Rightarrow> u64 \<Rightarrow> u64 \<Rightarrow> LinkSourceOwner \<Rightarrow> u64 \<Rightarrow> u64 \<Rightarrow> u64 \<Rightarrow> u64 \<Rightarrow> EdgeFlagsTargetContract \<Rightarrow>
   LinkManager \<Rightarrow> (LinkManager \<times> u64) option" where
  "PublishTarget t host rid owner direct pending call call_pending contract lm = do {
     ASSERT (EdgeContract_IsWellFormed contract);
     ASSERT ((pending \<noteq> 0 \<or> call_pending \<noteq> 0) = CanPublishPendingEntry contract);
     let generation = next_target_generation lm;
     ASSERT (generation \<noteq> kSignalInvalidatingGeneration);
     let (i, lm1) = GetOrCreateSignalTargetLocked (lm\<lparr>next_target_generation := generation + 1\<rparr>) t;
     let published = (active_generation (signal_targets_storage lm1 ! i) \<noteq> kSignalInvalidatingGeneration);
     let lm2 = (if published then upd_target i (\<lambda>st. st\<lparr>active_generation := generation\<rparr>) lm1 else lm1);
     let lm3 = lm2\<lparr>targets := AList.update t
           \<lparr>tr_generation = generation, tr_host_pc = host, tr_direct_host_pc = (if direct \<noteq> 0 then direct else host),
            tr_pending_flags_host_pc = pending, tr_pending_flags_contract = contract, tr_call_host_pc = call,
            tr_call_pending_flags_host_pc = call_pending, tr_region_id = rid, tr_target_owner = owner,
            tr_signal_target = Some i, tr_active = published\<rparr> (targets lm2)\<rparr>;
     let lm4 = (if owner_module owner \<noteq> 0 \<and> owner_allocation owner \<noteq> 0 \<and> map_of (outgoing lm3) owner = None
                then lm3\<lparr>outgoing := AList.update owner \<lparr>out_sites = [], out_retiring = False\<rparr> (outgoing lm3)\<rparr>
                else lm3);
     Some (lm4, generation) }"

definition signal_generation :: "LinkManager \<Rightarrow> TargetRecord \<Rightarrow> u64 option" where
  "signal_generation lm tr =
     map_option (\<lambda>i. active_generation (signal_targets_storage lm ! i)) (tr_signal_target tr)"

definition link_target_record :: "u64 \<Rightarrow> TargetRecord \<Rightarrow> LinkTargetRecord" where
  "link_target_record t tr =
     \<lparr>lt_guest_target = t, lt_host_pc = tr_host_pc tr, lt_direct_host_pc = tr_direct_host_pc tr,
      lt_pending_flags_host_pc = tr_pending_flags_host_pc tr,
      lt_pending_flags_contract = tr_pending_flags_contract tr, lt_call_host_pc = tr_call_host_pc tr,
      lt_call_pending_flags_host_pc = tr_call_pending_flags_host_pc tr, lt_region_id = tr_region_id tr,
      lt_generation = tr_generation tr, lt_target_owner = tr_target_owner tr\<rparr>"

definition QueryTarget :: "LinkManager \<Rightarrow> u64 \<Rightarrow> LinkTargetRecord option" where
  "QueryTarget lm t =
     (case map_of (targets lm) t of
        None \<Rightarrow> None
      | Some tr \<Rightarrow> if tr_active tr \<and> signal_generation lm tr = Some (tr_generation tr)
                  then Some (link_target_record t tr) else None)"

definition QueryTargets :: "LinkManager \<Rightarrow> LinkSourceOwner \<Rightarrow> u64 list" where
  "QueryTargets lm owner = sort (map fst (filter (\<lambda>(t, tr). tr_target_owner tr = owner) (targets lm)))"

definition QueryTargetGeneration :: "LinkManager \<Rightarrow> u64 \<Rightarrow> u64 option" where
  "QueryTargetGeneration lm t =
     (case map_of (targets lm) t of
        None \<Rightarrow> None
      | Some tr \<Rightarrow> if tr_active tr \<and> signal_generation lm tr = Some (tr_generation tr)
                  then Some (tr_generation tr) else None)"

definition ValidateTargetGeneration :: "LinkManager \<Rightarrow> u64 \<Rightarrow> u64 \<Rightarrow> bool" where
  "ValidateTargetGeneration lm t generation =
     (case map_of (targets lm) t of
        None \<Rightarrow> False
      | Some tr \<Rightarrow> tr_active tr \<and> tr_generation tr = generation \<and> signal_generation lm tr = Some generation)"

section \<open>Linking\<close>

definition ValidateMarkLocked :: "LinkManager \<Rightarrow> LinkSiteKey \<Rightarrow> u64 \<Rightarrow> LinkSiteRecord option" where
  "ValidateMarkLocked lm k expected =
     (case map_of (sites lm) k of
        None \<Rightarrow> None
      | Some rec \<Rightarrow>
          if site_state rec \<noteq> Unlinked then None
          else (case map_of (targets lm) (guest_target rec) of
              None \<Rightarrow> None
            | Some tr \<Rightarrow> if \<not> tr_active tr \<or> tr_generation tr \<noteq> expected \<or> signal_generation lm tr \<noteq> Some expected
                        then None else Some rec))"

definition DisableFlagsBypassLocked :: "LinkManager \<Rightarrow> LinkSiteRecord \<Rightarrow> code_words \<Rightarrow> code_words option" where
  "DisableFlagsBypassLocked lm rec m =
     (case map_of (signal_sites lm) (site rec) of
        None \<Rightarrow> Some m
      | Some n \<Rightarrow>
          let p = patch (signal_sites_storage lm ! n); bypass = flags_bypass p in
          if bp_rx_site bypass \<noteq> 0
          then map_option fst (PatchCodeWord (sp_region p) (bp_rx_site bypass) (bp_rw_site bypass) (unlinked_instruction bypass) m)
          else Some m)"

text \<open>
  The scan over the sites that share a bypass instruction: \<^const>\<open>None\<close> is the early return, otherwise
  the node whose patch is used and the linked members with their targets.
\<close>

fun bypass_members ::
  "LinkManager \<Rightarrow> LinkSiteRecord \<Rightarrow> (LinkSiteKey \<times> LinkSiteRecord) list \<Rightarrow> nat option \<Rightarrow>
   (LinkSiteRecord \<times> TargetRecord) list \<Rightarrow> (nat option \<times> (LinkSiteRecord \<times> TargetRecord) list) option" where
  "bypass_members lm rec [] patch_site members = Some (patch_site, members)"
| "bypass_members lm rec ((k, member) # rest) patch_site members =
     (if key_region_id k \<noteq> key_region_id (site rec) \<or> flags_bypass_offset member \<noteq> flags_bypass_offset rec
      then bypass_members lm rec rest patch_site members
      else if site_state member = Retiring then None
      else (case map_of (signal_sites lm) k of
          None \<Rightarrow> None
        | Some n \<Rightarrow>
            let candidate = flags_bypass (patch (signal_sites_storage lm ! n)) in
            if bp_rx_site candidate = 0 \<or>
               (case patch_site of None \<Rightarrow> False
                | Some q \<Rightarrow> candidate \<noteq> flags_bypass (patch (signal_sites_storage lm ! q))) then None
            else
              let ps = (case patch_site of None \<Rightarrow> Some n | Some q \<Rightarrow> Some q);
                  is_linked = ss_linked (signal_sites_storage lm ! n) in
              if site_state member \<noteq> Linked then
                (if is_linked then None else bypass_members lm rec rest ps members)
              else if \<not> pending_flags_compatible member then None
              else (case map_of (targets lm) (guest_target member) of
                  None \<Rightarrow> None
                | Some tr \<Rightarrow>
                    if \<not> tr_active tr \<or> tr_generation tr \<noteq> target_generation member \<or> tr_signal_target tr = None \<or> \<not> is_linked
                    then None
                    else bypass_members lm rec rest ps (members @ [(member, tr)]))))"

definition TryEnableFlagsBypassLocked :: "LinkManager \<Rightarrow> LinkSiteRecord \<Rightarrow> code_words \<Rightarrow> code_words option" where
  "TryEnableFlagsBypassLocked lm rec m =
     (if flags_bypass_offset rec = no_bypass \<or> \<not> pending_flags_compatible rec then Some m
      else (case bypass_members lm rec (sites lm) None [] of
          None \<Rightarrow> Some m
        | Some (None, _) \<Rightarrow> Some m
        | Some (Some n, members) \<Rightarrow>
            let valid = (\<forall>(member, tr) \<in> set members. tr_active tr \<and> tr_generation tr = target_generation member \<and>
                           signal_generation lm tr = Some (target_generation member));
                p = patch (signal_sites_storage lm ! n); bypass = flags_bypass p in
            if valid
            then map_option fst (PatchCodeWord (sp_region p) (bp_rx_site bypass) (bp_rw_site bypass) (linked_instruction bypass) m)
            else Some m))"

type_synonym LinkCommit = "LinkSiteRecord \<Rightarrow> code_words \<Rightarrow> (code_words \<times> bool) option"

definition pending_compatible :: "LinkSiteRecord \<Rightarrow> TargetRecord \<Rightarrow> bool" where
  "pending_compatible rec tr =
     (Accepts (tr_pending_flags_contract tr) (edge_flags rec) \<and>
      (if site_kind rec = LinkCall then tr_call_pending_flags_host_pc tr \<noteq> 0 else tr_pending_flags_host_pc tr \<noteq> 0))"

definition MarkLinked ::
  "LinkSiteKey \<Rightarrow> u64 \<Rightarrow> LinkCommit option \<Rightarrow> LinkManager \<times> code_words \<Rightarrow> ((LinkManager \<times> code_words) \<times> bool) option" where
  "MarkLinked k expected commit s =
     (let (lm, m) = s in
      case (map_of (sites lm) k, commit) of
        (Some rec, Some commit) \<Rightarrow>
          if site_state rec \<noteq> Unlinked then Some ((lm, m), False)
          else (case map_of (targets lm) (guest_target rec) of
              None \<Rightarrow> Some ((lm, m), False)
            | Some tr \<Rightarrow>
                if tr_signal_target tr = None then Some ((lm, m), False)
                else do {
                  let valid = (tr_active tr \<and> tr_generation tr = expected \<and> signal_generation lm tr = Some expected);
                  let compatible = pending_compatible rec tr;
                  (m', committed) \<leftarrow>
                    (if valid then do {
                       m1 \<leftarrow> (if flags_bypass_offset rec \<noteq> no_bypass \<and> \<not> compatible
                              then DisableFlagsBypassLocked lm rec m else Some m);
                       commit rec m1 }
                     else Some (m, False));
                  let still_active = (signal_generation lm tr = Some expected);
                  if committed \<and> still_active then do {
                    let rec' = rec\<lparr>target_generation := expected, site_state := Linked,
                                   pending_flags_compatible := compatible\<rparr>;
                    let lm1 = set_signal_linked k True (lm\<lparr>sites := AList.update k rec' (sites lm)\<rparr>);
                    m'' \<leftarrow> TryEnableFlagsBypassLocked lm1 rec' m';
                    Some ((lm1, m''), True) }
                  else Some ((lm, m'), False) })
      | _ \<Rightarrow> Some ((lm, m), False))"

definition MarkFar :: "LinkSiteKey \<Rightarrow> u64 \<Rightarrow> LinkManager \<Rightarrow> LinkManager \<times> bool" where
  "MarkFar k expected lm =
     (case ValidateMarkLocked lm k expected of
        None \<Rightarrow> (lm, False)
      | Some rec \<Rightarrow>
          (set_signal_linked k False (lm\<lparr>sites := AList.update k
             (rec\<lparr>target_generation := expected, site_state := Far, pending_flags_compatible := False\<rparr>) (sites lm)\<rparr>), True))"

section \<open>Invalidation and retirement\<close>

definition unlink_record :: "LinkSiteRecord \<Rightarrow> LinkSiteRecord" where
  "unlink_record rec = rec\<lparr>target_generation := 0, pending_flags_compatible := False,
     site_state := (if site_state rec \<noteq> Retiring then Unlinked else site_state rec)\<rparr>"

fun unlink_incoming :: "LinkSiteKey list \<Rightarrow> LinkManager \<Rightarrow> LinkManager \<times> LinkSiteRecord list" where
  "unlink_incoming [] lm = (lm, [])"
| "unlink_incoming (k # ks) lm =
     (case map_of (sites lm) k of
        None \<Rightarrow> unlink_incoming ks lm
      | Some rec \<Rightarrow>
          let (lm', result) = unlink_incoming ks
                (set_signal_linked k False (lm\<lparr>sites := AList.update k (unlink_record rec) (sites lm)\<rparr>)) in
          (lm', rec # result))"

definition BeginTargetInvalidation :: "u64 \<Rightarrow> LinkManager \<Rightarrow> LinkManager \<times> LinkSiteRecord list" where
  "BeginTargetInvalidation t lm =
     (case map_of (targets lm) t of
        None \<Rightarrow> (lm, [])
      | Some tr \<Rightarrow>
          let lm1 = lm\<lparr>targets := AList.update t (tr\<lparr>tr_active := False\<rparr>) (targets lm)\<rparr>;
              lm2 = (case tr_signal_target tr of None \<Rightarrow> lm1
                     | Some i \<Rightarrow> upd_target i (\<lambda>st. st\<lparr>active_generation := 0\<rparr>) lm1) in
          (case map_of (incoming lm) t of
             None \<Rightarrow> (lm2, [])
           | Some ks \<Rightarrow> unlink_incoming ks lm2))"

fun retire_sites :: "LinkSiteKey list \<Rightarrow> LinkManager \<Rightarrow> LinkManager \<times> nat" where
  "retire_sites [] lm = (lm, 0)"
| "retire_sites (k # ks) lm =
     (case map_of (sites lm) k of
        None \<Rightarrow> retire_sites ks lm
      | Some rec \<Rightarrow>
          let (lm', n) = retire_sites ks (lm\<lparr>sites := AList.update k (rec\<lparr>site_state := Retiring\<rparr>) (sites lm)\<rparr>) in
          (lm', n + 1))"

definition DetachSource :: "LinkSourceOwner \<Rightarrow> LinkManager \<Rightarrow> LinkManager \<times> nat" where
  "DetachSource owner lm =
     (case map_of (outgoing lm) owner of
        None \<Rightarrow> (lm, 0)
      | Some out \<Rightarrow>
          retire_sites (out_sites out)
            (lm\<lparr>outgoing := AList.update owner (out\<lparr>out_retiring := True\<rparr>) (outgoing lm)\<rparr>))"

fun tombstone_sites :: "LinkSiteKey list \<Rightarrow> LinkManager \<Rightarrow> LinkManager" where
  "tombstone_sites [] lm = lm"
| "tombstone_sites (k # ks) lm =
     tombstone_sites ks (case map_of (signal_sites lm) k of None \<Rightarrow> lm
                         | Some n \<Rightarrow> upd_site n (\<lambda>s. s\<lparr>ss_live := False\<rparr>) lm)"

definition drop_incoming :: "LinkSiteKey \<Rightarrow> u64 \<Rightarrow> LinkManager \<Rightarrow> LinkManager" where
  "drop_incoming k t lm = (case map_of (incoming lm) t of None \<Rightarrow> lm
     | Some inc \<Rightarrow> lm\<lparr>incoming := (if remove1 k inc = [] then AList.delete t (incoming lm) else AList.update t (remove1 k inc) (incoming lm))\<rparr>)"

definition drop_signal_site :: "LinkSiteKey \<Rightarrow> u64 \<Rightarrow> LinkManager \<Rightarrow> LinkManager" where
  "drop_signal_site k t lm = (case map_of (signal_sites lm) k of None \<Rightarrow> lm
     | Some n \<Rightarrow> let lm' = (case FindSignalTarget lm t of None \<Rightarrow> lm | Some i \<Rightarrow> UnlinkSignalSiteLocked i n lm) in
                lm'\<lparr>signal_sites := AList.delete k (signal_sites lm')\<rparr>)"

definition purge_site :: "LinkSiteKey \<Rightarrow> LinkSiteRecord \<Rightarrow> LinkManager \<Rightarrow> LinkManager" where
  "purge_site k rec lm =
     (let lm2 = drop_signal_site k (guest_target rec) (drop_incoming k (guest_target rec) lm) in
      lm2\<lparr>sites := AList.delete k (sites lm2)\<rparr>)"

fun purge_sites :: "LinkSiteKey list \<Rightarrow> LinkManager \<Rightarrow> LinkManager \<times> nat" where
  "purge_sites [] lm = (lm, 0)"
| "purge_sites (k # ks) lm =
     (case map_of (sites lm) k of
        None \<Rightarrow> purge_sites ks lm
      | Some rec \<Rightarrow> let (lm', n) = purge_sites ks (purge_site k rec lm) in (lm', n + 1))"

fun deactivate_targets :: "TargetRecord list \<Rightarrow> LinkManager \<Rightarrow> LinkManager" where
  "deactivate_targets [] lm = lm"
| "deactivate_targets (tr # trs) lm =
     deactivate_targets trs (case tr_signal_target tr of None \<Rightarrow> lm
                             | Some i \<Rightarrow> upd_target i (\<lambda>st. st\<lparr>active_generation := 0\<rparr>) lm)"

definition erase_targets :: "LinkSourceOwner \<Rightarrow> LinkManager \<Rightarrow> LinkManager" where
  "erase_targets owner lm =
     (let owned = filter (\<lambda>(t, tr). tr_target_owner tr = owner) (targets lm);
          lm1 = deactivate_targets (map snd owned) lm in
      lm1\<lparr>targets := filter (\<lambda>(t, tr). tr_target_owner tr \<noteq> owner) (targets lm1)\<rparr>)"

text \<open>Waiting for signal readers does not return while there is one: \<^const>\<open>None\<close>.\<close>

definition PurgeSource :: "LinkSourceOwner \<Rightarrow> LinkManager \<Rightarrow> (LinkManager \<times> nat) option" where
  "PurgeSource owner lm =
     (case map_of (outgoing lm) owner of
        None \<Rightarrow> Some (lm, 0)
      | Some out \<Rightarrow>
          if \<not> out_retiring out then Some (lm, 0)
          else if \<exists>k \<in> set (out_sites out). (case map_of (sites lm) k of None \<Rightarrow> True | Some rec \<Rightarrow> site_state rec \<noteq> Retiring)
          then Some (lm, 0)
          else do {
            let lm1 = tombstone_sites (out_sites out) lm;
            ASSERT (signal_readers lm1 = 0);
            let (lm2, purged) = purge_sites (out_sites out) lm1;
            let lm3 = erase_targets owner lm2;
            Some (lm3\<lparr>outgoing := AList.delete owner (outgoing lm3)\<rparr>, purged) })"

definition RecordLinkerCall :: "LinkManager \<Rightarrow> LinkManager" where
  "RecordLinkerCall lm = lm\<lparr>linker_calls := linker_calls lm + 1\<rparr>"

definition RecordDelink :: "nat \<Rightarrow> LinkManager \<Rightarrow> LinkManager" where
  "RecordDelink count lm = lm\<lparr>delinks := delinks lm + of_nat count\<rparr>"

text \<open>
  The signal handler's pass over a target's list: it skips tombstones, counts the sites that were
  linked, and writes the unlinked branch back.
\<close>

fun restore_sites :: "bool \<Rightarrow> nat list \<Rightarrow> LinkManager \<times> code_words \<Rightarrow> ((LinkManager \<times> code_words) \<times> nat) option" where
  "restore_sites count_linked [] s = Some (s, 0)"
| "restore_sites count_linked (n # ns) (lm, m) =
     (let node = signal_sites_storage lm ! n in
      if \<not> ss_live node then restore_sites count_linked ns (lm, m)
      else do {
        let counted = (count_linked \<and> ss_linked node);
        let lm' = (if count_linked then upd_site n (\<lambda>s. s\<lparr>ss_linked := False\<rparr>) lm else lm);
        (m', _) \<leftarrow> PatchDirectBranch (sp_region (patch node)) (sp_rx_site (patch node)) (sp_rw_site (patch node))
                     (unlinked_bl (patch node)) m;
        (s', c) \<leftarrow> restore_sites count_linked ns (lm', m');
        Some (s', (if counted then 1 else 0) + c) })"

definition signal_deactivate :: "nat \<Rightarrow> LinkManager \<Rightarrow> LinkManager" where
  "signal_deactivate i lm =
     (let lm1 = (if active_generation (signal_targets_storage lm ! i) \<noteq> 0
                 then upd_target i (\<lambda>st. st\<lparr>active_generation := kSignalInvalidatingGeneration\<rparr>) lm else lm) in
      lm1\<lparr>signal_invalidations := signal_invalidations lm1 + 1\<rparr>)"

definition SignalInvalidateTarget :: "u64 \<Rightarrow> LinkManager \<times> code_words \<Rightarrow> ((LinkManager \<times> code_words) \<times> bool \<times> nat) option" where
  "SignalInvalidateTarget t s =
     (let (lm, m) = s in
      case FindSignalTarget lm t of
        None \<Rightarrow> Some ((lm, m), False, 0)
      | Some i \<Rightarrow> do {
          let lm2 = signal_deactivate i lm;
          (s3, linked_sites) \<leftarrow> restore_sites True (st_sites (signal_targets_storage lm2 ! i)) (lm2, m);
          ((lm4, m4), _) \<leftarrow> restore_sites False (st_sites (signal_targets_storage (fst s3) ! i)) s3;
          let lm5 = (if linked_sites \<noteq> 0 then lm4\<lparr>signal_delinks := signal_delinks lm4 + of_nat linked_sites\<rparr> else lm4);
          Some ((lm5, m4), True, linked_sites) })"

end
