(* ===== verification/Link_Invariant.thy ===== *)
theory Link_Invariant
  imports Link_Manager
begin

text \<open>
  The invariant of the link manager and its preservation by every operation: the site, incoming and
  outgoing indexes describe the same sites, an owner is retiring exactly when its sites are, the
  signal index has one target per guest address and one node per patchable site, and the generation
  that the signal index publishes is that of an active target.
\<close>

section \<open>The invariant\<close>

text \<open>
  The indexes as maps: \<open>S\<close> the sites, \<open>I\<close> the incoming and \<open>Q\<close> the outgoing index, \<open>T\<close> the targets, \<open>N\<close>
  the signal nodes of the sites, \<open>ns\<close> and \<open>ts\<close> the signal nodes and signal targets, \<open>B\<close> the buckets.
\<close>

definition in_ok :: "(LinkSiteKey \<rightharpoonup> LinkSiteRecord) \<Rightarrow> (u64 \<rightharpoonup> LinkSiteKey list) \<Rightarrow> bool" where
  "in_ok S I \<longleftrightarrow>
     (\<forall>k r. S k = Some r \<longrightarrow> site r = k \<and> (\<exists>ks. I (guest_target r) = Some ks \<and> k \<in> set ks)) \<and>
     (\<forall>t ks. I t = Some ks \<longrightarrow> ks \<noteq> [] \<and> distinct ks \<and> (\<forall>k\<in>set ks. \<exists>r. S k = Some r \<and> guest_target r = t))"

definition out_ok :: "(LinkSiteKey \<rightharpoonup> LinkSiteRecord) \<Rightarrow> (LinkSourceOwner \<rightharpoonup> OutgoingRecord) \<Rightarrow> bool" where
  "out_ok S Q \<longleftrightarrow>
     (\<forall>k r. S k = Some r \<longrightarrow>
        (\<exists>out. Q (source_owner r) = Some out \<and> k \<in> set (out_sites out) \<and> out_retiring out = (site_state r = Retiring))) \<and>
     (\<forall>w out. Q w = Some out \<longrightarrow> distinct (out_sites out) \<and> (\<forall>k\<in>set (out_sites out). \<exists>r. S k = Some r \<and> source_owner r = w))"

definition idx_ok ::
  "(LinkSiteKey \<rightharpoonup> LinkSiteRecord) \<Rightarrow> (u64 \<rightharpoonup> LinkSiteKey list) \<Rightarrow> (LinkSourceOwner \<rightharpoonup> OutgoingRecord) \<Rightarrow> bool" where
  "idx_ok S I Q \<longleftrightarrow> in_ok S I \<and> out_ok S Q"

definition sig_ok :: "(nat \<Rightarrow> nat list) \<Rightarrow> SignalTarget list \<Rightarrow> bool" where
  "sig_ok B ts \<longleftrightarrow>
     (\<forall>b. \<forall>i\<in>set (B b). i < length ts \<and> signal_bucket (st_guest_target (ts ! i)) = b) \<and>
     (\<forall>i < length ts. i \<in> set (B (signal_bucket (st_guest_target (ts ! i))))) \<and>
     distinct (map st_guest_target ts)"

definition nodes_ok ::
  "LinkSiteKey set \<Rightarrow> (LinkSiteKey \<rightharpoonup> LinkSiteRecord) \<Rightarrow> (LinkSiteKey \<rightharpoonup> nat) \<Rightarrow> SignalSite list \<Rightarrow> SignalTarget list \<Rightarrow> bool" where
  "nodes_ok D S N ns ts \<longleftrightarrow>
     (\<forall>k n. N k = Some n \<longrightarrow> n < length ns \<and> (k \<notin> D \<longrightarrow> ss_live (ns ! n)) \<and> patch_valid k (patch (ns ! n)) \<and>
        (\<exists>r i. S k = Some r \<and> i < length ts \<and> st_guest_target (ts ! i) = guest_target r \<and> n \<in> set (st_sites (ts ! i)))) \<and>
     (\<forall>k k' n. N k = Some n \<longrightarrow> N k' = Some n \<longrightarrow> k = k') \<and>
     (\<forall>i n. i < length ts \<longrightarrow> n \<in> set (st_sites (ts ! i)) \<longrightarrow>
        (\<exists>k r. N k = Some n \<and> S k = Some r \<and> guest_target r = st_guest_target (ts ! i))) \<and>
     (\<forall>i < length ts. distinct (st_sites (ts ! i)))"

definition targets_ok :: "(u64 \<rightharpoonup> TargetRecord) \<Rightarrow> SignalTarget list \<Rightarrow> u64 \<Rightarrow> bool" where
  "targets_ok T ts nxt \<longleftrightarrow>
     0 < nxt \<and>
     (\<forall>t tr. T t = Some tr \<longrightarrow> 0 < tr_generation tr \<and> tr_generation tr < nxt \<and>
        (\<exists>i. tr_signal_target tr = Some i \<and> i < length ts \<and> st_guest_target (ts ! i) = t)) \<and>
     (\<forall>i < length ts. active_generation (ts ! i) = 0 \<or> active_generation (ts ! i) = kSignalInvalidatingGeneration \<or>
        (\<exists>tr. T (st_guest_target (ts ! i)) = Some tr \<and> tr_active tr \<and> tr_generation tr = active_generation (ts ! i)))"

definition lm_ok :: "LinkManager \<Rightarrow> bool" where
  "lm_ok lm \<longleftrightarrow>
     distinct (map fst (sites lm)) \<and> distinct (map fst (targets lm)) \<and>
     idx_ok (map_of (sites lm)) (map_of (incoming lm)) (map_of (outgoing lm)) \<and>
     sig_ok (signal_buckets lm) (signal_targets_storage lm) \<and>
     nodes_ok {} (map_of (sites lm)) (map_of (signal_sites lm)) (signal_sites_storage lm) (signal_targets_storage lm) \<and>
     targets_ok (map_of (targets lm)) (signal_targets_storage lm) (next_target_generation lm) \<and>
     (\<forall>k r. map_of (sites lm) k = Some r \<longrightarrow> target_generation r < next_target_generation lm) \<and>
     signal_readers lm = 0"

lemma lm_ok_new: "lm_ok LinkManager_new"
  by (simp add: lm_ok_def LinkManager_new_def idx_ok_def in_ok_def out_ok_def sig_ok_def nodes_ok_def targets_ok_def)

subsection \<open>Small updates\<close>

lemma upd_target_simps [simp]:
  "sites (upd_target i f lm) = sites lm" "incoming (upd_target i f lm) = incoming lm"
  "outgoing (upd_target i f lm) = outgoing lm" "targets (upd_target i f lm) = targets lm"
  "signal_sites (upd_target i f lm) = signal_sites lm"
  "signal_sites_storage (upd_target i f lm) = signal_sites_storage lm"
  "signal_buckets (upd_target i f lm) = signal_buckets lm"
  "signal_readers (upd_target i f lm) = signal_readers lm"
  "next_target_generation (upd_target i f lm) = next_target_generation lm"
  "signal_targets_storage (upd_target i f lm) =
     (signal_targets_storage lm)[i := f (signal_targets_storage lm ! i)]"
  by (simp_all add: upd_target_def)

lemma upd_site_simps [simp]:
  "sites (upd_site n f lm) = sites lm" "incoming (upd_site n f lm) = incoming lm"
  "outgoing (upd_site n f lm) = outgoing lm" "targets (upd_site n f lm) = targets lm"
  "signal_sites (upd_site n f lm) = signal_sites lm"
  "signal_targets_storage (upd_site n f lm) = signal_targets_storage lm"
  "signal_buckets (upd_site n f lm) = signal_buckets lm"
  "signal_readers (upd_site n f lm) = signal_readers lm"
  "next_target_generation (upd_site n f lm) = next_target_generation lm"
  "signal_sites_storage (upd_site n f lm) = (signal_sites_storage lm)[n := f (signal_sites_storage lm ! n)]"
  by (simp_all add: upd_site_def)

text \<open>Updates that leave patches, tombstones and the number of nodes as they are.\<close>

definition same_nodes :: "SignalSite list \<Rightarrow> SignalSite list \<Rightarrow> bool" where
  "same_nodes ns ns' \<longleftrightarrow> map patch ns' = map patch ns \<and> map ss_live ns' = map ss_live ns"

lemma same_nodesD:
  assumes "same_nodes ns ns'"
  shows "length ns' = length ns" "n < length ns \<Longrightarrow> patch (ns' ! n) = patch (ns ! n) \<and> ss_live (ns' ! n) = ss_live (ns ! n)"
proof -
  show l: "length ns' = length ns" using assms by (metis length_map same_nodes_def)
  show "n < length ns \<Longrightarrow> patch (ns' ! n) = patch (ns ! n) \<and> ss_live (ns' ! n) = ss_live (ns ! n)"
    using assms l unfolding same_nodes_def by (metis nth_map)
qed

lemma same_nodes_refl [simp]: "same_nodes ns ns"
  by (simp add: same_nodes_def)

lemma same_nodes_trans: "same_nodes a b \<Longrightarrow> same_nodes b c \<Longrightarrow> same_nodes a c"
  by (simp add: same_nodes_def)

lemma same_nodes_update [simp]:
  "same_nodes ns (ns[n := (ns ! n)\<lparr>ss_linked := b\<rparr>])"
  by (cases "n < length ns") (simp_all add: same_nodes_def map_update list_update_same_conv list_update_beyond)

lemma set_signal_linked_simps [simp]:
  "sites (set_signal_linked k b lm) = sites lm" "incoming (set_signal_linked k b lm) = incoming lm"
  "outgoing (set_signal_linked k b lm) = outgoing lm" "targets (set_signal_linked k b lm) = targets lm"
  "signal_sites (set_signal_linked k b lm) = signal_sites lm"
  "signal_targets_storage (set_signal_linked k b lm) = signal_targets_storage lm"
  "signal_buckets (set_signal_linked k b lm) = signal_buckets lm"
  "signal_readers (set_signal_linked k b lm) = signal_readers lm"
  "next_target_generation (set_signal_linked k b lm) = next_target_generation lm"
  "same_nodes (signal_sites_storage lm) (signal_sites_storage (set_signal_linked k b lm))"
  by (simp_all add: set_signal_linked_def split: option.split)

text \<open>Changes of site records that keep the fields the indexes depend on.\<close>

definition index_fields :: "LinkSiteRecord \<Rightarrow> _" where
  "index_fields r = (site r, guest_target r, source_owner r, edge_flags r, site_kind r, flags_bypass_offset r,
     site_state r = Retiring)"

definition same_sites :: "(LinkSiteKey \<rightharpoonup> LinkSiteRecord) \<Rightarrow> (LinkSiteKey \<rightharpoonup> LinkSiteRecord) \<Rightarrow> bool" where
  "same_sites S S' \<longleftrightarrow> (\<forall>k. map_option index_fields (S' k) = map_option index_fields (S k))"

lemma same_sites_refl [simp]: "same_sites S S"
  by (simp add: same_sites_def)

lemma same_sites_sym: "same_sites A B \<Longrightarrow> same_sites B A"
  by (simp add: same_sites_def)

lemma same_sites_trans: "same_sites A B \<Longrightarrow> same_sites B C \<Longrightarrow> same_sites A C"
  by (simp add: same_sites_def)

lemma same_sites_update: "S k = Some r \<Longrightarrow> index_fields r' = index_fields r \<Longrightarrow> same_sites S (S(k \<mapsto> r'))"
  by (simp add: same_sites_def)

lemma same_sitesD:
  assumes "same_sites S S'" "S k = Some r"
  obtains r' where "S' k = Some r'" "site r' = site r" "guest_target r' = guest_target r" "source_owner r' = source_owner r"
    "edge_flags r' = edge_flags r" "site_kind r' = site_kind r" "flags_bypass_offset r' = flags_bypass_offset r"
    "site_state r' = Retiring \<longleftrightarrow> site_state r = Retiring"
proof -
  have "map_option index_fields (S' k) = Some (index_fields r)" using assms by (simp add: same_sites_def)
  then obtain r' where "S' k = Some r'" "index_fields r' = index_fields r" by auto
  then show ?thesis by (intro that [of r']) (auto simp: index_fields_def)
qed

lemma idx_okD:
  assumes "idx_ok S I Q"
  shows "S k = Some r \<Longrightarrow> site r = k"
    and "S k = Some r \<Longrightarrow> \<exists>ks. I (guest_target r) = Some ks \<and> k \<in> set ks"
    and "S k = Some r \<Longrightarrow> \<exists>out. Q (source_owner r) = Some out \<and> k \<in> set (out_sites out) \<and> out_retiring out = (site_state r = Retiring)"
    and "I t = Some ks \<Longrightarrow> ks \<noteq> [] \<and> distinct ks"
    and "I t = Some ks \<Longrightarrow> k \<in> set ks \<Longrightarrow> \<exists>r. S k = Some r \<and> guest_target r = t"
    and "Q w = Some out \<Longrightarrow> distinct (out_sites out)"
    and "Q w = Some out \<Longrightarrow> k \<in> set (out_sites out) \<Longrightarrow> \<exists>r. S k = Some r \<and> source_owner r = w"
  using assms unfolding idx_ok_def in_ok_def out_ok_def by blast+

lemma idx_okI:
  assumes "\<And>k r. S k = Some r \<Longrightarrow> site r = k"
    "\<And>k r. S k = Some r \<Longrightarrow> \<exists>ks. I (guest_target r) = Some ks \<and> k \<in> set ks"
    "\<And>k r. S k = Some r \<Longrightarrow> \<exists>out. Q (source_owner r) = Some out \<and> k \<in> set (out_sites out) \<and> out_retiring out = (site_state r = Retiring)"
    "\<And>t ks. I t = Some ks \<Longrightarrow> ks \<noteq> [] \<and> distinct ks"
    "\<And>t ks k. I t = Some ks \<Longrightarrow> k \<in> set ks \<Longrightarrow> \<exists>r. S k = Some r \<and> guest_target r = t"
    "\<And>w out. Q w = Some out \<Longrightarrow> distinct (out_sites out)"
    "\<And>w out k. Q w = Some out \<Longrightarrow> k \<in> set (out_sites out) \<Longrightarrow> \<exists>r. S k = Some r \<and> source_owner r = w"
  shows "idx_ok S I Q"
  unfolding idx_ok_def in_ok_def out_ok_def using assms by blast

lemma idx_ok_same:
  assumes s: "same_sites S S'" and i: "idx_ok S I Q"
  shows "idx_ok S' I Q"
proof (rule idx_okI)
  fix k r assume "S' k = Some r"
  then obtain r0 where r0: "S k = Some r0" "site r0 = site r" "guest_target r0 = guest_target r" "source_owner r0 = source_owner r"
    "site_state r0 = Retiring \<longleftrightarrow> site_state r = Retiring" by (rule same_sitesD [OF same_sites_sym [OF s]])
  show "site r = k" using idx_okD(1) [OF i r0(1)] r0 by simp
  show "\<exists>ks. I (guest_target r) = Some ks \<and> k \<in> set ks" using idx_okD(2) [OF i r0(1)] r0 by simp
  show "\<exists>out. Q (source_owner r) = Some out \<and> k \<in> set (out_sites out) \<and> out_retiring out = (site_state r = Retiring)"
    using idx_okD(3) [OF i r0(1)] r0 by simp
next
  fix t ks k assume "I t = Some ks" "k \<in> set ks"
  then obtain r where "S k = Some r" "guest_target r = t" using idx_okD(5) [OF i] by blast
  then show "\<exists>r. S' k = Some r \<and> guest_target r = t" using same_sitesD [OF s] by metis
next
  fix w out k assume "Q w = Some out" "k \<in> set (out_sites out)"
  then obtain r where "S k = Some r" "source_owner r = w" using idx_okD(7) [OF i] by blast
  then show "\<exists>r. S' k = Some r \<and> source_owner r = w" using same_sitesD [OF s] by metis
qed (use idx_okD(4,6) [OF i] in blast)+

lemma nodes_okD:
  assumes "nodes_ok D S N ns ts"
  shows "N k = Some n \<Longrightarrow> n < length ns" "N k = Some n \<Longrightarrow> k \<notin> D \<Longrightarrow> ss_live (ns ! n)" "N k = Some n \<Longrightarrow> patch_valid k (patch (ns ! n))"
    and "N k = Some n \<Longrightarrow> \<exists>r i. S k = Some r \<and> i < length ts \<and> st_guest_target (ts ! i) = guest_target r \<and> n \<in> set (st_sites (ts ! i))"
    and "N k = Some n \<Longrightarrow> N k' = Some n \<Longrightarrow> k = k'"
    and "i < length ts \<Longrightarrow> n \<in> set (st_sites (ts ! i)) \<Longrightarrow> \<exists>k r. N k = Some n \<and> S k = Some r \<and> guest_target r = st_guest_target (ts ! i)"
    and "i < length ts \<Longrightarrow> distinct (st_sites (ts ! i))"
  using assms unfolding nodes_ok_def by blast+

lemma nodes_okI:
  assumes "\<And>k n. N k = Some n \<Longrightarrow> n < length ns \<and> (k \<notin> D \<longrightarrow> ss_live (ns ! n)) \<and> patch_valid k (patch (ns ! n))"
    "\<And>k n. N k = Some n \<Longrightarrow> \<exists>r i. S k = Some r \<and> i < length ts \<and> st_guest_target (ts ! i) = guest_target r \<and> n \<in> set (st_sites (ts ! i))"
    "\<And>k k' n. N k = Some n \<Longrightarrow> N k' = Some n \<Longrightarrow> k = k'"
    "\<And>i n. i < length ts \<Longrightarrow> n \<in> set (st_sites (ts ! i)) \<Longrightarrow> \<exists>k r. N k = Some n \<and> S k = Some r \<and> guest_target r = st_guest_target (ts ! i)"
    "\<And>i. i < length ts \<Longrightarrow> distinct (st_sites (ts ! i))"
  shows "nodes_ok D S N ns ts"
  unfolding nodes_ok_def using assms by blast

lemma nodes_ok_same:
  assumes s: "same_nodes ns ns'" and i: "nodes_ok D S N ns ts"
  shows "nodes_ok D S N ns' ts"
proof (rule nodes_okI)
  fix k n assume n: "N k = Some n"
  note d = nodes_okD(1,2,3) [OF i n]
  show "n < length ns' \<and> (k \<notin> D \<longrightarrow> ss_live (ns' ! n)) \<and> patch_valid k (patch (ns' ! n))"
    using d same_nodesD(2) [OF s d(1)] by (simp add: same_nodesD(1) [OF s])
qed (fact nodes_okD(4,5,6,7) [OF i])+

lemma nodes_ok_same_sites:
  assumes s: "same_sites S S'" and i: "nodes_ok D S N ns ts"
  shows "nodes_ok D S' N ns ts"
proof (rule nodes_okI)
  fix k n assume n: "N k = Some n"
  show "n < length ns \<and> (k \<notin> D \<longrightarrow> ss_live (ns ! n)) \<and> patch_valid k (patch (ns ! n))" using nodes_okD(1,2,3) [OF i n] by simp
  obtain r j where "S k = Some r" "j < length ts" "st_guest_target (ts ! j) = guest_target r" "n \<in> set (st_sites (ts ! j))"
    using nodes_okD(4) [OF i n] by blast
  then show "\<exists>r i. S' k = Some r \<and> i < length ts \<and> st_guest_target (ts ! i) = guest_target r \<and> n \<in> set (st_sites (ts ! i))"
    using same_sitesD [OF s] by metis
next
  fix j n assume "j < length ts" "n \<in> set (st_sites (ts ! j))"
  then obtain k r where "N k = Some n" "S k = Some r" "guest_target r = st_guest_target (ts ! j)" using nodes_okD(6) [OF i] by blast
  then show "\<exists>k r. N k = Some n \<and> S' k = Some r \<and> guest_target r = st_guest_target (ts ! j)"
    using same_sitesD [OF s] by metis
qed (fact nodes_okD(5,7) [OF i])+

subsection \<open>Signal targets\<close>

lemma find_SomeD: "find P xs = Some x \<Longrightarrow> x \<in> set xs \<and> P x"
  by (auto simp: find_Some_iff)

lemma sig_okD:
  assumes "sig_ok B ts"
  shows "i \<in> set (B b) \<Longrightarrow> i < length ts \<and> signal_bucket (st_guest_target (ts ! i)) = b"
    and "i < length ts \<Longrightarrow> i \<in> set (B (signal_bucket (st_guest_target (ts ! i))))"
    and "i < length ts \<Longrightarrow> j < length ts \<Longrightarrow> st_guest_target (ts ! i) = st_guest_target (ts ! j) \<Longrightarrow> i = j"
proof -
  show "i < length ts \<Longrightarrow> j < length ts \<Longrightarrow> st_guest_target (ts ! i) = st_guest_target (ts ! j) \<Longrightarrow> i = j"
    using assms nth_eq_iff_index_eq [of "map st_guest_target ts" i j] by (simp add: sig_ok_def)
qed (use assms in \<open>auto simp: sig_ok_def\<close>)

lemma sig_ok_guests: "map st_guest_target ts' = map st_guest_target ts \<Longrightarrow> sig_ok B ts' = sig_ok B ts"
proof -
  assume m: "map st_guest_target ts' = map st_guest_target ts"
  then have l: "length ts' = length ts" by (rule map_eq_imp_length_eq)
  have "i < length ts \<Longrightarrow> st_guest_target (ts' ! i) = st_guest_target (ts ! i)" for i
    using arg_cong [OF m, of "\<lambda>xs. xs ! i"] l by simp
  then show ?thesis by (simp add: sig_ok_def m l cong: conj_cong)
qed

lemma Find_iff:
  assumes "sig_ok (signal_buckets lm) (signal_targets_storage lm)"
  shows "FindSignalTarget lm t = Some i \<longleftrightarrow>
    i < length (signal_targets_storage lm) \<and> st_guest_target (signal_targets_storage lm ! i) = t"
proof -
  let ?ts = "signal_targets_storage lm"
  have f: "j < length ?ts \<and> st_guest_target (?ts ! j) = t" if "FindSignalTarget lm t = Some j" for j
    using find_SomeD [OF that [unfolded FindSignalTarget_def]] sig_okD(1) [OF assms] by blast
  show ?thesis
  proof
    assume i: "i < length ?ts \<and> st_guest_target (?ts ! i) = t"
    then have "i \<in> set (signal_buckets lm (signal_bucket t))" using sig_okD(2) [OF assms, of i] by simp
    then obtain j where j: "FindSignalTarget lm t = Some j"
      using i by (cases "FindSignalTarget lm t") (auto simp: FindSignalTarget_def find_None_iff)
    then show "FindSignalTarget lm t = Some i" using sig_okD(3) [OF assms, of j i] f [OF j] i by simp
  qed (rule f)
qed

lemma Find_None:
  assumes "sig_ok (signal_buckets lm) (signal_targets_storage lm)" "FindSignalTarget lm t = None"
    "i < length (signal_targets_storage lm)"
  shows "st_guest_target (signal_targets_storage lm ! i) \<noteq> t"
  using Find_iff [OF assms(1), of t i] assms(2,3) by auto

text \<open>What creating a signal target leaves unchanged.\<close>

definition more_targets :: "SignalTarget list \<Rightarrow> SignalTarget list \<Rightarrow> bool" where
  "more_targets ts ts' \<longleftrightarrow> ts' = ts \<or> (\<exists>t. ts' = ts @ [\<lparr>st_guest_target = t, active_generation = 0, st_sites = []\<rparr>])"

lemma sig_ok_add:
  assumes o: "sig_ok B ts" and t: "st_guest_target st \<notin> st_guest_target ` set ts"
  shows "sig_ok (B(signal_bucket (st_guest_target st) := length ts # B (signal_bucket (st_guest_target st)))) (ts @ [st])"
proof -
  let ?b = "signal_bucket (st_guest_target st)"
  have "i \<in> set ((B(?b := length ts # B ?b)) (signal_bucket (st_guest_target ((ts @ [st]) ! i))))" if "i < length (ts @ [st])" for i
  proof (cases "i = length ts")
    case False
    then have "i < length ts" using that by simp
    then show ?thesis using sig_okD(2) [OF o, of i] by (auto simp: nth_append)
  qed (simp add: nth_append)
  moreover have "i < length (ts @ [st]) \<and> signal_bucket (st_guest_target ((ts @ [st]) ! i)) = b"
    if "i \<in> set ((B(?b := length ts # B ?b)) b)" for i b
  proof (cases "i \<in> set (B b)")
    case True
    then show ?thesis using sig_okD(1) [OF o True] by (simp add: nth_append)
  qed (use that in \<open>auto split: if_splits\<close>)
  ultimately show ?thesis using o t by (auto simp: sig_ok_def)
qed

lemma GetOrCreate:
  assumes "GetOrCreateSignalTargetLocked lm t = (i, lm')" "sig_ok (signal_buckets lm) (signal_targets_storage lm)"
  shows "i < length (signal_targets_storage lm')" "st_guest_target (signal_targets_storage lm' ! i) = t"
    "sig_ok (signal_buckets lm') (signal_targets_storage lm')"
    "more_targets (signal_targets_storage lm) (signal_targets_storage lm')"
    "sites lm' = sites lm" "incoming lm' = incoming lm" "outgoing lm' = outgoing lm" "targets lm' = targets lm"
    "signal_sites lm' = signal_sites lm" "signal_sites_storage lm' = signal_sites_storage lm"
    "signal_readers lm' = signal_readers lm" "next_target_generation lm' = next_target_generation lm"
proof -
  have "i < length (signal_targets_storage lm') \<and> st_guest_target (signal_targets_storage lm' ! i) = t \<and>
    sig_ok (signal_buckets lm') (signal_targets_storage lm') \<and>
    more_targets (signal_targets_storage lm) (signal_targets_storage lm')"
  proof (cases "FindSignalTarget lm t")
    case None
    have "t \<notin> st_guest_target ` set (signal_targets_storage lm)"
      using Find_None [OF assms(2) None] by (metis imageE in_set_conv_nth)
    then show ?thesis using assms None sig_ok_add [OF assms(2), of "\<lparr>st_guest_target = t, active_generation = 0, st_sites = []\<rparr>"]
      by (auto simp: GetOrCreateSignalTargetLocked_def Let_def more_targets_def nth_append)
  next
    case (Some j)
    then show ?thesis using assms Find_iff [OF assms(2), of t j]
      by (auto simp: GetOrCreateSignalTargetLocked_def more_targets_def)
  qed
  then show "i < length (signal_targets_storage lm')" "st_guest_target (signal_targets_storage lm' ! i) = t"
    "sig_ok (signal_buckets lm') (signal_targets_storage lm')"
    "more_targets (signal_targets_storage lm) (signal_targets_storage lm')" by blast+
qed (use assms in \<open>auto simp: GetOrCreateSignalTargetLocked_def Let_def split: option.splits\<close>)


lemma more_targets_nth:
  assumes "more_targets ts ts'"
  shows "length ts \<le> length ts'" "i < length ts \<Longrightarrow> ts' ! i = ts ! i"
    and "i < length ts' \<Longrightarrow> \<not> i < length ts \<Longrightarrow> active_generation (ts' ! i) = 0 \<and> st_sites (ts' ! i) = []"
  using assms by (auto simp: more_targets_def nth_append less_Suc_eq split: if_splits)

lemma nodes_ok_more_targets:
  assumes m: "more_targets ts ts'" and i: "nodes_ok D S N ns ts"
  shows "nodes_ok D S N ns ts'"
proof (rule nodes_okI)
  fix k n assume n: "N k = Some n"
  show "n < length ns \<and> (k \<notin> D \<longrightarrow> ss_live (ns ! n)) \<and> patch_valid k (patch (ns ! n))" using nodes_okD(1,2,3) [OF i n] by simp
  show "\<exists>r i. S k = Some r \<and> i < length ts' \<and> st_guest_target (ts' ! i) = guest_target r \<and> n \<in> set (st_sites (ts' ! i))"
    using nodes_okD(4) [OF i n] more_targets_nth(1,2) [OF m] by (metis less_le_trans)
next
  fix j n assume "j < length ts'" "n \<in> set (st_sites (ts' ! j))"
  then show "\<exists>k r. N k = Some n \<and> S k = Some r \<and> guest_target r = st_guest_target (ts' ! j)"
    using more_targets_nth(2,3) [OF m, of j] nodes_okD(6) [OF i, of j n] by (cases "j < length ts") auto
next
  fix j assume "j < length ts'"
  then show "distinct (st_sites (ts' ! j))"
    using more_targets_nth(2,3) [OF m, of j] nodes_okD(7) [OF i, of j] by (cases "j < length ts") auto
qed (fact nodes_okD(5) [OF i])

lemma targets_okD:
  assumes "targets_ok T ts nxt"
  shows "0 < nxt" "T t = Some tr \<Longrightarrow> 0 < tr_generation tr \<and> tr_generation tr < nxt"
    and "T t = Some tr \<Longrightarrow> \<exists>i. tr_signal_target tr = Some i \<and> i < length ts \<and> st_guest_target (ts ! i) = t"
    and "i < length ts \<Longrightarrow> active_generation (ts ! i) = 0 \<or> active_generation (ts ! i) = kSignalInvalidatingGeneration \<or>
      (\<exists>tr. T (st_guest_target (ts ! i)) = Some tr \<and> tr_active tr \<and> tr_generation tr = active_generation (ts ! i))"
  using assms unfolding targets_ok_def by blast+

lemma targets_okI:
  assumes "0 < nxt" "\<And>t tr. T t = Some tr \<Longrightarrow> 0 < tr_generation tr \<and> tr_generation tr < nxt"
    and "\<And>t tr. T t = Some tr \<Longrightarrow> \<exists>i. tr_signal_target tr = Some i \<and> i < length ts \<and> st_guest_target (ts ! i) = t"
    and "\<And>i. i < length ts \<Longrightarrow> active_generation (ts ! i) \<noteq> 0 \<Longrightarrow> active_generation (ts ! i) \<noteq> kSignalInvalidatingGeneration \<Longrightarrow>
      \<exists>tr. T (st_guest_target (ts ! i)) = Some tr \<and> tr_active tr \<and> tr_generation tr = active_generation (ts ! i)"
  shows "targets_ok T ts nxt"
  unfolding targets_ok_def using assms by blast

lemma targets_ok_more_targets:
  assumes m: "more_targets ts ts'" and i: "targets_ok T ts nxt"
  shows "targets_ok T ts' nxt"
proof (rule targets_okI)
  fix t tr assume t: "T t = Some tr"
  show "\<exists>i. tr_signal_target tr = Some i \<and> i < length ts' \<and> st_guest_target (ts' ! i) = t"
    using targets_okD(3) [OF i t] more_targets_nth(1,2) [OF m] by (metis less_le_trans)
next
  fix j assume "j < length ts'" "active_generation (ts' ! j) \<noteq> 0" "active_generation (ts' ! j) \<noteq> kSignalInvalidatingGeneration"
  then show "\<exists>tr. T (st_guest_target (ts' ! j)) = Some tr \<and> tr_active tr \<and> tr_generation tr = active_generation (ts' ! j)"
    using more_targets_nth(2,3) [OF m, of j] targets_okD(4) [OF i, of j] by (cases "j < length ts") auto
qed (use targets_okD(1,2) [OF i] in auto)

lemma lm_okD:
  assumes "lm_ok lm"
  shows "distinct (map fst (sites lm))" "distinct (map fst (targets lm))"
    "idx_ok (map_of (sites lm)) (map_of (incoming lm)) (map_of (outgoing lm))"
    "sig_ok (signal_buckets lm) (signal_targets_storage lm)"
    "nodes_ok {} (map_of (sites lm)) (map_of (signal_sites lm)) (signal_sites_storage lm) (signal_targets_storage lm)"
    "targets_ok (map_of (targets lm)) (signal_targets_storage lm) (next_target_generation lm)"
    "map_of (sites lm) k = Some r \<Longrightarrow> target_generation r < next_target_generation lm"
    "signal_readers lm = 0"
  using assms by (auto simp: lm_ok_def)

subsection \<open>Registration\<close>

lemma idx_ok_register:
  assumes i: "idx_ok S I Q" and k: "S k = None" "site r = k" "site_state r = Unlinked"
    and q: "\<And>out. Q (source_owner r) = Some out \<Longrightarrow> \<not> out_retiring out"
  shows "idx_ok (S(k \<mapsto> r)) (I(guest_target r \<mapsto> List.insert k (case I (guest_target r) of None \<Rightarrow> [] | Some ks \<Rightarrow> ks)))
    (Q(source_owner r \<mapsto> (let out = (case Q (source_owner r) of None \<Rightarrow> \<lparr>out_sites = [], out_retiring = False\<rparr> | Some out \<Rightarrow> out)
       in out\<lparr>out_sites := List.insert k (out_sites out)\<rparr>)))"
proof (rule idx_okI, goal_cases)
  case (1 k' r') then show ?case using k idx_okD(1) [OF i] by (auto split: if_splits)
next
  case (2 k' r')
  then show ?case using k idx_okD(2) [OF i, of k' r'] by (auto split: if_splits option.splits)
next
  case (3 k' r')
  then show ?case using k q idx_okD(3) [OF i, of k' r'] by (fastforce simp: Let_def split: if_splits option.splits)
next
  case (4 t ks) then show ?case using idx_okD(4) [OF i] by (auto simp: List.insert_def split: if_splits option.splits)
next
  case (5 t ks k')
  then show ?case using k idx_okD(5) [OF i, of t _ k'] by (fastforce split: if_splits option.splits)
next
  case (6 w out) then show ?case using idx_okD(6) [OF i] by (auto simp: Let_def List.insert_def split: if_splits option.splits)
next
  case (7 w out k')
  then show ?case using k idx_okD(7) [OF i, of w _ k'] by (fastforce simp: Let_def split: if_splits option.splits)
qed

lemma nodes_ok_fresh_site:
  assumes i: "nodes_ok D S N ns ts" and k: "S k = None"
  shows "nodes_ok D (S(k \<mapsto> r)) N ns ts"
proof (rule nodes_okI)
  fix k' n assume n: "N k' = Some n"
  show "n < length ns \<and> (k' \<notin> D \<longrightarrow> ss_live (ns ! n)) \<and> patch_valid k' (patch (ns ! n))" using nodes_okD(1,2,3) [OF i n] by simp
  show "\<exists>r' i. (S(k \<mapsto> r)) k' = Some r' \<and> i < length ts \<and> st_guest_target (ts ! i) = guest_target r' \<and> n \<in> set (st_sites (ts ! i))"
    using nodes_okD(4) [OF i n] k by auto
next
  fix j n assume "j < length ts" "n \<in> set (st_sites (ts ! j))"
  then show "\<exists>k' r'. N k' = Some n \<and> (S(k \<mapsto> r)) k' = Some r' \<and> guest_target r' = st_guest_target (ts ! j)"
    using nodes_okD(6) [OF i, of j n] k by (metis fun_upd_other option.distinct(1))
qed (fact nodes_okD(5,7) [OF i])+

lemma nodes_ok_add:
  assumes i: "nodes_ok D S N ns ts" and k: "S k = Some r" "N k = None" "patch_valid k p"
    and j: "j < length ts" "st_guest_target (ts ! j) = guest_target r"
  shows "nodes_ok D S (N(k \<mapsto> length ns)) (ns @ [\<lparr>patch = p, ss_linked = b, ss_live = True\<rparr>])
    (ts[j := (ts ! j)\<lparr>st_sites := length ns # st_sites (ts ! j)\<rparr>])"
proof (rule nodes_okI)
  let ?ns = "ns @ [\<lparr>patch = p, ss_linked = b, ss_live = True\<rparr>]"
  let ?ts = "ts[j := (ts ! j)\<lparr>st_sites := length ns # st_sites (ts ! j)\<rparr>]"
  fix k' n assume n: "(N(k \<mapsto> length ns)) k' = Some n"
  show "n < length ?ns \<and> (k' \<notin> D \<longrightarrow> ss_live (?ns ! n)) \<and> patch_valid k' (patch (?ns ! n))"
    using n k nodes_okD(1,2,3) [OF i, of k' n] by (cases "k' = k") (auto simp: nth_append)
  show "\<exists>r i. S k' = Some r \<and> i < length ?ts \<and> st_guest_target (?ts ! i) = guest_target r \<and> n \<in> set (st_sites (?ts ! i))"
  proof (cases "k' = k")
    case True
    then show ?thesis using n k j by (intro exI [of _ r] exI [of _ j]) auto
  next
    case False
    then obtain r' i' where "S k' = Some r'" "i' < length ts" "st_guest_target (ts ! i') = guest_target r'" "n \<in> set (st_sites (ts ! i'))"
      using n nodes_okD(4) [OF i, of k' n] by auto
    then show ?thesis by (intro exI [of _ r'] exI [of _ i']) (cases "i' = j"; simp)
  qed
next
  fix k1 k2 n assume "(N(k \<mapsto> length ns)) k1 = Some n" "(N(k \<mapsto> length ns)) k2 = Some n"
  then show "k1 = k2" using nodes_okD(1) [OF i, of _ n] nodes_okD(5) [OF i, of k1 n k2] by (auto split: if_splits)
next
  let ?ts = "ts[j := (ts ! j)\<lparr>st_sites := length ns # st_sites (ts ! j)\<rparr>]"
  fix j' assume j': "j' < length ?ts"
  show "distinct (st_sites (?ts ! j'))"
  proof (cases "j' = j")
    case True
    have "length ns \<notin> set (st_sites (ts ! j))" using nodes_okD(1,6) [OF i] j(1) by blast
    then show ?thesis using True j nodes_okD(7) [OF i j(1)] by simp
  qed (use j' nodes_okD(7) [OF i, of j'] in simp)
  fix n assume n: "n \<in> set (st_sites (?ts ! j'))"
  show "\<exists>k' r. (N(k \<mapsto> length ns)) k' = Some n \<and> S k' = Some r \<and> guest_target r = st_guest_target (?ts ! j')"
  proof (cases "n \<in> set (st_sites (ts ! j'))")
    case True
    then obtain k' r' where "N k' = Some n" "S k' = Some r'" "guest_target r' = st_guest_target (ts ! j')"
      using nodes_okD(6) [OF i, of j' n] j' by auto
    then show ?thesis using k j' by (intro exI [of _ k'] exI [of _ r']) (cases "j' = j"; auto)
  next
    case False
    then have "j' = j" "n = length ns" using n j' by (cases "j' = j"; simp)+
    then show ?thesis using k j by (intro exI [of _ k] exI [of _ r]) auto
  qed
qed

lemma publish_signal_site:
  assumes "sig_ok (signal_buckets lm) (signal_targets_storage lm)"
    "nodes_ok {} (map_of (sites lm)) (map_of (signal_sites lm)) (signal_sites_storage lm) (signal_targets_storage lm)"
    "targets_ok (map_of (targets lm)) (signal_targets_storage lm) (next_target_generation lm)"
    and k: "map_of (sites lm) k = Some r" "guest_target r = t" "map_of (signal_sites lm) k = None" "patch_valid k p"
  defines "lm' \<equiv> publish_signal_site k t p lm"
  shows "sig_ok (signal_buckets lm') (signal_targets_storage lm')"
    "nodes_ok {} (map_of (sites lm')) (map_of (signal_sites lm')) (signal_sites_storage lm') (signal_targets_storage lm')"
    "targets_ok (map_of (targets lm')) (signal_targets_storage lm') (next_target_generation lm')"
    "sites lm' = sites lm" "incoming lm' = incoming lm" "outgoing lm' = outgoing lm" "targets lm' = targets lm"
    "signal_readers lm' = signal_readers lm" "next_target_generation lm' = next_target_generation lm"
    "signal_sites lm' = AList.update k (length (signal_sites_storage lm)) (signal_sites lm)"
    "signal_sites_storage lm' = signal_sites_storage lm @ [\<lparr>patch = p, ss_linked = False, ss_live = True\<rparr>]"
proof -
  obtain i lm1 where g: "GetOrCreateSignalTargetLocked lm t = (i, lm1)" by fastforce
  note c = GetOrCreate [OF g assms(1)]
  show "sites lm' = sites lm" "incoming lm' = incoming lm" "outgoing lm' = outgoing lm" "targets lm' = targets lm"
    "signal_readers lm' = signal_readers lm" "next_target_generation lm' = next_target_generation lm"
    "signal_sites lm' = AList.update k (length (signal_sites_storage lm)) (signal_sites lm)"
    "signal_sites_storage lm' = signal_sites_storage lm @ [\<lparr>patch = p, ss_linked = False, ss_live = True\<rparr>]"
    using c by (simp_all add: lm'_def publish_signal_site_def g Let_def)
  have ts: "signal_targets_storage lm' = (signal_targets_storage lm1)[i := (signal_targets_storage lm1 ! i)
      \<lparr>st_sites := length (signal_sites_storage lm) # st_sites (signal_targets_storage lm1 ! i)\<rparr>]"
    and b: "signal_buckets lm' = signal_buckets lm1"
    using c by (simp_all add: lm'_def publish_signal_site_def g Let_def)
  have guests: "map st_guest_target (signal_targets_storage lm') = map st_guest_target (signal_targets_storage lm1)"
    using c(1) by (simp add: ts map_update list_update_same_conv)
  show "sig_ok (signal_buckets lm') (signal_targets_storage lm')"
    using c(3) unfolding b sig_ok_guests [OF guests] .
  show "nodes_ok {} (map_of (sites lm')) (map_of (signal_sites lm')) (signal_sites_storage lm') (signal_targets_storage lm')"
    using nodes_ok_add [OF nodes_ok_more_targets [OF c(4) assms(2)] k(1,3,4) c(1)] c k(2)
    by (simp add: ts lm'_def publish_signal_site_def g Let_def AList.update_conv')
  show "targets_ok (map_of (targets lm')) (signal_targets_storage lm') (next_target_generation lm')"
    using targets_ok_more_targets [OF c(4) assms(3)] c
    by (auto simp: ts lm'_def publish_signal_site_def g Let_def targets_ok_def nth_list_update)
qed

lemma RegisterSite_ok:
  assumes ok: "lm_ok lm"
  shows "lm_ok (fst (RegisterSite k t owner sp knd ef lm))"
proof (cases "register_accepts k owner sp knd ef lm")
  case a: True
  let ?r = "new_site_record k t owner sp knd ef"
  define inc where "inc = List.insert k (case map_of (incoming lm) t of None \<Rightarrow> [] | Some ks \<Rightarrow> ks)"
  define out where "out = (case map_of (outgoing lm) owner of None \<Rightarrow> \<lparr>out_sites = [], out_retiring = False\<rparr> | Some out \<Rightarrow> out)"
  define lm1 where "lm1 = lm\<lparr>sites := AList.update k ?r (sites lm), incoming := AList.update t inc (incoming lm),
    outgoing := AList.update owner (out\<lparr>out_sites := List.insert k (out_sites out)\<rparr>) (outgoing lm)\<rparr>"
  have r: "site ?r = k" "guest_target ?r = t" "source_owner ?r = owner" "site_state ?r = Unlinked" "target_generation ?r = 0"
    by (simp_all add: new_site_record_def)
  have k: "map_of (sites lm) k = None" and q: "\<And>out. map_of (outgoing lm) owner = Some out \<Longrightarrow> \<not> out_retiring out"
    using a by (auto simp: register_accepts_def)
  have i: "idx_ok (map_of (sites lm1)) (map_of (incoming lm1)) (map_of (outgoing lm1))"
    using idx_ok_register [OF lm_okD(3) [OF ok] k r(1,4)] q
    by (simp add: lm1_def inc_def out_def AList.update_conv' Let_def r)
  have n: "nodes_ok {} (map_of (sites lm1)) (map_of (signal_sites lm1)) (signal_sites_storage lm1) (signal_targets_storage lm1)"
    using nodes_ok_fresh_site [OF lm_okD(5) [OF ok] k] by (simp add: lm1_def AList.update_conv')
  have ns: "map_of (signal_sites lm1) k = None"
    using nodes_okD(4) [OF lm_okD(5) [OF ok], of k] k by (cases "map_of (signal_sites lm) k") (auto simp: lm1_def)
  define lm2 where "lm2 = (case sp of None \<Rightarrow> lm1 | Some p \<Rightarrow> publish_signal_site k t p lm1)"
  have g: "0 < next_target_generation lm" using targets_okD(1) [OF lm_okD(6) [OF ok]] .
  have "lm_ok lm2"
  proof (cases sp)
    case None
    then show ?thesis using ok i n g r
      by (auto simp: lm2_def lm_ok_def lm1_def AList.update_conv' AList.distinct_update)
  next
    case (Some p)
    then have p: "patch_valid k p" using a by (simp add: register_accepts_def)
    have "sig_ok (signal_buckets lm1) (signal_targets_storage lm1)"
      "targets_ok (map_of (targets lm1)) (signal_targets_storage lm1) (next_target_generation lm1)"
      "map_of (sites lm1) k = Some ?r"
      using lm_okD(4,6) [OF ok] by (simp_all add: lm1_def AList.update_conv')
    note ps = publish_signal_site [OF this(1) n this(2,3) r(2) ns p]
    have "lm2 = publish_signal_site k t p lm1" by (simp add: lm2_def Some)
    then show ?thesis using ps i lm_okD(1,2,7,8) [OF ok] g r
      by (auto simp: lm_ok_def lm1_def AList.update_conv' AList.distinct_update split: if_splits)
  qed
  moreover have "RegisterSite k t owner sp knd ef lm = (lm2\<lparr>sites_registered := sites_registered lm2 + 1,
      max_in_degree := max (max_in_degree lm2) (length inc)\<rparr>, True)"
    unfolding RegisterSite_def lm2_def lm1_def inc_def out_def Let_def using a by simp
  ultimately show ?thesis by (simp add: lm_ok_def)
qed (simp add: RegisterSite_def ok)

subsection \<open>Publication\<close>

lemma less_add_one64: "(x::u64) \<noteq> - 1 \<Longrightarrow> y \<le> x \<Longrightarrow> y < x + 1"
proof -
  assume x: "x \<noteq> - 1" "y \<le> x"
  then have "1 + x \<noteq> 0" by (metis add.inverse_unique)
  then have "unat (x + 1) = Suc (unat x)" using unatSuc [of x] by (simp add: add.commute)
  then show ?thesis using x(2) by (simp add: word_less_nat_alt word_le_nat_alt)
qed

definition same_lists :: "SignalTarget list \<Rightarrow> SignalTarget list \<Rightarrow> bool" where
  "same_lists ts ts' \<longleftrightarrow> map st_guest_target ts' = map st_guest_target ts \<and> map st_sites ts' = map st_sites ts"

lemma same_listsD:
  assumes "same_lists ts ts'"
  shows "length ts' = length ts" "i < length ts \<Longrightarrow> st_guest_target (ts' ! i) = st_guest_target (ts ! i)"
    "i < length ts \<Longrightarrow> st_sites (ts' ! i) = st_sites (ts ! i)"
proof -
  show l: "length ts' = length ts" using assms map_eq_imp_length_eq unfolding same_lists_def by blast
  show "i < length ts \<Longrightarrow> st_guest_target (ts' ! i) = st_guest_target (ts ! i)" "i < length ts \<Longrightarrow> st_sites (ts' ! i) = st_sites (ts ! i)"
    using assms l arg_cong [of _ _ "\<lambda>xs. xs ! i"] unfolding same_lists_def by (metis nth_map)+
qed

lemma same_lists_active [simp]: "same_lists ts (ts[i := (ts ! i)\<lparr>active_generation := g\<rparr>])"
  by (cases "i < length ts") (simp_all add: same_lists_def map_update list_update_same_conv list_update_beyond)

lemma same_lists_refl [simp]: "same_lists ts ts"
  by (simp add: same_lists_def)

lemma same_lists_trans: "same_lists a b \<Longrightarrow> same_lists b c \<Longrightarrow> same_lists a c"
  by (simp add: same_lists_def)

lemma nodes_ok_same_lists:
  assumes "same_lists ts ts'" "nodes_ok D S N ns ts"
  shows "nodes_ok D S N ns ts'"
  using assms(2) same_listsD [OF assms(1)] unfolding nodes_ok_def by (simp cong: conj_cong)

lemma sig_ok_same_lists: "same_lists ts ts' \<Longrightarrow> sig_ok B ts' = sig_ok B ts"
  by (rule sig_ok_guests) (simp add: same_lists_def)

lemma idx_ok_owner:
  assumes i: "idx_ok S I Q" and w: "Q w = None"
  shows "idx_ok S I (Q(w \<mapsto> \<lparr>out_sites = [], out_retiring = False\<rparr>))"
proof (rule idx_okI)
  fix k r assume "S k = Some r"
  then show "\<exists>out. (Q(w \<mapsto> \<lparr>out_sites = [], out_retiring = False\<rparr>)) (source_owner r) = Some out \<and> k \<in> set (out_sites out) \<and>
      out_retiring out = (site_state r = Retiring)" using idx_okD(3) [OF i, of k r] w by auto
qed (use idx_okD(1,2,4,5,6,7) [OF i] in \<open>auto split: if_splits\<close>)

lemma targets_ok_publish:
  assumes i: "targets_ok T ts nxt" and n: "nxt \<noteq> kSignalInvalidatingGeneration" and j: "j < length ts" "st_guest_target (ts ! j) = t"
    and d: "\<And>a b. a < length ts \<Longrightarrow> b < length ts \<Longrightarrow> st_guest_target (ts ! a) = st_guest_target (ts ! b) \<Longrightarrow> a = b"
    and tr: "tr_generation tr = nxt" "tr_signal_target tr = Some j" "tr_active tr = (active_generation (ts ! j) \<noteq> kSignalInvalidatingGeneration)"
  shows "targets_ok (T(t \<mapsto> tr)) (if tr_active tr then ts[j := (ts ! j)\<lparr>active_generation := nxt\<rparr>] else ts) (nxt + 1)"
proof -
  let ?ts = "if tr_active tr then ts[j := (ts ! j)\<lparr>active_generation := nxt\<rparr>] else ts"
  have l: "same_lists ts ?ts" by simp
  have lt: "y < nxt + 1" if "y \<le> nxt" for y using less_add_one64 n that by (simp add: kSignalInvalidatingGeneration_def)
  show ?thesis
  proof (rule targets_okI)
    show "0 < nxt + 1" using lt [of 0] by simp
    fix t' tr' assume t': "(T(t \<mapsto> tr)) t' = Some tr'"
    show "0 < tr_generation tr' \<and> tr_generation tr' < nxt + 1"
      using t' targets_okD(1) [OF i] targets_okD(2) [OF i, of t' tr'] tr lt by (auto split: if_splits)
    show "\<exists>i. tr_signal_target tr' = Some i \<and> i < length ?ts \<and> st_guest_target (?ts ! i) = t'"
      using t' targets_okD(3) [OF i, of t' tr'] tr j same_listsD(1,2) [OF l] by (auto split: if_splits)
  next
    fix a assume a: "a < length ?ts" "active_generation (?ts ! a) \<noteq> 0" "active_generation (?ts ! a) \<noteq> kSignalInvalidatingGeneration"
    then have al: "a < length ts" using same_listsD(1) [OF l] by simp
    show "\<exists>tr'. (T(t \<mapsto> tr)) (st_guest_target (?ts ! a)) = Some tr' \<and> tr_active tr' \<and> tr_generation tr' = active_generation (?ts ! a)"
    proof (cases "a = j")
      case True
      then show ?thesis using a tr j by (auto split: if_splits)
    next
      case False
      then have "st_guest_target (ts ! a) \<noteq> t" using d [OF al j(1)] j(2) by auto
      then show ?thesis using targets_okD(4) [OF i al] a False by (auto split: if_splits)
    qed
  qed
qed

lemma PublishTarget_Some:
  assumes ok: "lm_ok lm" and p: "PublishTarget t host rid owner direct pending call cp contract lm = Some (lm', g)"
  obtains i ts tr where "more_targets (signal_targets_storage lm) ts" "i < length ts" "st_guest_target (ts ! i) = t"
    "sig_ok (signal_buckets lm') ts" "g = next_target_generation lm" "g \<noteq> kSignalInvalidatingGeneration"
    "tr_generation tr = g" "tr_signal_target tr = Some i" "tr_active tr = (active_generation (ts ! i) \<noteq> kSignalInvalidatingGeneration)"
    "tr_target_owner tr = owner" "tr_host_pc tr = host"
    "signal_targets_storage lm' = (if tr_active tr then ts[i := (ts ! i)\<lparr>active_generation := g\<rparr>] else ts)"
    "targets lm' = AList.update t tr (targets lm)" "sites lm' = sites lm" "incoming lm' = incoming lm"
    "signal_sites lm' = signal_sites lm" "signal_sites_storage lm' = signal_sites_storage lm"
    "signal_readers lm' = signal_readers lm" "next_target_generation lm' = g + 1"
    "outgoing lm' = outgoing lm \<or>
     map_of (outgoing lm) owner = None \<and> outgoing lm' = AList.update owner \<lparr>out_sites = [], out_retiring = False\<rparr> (outgoing lm)"
proof -
  obtain i lm1 where c: "GetOrCreateSignalTargetLocked (lm\<lparr>next_target_generation := next_target_generation lm + 1\<rparr>) t = (i, lm1)" by fastforce
  have "sig_ok (signal_buckets (lm\<lparr>next_target_generation := next_target_generation lm + 1\<rparr>))
      (signal_targets_storage (lm\<lparr>next_target_generation := next_target_generation lm + 1\<rparr>))"
    using lm_okD(4) [OF ok] by simp
  note cr = GetOrCreate [OF c this]
  let ?tr = "\<lparr>tr_generation = next_target_generation lm, tr_host_pc = host, tr_direct_host_pc = (if direct \<noteq> 0 then direct else host),
            tr_pending_flags_host_pc = pending, tr_pending_flags_contract = contract, tr_call_host_pc = call,
            tr_call_pending_flags_host_pc = cp, tr_region_id = rid, tr_target_owner = owner,
            tr_signal_target = Some i, tr_active = (active_generation (signal_targets_storage lm1 ! i) \<noteq> kSignalInvalidatingGeneration)\<rparr>"
  let ?lm2 = "if active_generation (signal_targets_storage lm1 ! i) \<noteq> kSignalInvalidatingGeneration then upd_target i (\<lambda>st. st\<lparr>active_generation := next_target_generation lm\<rparr>) lm1 else lm1"
  let ?lm3 = "?lm2\<lparr>targets := AList.update t ?tr (targets ?lm2)\<rparr>"
  let ?lm4 = "if owner_module owner \<noteq> 0 \<and> owner_allocation owner \<noteq> 0 \<and> map_of (outgoing ?lm3) owner = None
                then ?lm3\<lparr>outgoing := AList.update owner \<lparr>out_sites = [], out_retiring = False\<rparr> (outgoing ?lm3)\<rparr> else ?lm3"
  have "next_target_generation lm \<noteq> kSignalInvalidatingGeneration \<and> ?lm4 = lm' \<and> next_target_generation lm = g"
    using p by (auto simp: PublishTarget_def Let_def c split del: if_split)
  then have e: "lm' = ?lm4" and g: "g = next_target_generation lm" "g \<noteq> kSignalInvalidatingGeneration" by blast+
  have q: "outgoing lm' = outgoing lm \<or>
     map_of (outgoing lm) owner = None \<and> outgoing lm' = AList.update owner \<lparr>out_sites = [], out_retiring = False\<rparr> (outgoing lm)"
    unfolding e using cr(7) by simp
  show ?thesis
    by (rule that [of "signal_targets_storage lm1" i ?tr, OF _ cr(1,2) _ g _ _ _ _ _ _ _ _ _ _ _ _ _ q])
      (use cr in \<open>simp_all add: e g\<close>)
qed

lemma PublishTarget_ok:
  assumes ok: "lm_ok lm" and p: "PublishTarget t host rid owner direct pending call cp contract lm = Some (lm', g)"
  shows "lm_ok lm'"
proof -
  obtain i ts tr where m: "more_targets (signal_targets_storage lm) ts" and i: "i < length ts" "st_guest_target (ts ! i) = t"
    and sg: "sig_ok (signal_buckets lm') ts" and g: "g = next_target_generation lm" "g \<noteq> kSignalInvalidatingGeneration"
    and tr: "tr_generation tr = g" "tr_signal_target tr = Some i" "tr_active tr = (active_generation (ts ! i) \<noteq> kSignalInvalidatingGeneration)"
    "tr_target_owner tr = owner" "tr_host_pc tr = host"
    and ts: "signal_targets_storage lm' = (if tr_active tr then ts[i := (ts ! i)\<lparr>active_generation := g\<rparr>] else ts)"
    and s: "targets lm' = AList.update t tr (targets lm)" "sites lm' = sites lm" "incoming lm' = incoming lm"
    "signal_sites lm' = signal_sites lm" "signal_sites_storage lm' = signal_sites_storage lm"
    "signal_readers lm' = signal_readers lm" "next_target_generation lm' = g + 1"
    and q: "outgoing lm' = outgoing lm \<or>
     map_of (outgoing lm) owner = None \<and> outgoing lm' = AList.update owner \<lparr>out_sites = [], out_retiring = False\<rparr> (outgoing lm)"
    by (rule PublishTarget_Some [OF ok p])
  have l: "same_lists ts (signal_targets_storage lm')" by (simp add: ts)
  have "idx_ok (map_of (sites lm')) (map_of (incoming lm')) (map_of (outgoing lm'))"
    using q lm_okD(3) [OF ok] idx_ok_owner [OF lm_okD(3) [OF ok]] by (auto simp: s AList.update_conv')
  moreover have "sig_ok (signal_buckets lm') (signal_targets_storage lm')" using sg sig_ok_same_lists [OF l] by simp
  moreover have "nodes_ok {} (map_of (sites lm')) (map_of (signal_sites lm')) (signal_sites_storage lm') (signal_targets_storage lm')"
    using nodes_ok_same_lists [OF l nodes_ok_more_targets [OF m lm_okD(5) [OF ok]]] by (simp add: s)
  moreover have "targets_ok (map_of (targets lm')) (signal_targets_storage lm') (next_target_generation lm')"
  proof -
    have "targets_ok (map_of (targets lm)) ts g" using targets_ok_more_targets [OF m lm_okD(6) [OF ok]] g(1) by simp
    from targets_ok_publish [OF this g(2) i _ tr(1,2,3)] sig_okD(3) [OF sg] show ?thesis unfolding s ts AList.update_conv' by blast
  qed
  moreover have "target_generation r < g + 1" if "map_of (sites lm) k = Some r" for k r
    using lm_okD(7) [OF ok that] less_add_one64 [of g "target_generation r"] g by (simp add: kSignalInvalidatingGeneration_def)
  ultimately show "lm_ok lm'" using lm_okD(1,2,8) [OF ok] by (simp add: lm_ok_def s AList.distinct_update)
qed

subsection \<open>Linking and invalidation\<close>

lemma set_record_ok:
  assumes ok: "lm_ok lm" and r: "map_of (sites lm) k = Some r" "index_fields r' = index_fields r"
    "target_generation r' < next_target_generation lm"
  shows "lm_ok (set_signal_linked k b (lm\<lparr>sites := AList.update k r' (sites lm)\<rparr>))"
proof -
  let ?lm = "set_signal_linked k b (lm\<lparr>sites := AList.update k r' (sites lm)\<rparr>)"
  have s: "same_sites (map_of (sites lm)) (map_of (sites ?lm))"
    using same_sites_update [of "map_of (sites lm)", OF r(1,2)] by (simp add: AList.update_conv')
  have n: "same_nodes (signal_sites_storage lm) (signal_sites_storage ?lm)"
    using set_signal_linked_simps(10) [of "lm\<lparr>sites := AList.update k r' (sites lm)\<rparr>"] by simp
  have "nodes_ok {} (map_of (sites ?lm)) (map_of (signal_sites lm)) (signal_sites_storage ?lm) (signal_targets_storage lm)"
    using nodes_ok_same [OF n nodes_ok_same_sites [OF s lm_okD(5) [OF ok]]] .
  then show ?thesis using lm_okD(1,2,4,6,8) [OF ok] idx_ok_same [OF s lm_okD(3) [OF ok]] lm_okD(7) [OF ok] r(3)
    by (auto simp: lm_ok_def AList.update_conv' AList.distinct_update)
qed

definition linked_record :: "u64 \<Rightarrow> LinkSiteRecord \<Rightarrow> TargetRecord \<Rightarrow> LinkSiteRecord" where
  "linked_record e r tr = r\<lparr>target_generation := e, site_state := Linked, pending_flags_compatible := pending_compatible r tr\<rparr>"

definition linked_manager :: "LinkSiteKey \<Rightarrow> LinkSiteRecord \<Rightarrow> LinkManager \<Rightarrow> LinkManager" where
  "linked_manager k r lm = set_signal_linked k True (lm\<lparr>sites := AList.update k r (sites lm)\<rparr>)"

lemma MarkLinked_eq:
  assumes "map_of (sites lm) k = Some r" "site_state r = Unlinked" "map_of (targets lm) (guest_target r) = Some tr" "tr_signal_target tr \<noteq> None"
  shows "MarkLinked k e (Some cm) (lm, m) =
    (if tr_active tr \<and> tr_generation tr = e \<and> signal_generation lm tr = Some e then do {
       m1 \<leftarrow> (if flags_bypass_offset r \<noteq> no_bypass \<and> \<not> pending_compatible r tr then DisableFlagsBypassLocked lm r m else Some m);
       (m2, committed) \<leftarrow> cm r m1;
       (if committed then do {
          m3 \<leftarrow> TryEnableFlagsBypassLocked (linked_manager k (linked_record e r tr) lm) (linked_record e r tr) m2;
          Some ((linked_manager k (linked_record e r tr) lm, m3), True) }
        else Some ((lm, m2), False)) }
     else Some ((lm, m), False))"
  using assms unfolding MarkLinked_def Let_def linked_record_def linked_manager_def
  by (auto split: Option.bind_split)

lemma MarkLinked_refused:
  assumes "map_of (sites lm) k = None \<or> (\<exists>r. map_of (sites lm) k = Some r \<and> (site_state r \<noteq> Unlinked \<or> commit = None \<or>
      (case map_of (targets lm) (guest_target r) of None \<Rightarrow> True | Some tr \<Rightarrow> tr_signal_target tr = None)))"
  shows "MarkLinked k e commit (lm, m) = Some ((lm, m), False)"
  using assms by (auto simp: MarkLinked_def Let_def split: option.split)

lemma MarkLinked_cases:
  assumes "MarkLinked k e commit (lm, m) = Some ((lm', m'), b)"
  obtains (refused) "lm' = lm" "m' = m" "\<not> b"
  | (valid) r tr cm m1 m2 where "map_of (sites lm) k = Some r" "site_state r = Unlinked" "map_of (targets lm) (guest_target r) = Some tr"
      "tr_active tr" "tr_generation tr = e" "signal_generation lm tr = Some e" "commit = Some cm"
      "(if flags_bypass_offset r \<noteq> no_bypass \<and> \<not> pending_compatible r tr then DisableFlagsBypassLocked lm r m else Some m) = Some m1"
      "cm r m1 = Some (m2, b)"
      "if b then lm' = linked_manager k (linked_record e r tr) lm \<and>
         TryEnableFlagsBypassLocked lm' (linked_record e r tr) m2 = Some m' else lm' = lm \<and> m' = m2"
proof (cases "map_of (sites lm) k = None \<or> (\<exists>r. map_of (sites lm) k = Some r \<and> (site_state r \<noteq> Unlinked \<or> commit = None \<or>
      (case map_of (targets lm) (guest_target r) of None \<Rightarrow> True | Some tr \<Rightarrow> tr_signal_target tr = None)))")
  case True
  then show ?thesis using assms MarkLinked_refused [OF True] refused by simp
next
  case False
  then obtain r where r0: "map_of (sites lm) k = Some r" by auto
  with False obtain tr cm where r: "map_of (sites lm) k = Some r" "site_state r = Unlinked"
    "map_of (targets lm) (guest_target r) = Some tr" "tr_signal_target tr \<noteq> None" and c: "commit = Some cm"
    by (cases "map_of (targets lm) (guest_target r)"; cases commit) auto
  let ?v = "tr_active tr \<and> tr_generation tr = e \<and> signal_generation lm tr = Some e"
  show ?thesis
  proof (cases ?v)
    case v: True
    obtain m1 where m1: "(if flags_bypass_offset r \<noteq> no_bypass \<and> \<not> pending_compatible r tr then DisableFlagsBypassLocked lm r m else Some m) = Some m1"
      using assms v unfolding c MarkLinked_eq [OF r] by (auto split: Option.bind_splits)
    obtain m2 b' where m2: "cm r m1 = Some (m2, b')"
      using assms v unfolding c MarkLinked_eq [OF r] m1 by (auto split: Option.bind_splits)
    show ?thesis using assms v m2 valid [OF r(1,2,3) _ _ _ c m1, of m2] unfolding c MarkLinked_eq [OF r] m1
      by (auto split: Option.bind_splits if_splits)
  next
    case v: False
    have "((lm, m), False) = ((lm', m'), b)" using assms unfolding c MarkLinked_eq [OF r] if_not_P [OF v] by simp
    then show ?thesis using refused by simp
  qed
qed

lemma MarkLinked_ok:
  assumes ok: "lm_ok lm" and "MarkLinked k e commit (lm, m) = Some ((lm', m'), b)"
  shows "lm_ok lm'"
  using assms(2)
proof (cases rule: MarkLinked_cases)
  case (valid r tr cm m1 m2)
  have "tr_generation tr < next_target_generation lm" using targets_okD(2) [OF lm_okD(6) [OF ok]] valid(3) by blast
  then have "lm_ok (linked_manager k (linked_record e r tr) lm)"
    using set_record_ok [OF ok valid(1)] valid by (simp add: index_fields_def linked_manager_def linked_record_def)
  then show ?thesis using valid(10) ok by (simp split: if_splits)
qed (use ok in simp)

lemma MarkFar_ok:
  assumes ok: "lm_ok lm"
  shows "lm_ok (fst (MarkFar k e lm))"
proof (cases "ValidateMarkLocked lm k e")
  case (Some r)
  then obtain tr where "map_of (sites lm) k = Some r" "site_state r = Unlinked" "map_of (targets lm) (guest_target r) = Some tr" "tr_generation tr = e"
    by (auto simp: ValidateMarkLocked_def split: option.splits if_splits)
  moreover have "tr_generation tr < next_target_generation lm" using targets_okD(2) [OF lm_okD(6) [OF ok]] calculation by blast
  ultimately show ?thesis using set_record_ok [OF ok] Some by (simp add: MarkFar_def index_fields_def)
qed (simp add: MarkFar_def ok)

lemma unlink_incoming_ok: "lm_ok lm \<Longrightarrow> lm_ok (fst (unlink_incoming ks lm))"
proof (induction ks arbitrary: lm)
  case (Cons k ks)
  show ?case
  proof (cases "map_of (sites lm) k")
    case (Some r)
    have "0 < next_target_generation lm" using targets_okD(1) [OF lm_okD(6) [OF Cons.prems]] .
    then have "lm_ok (set_signal_linked k False (lm\<lparr>sites := AList.update k (unlink_record r) (sites lm)\<rparr>))"
      using set_record_ok [OF Cons.prems Some] by (simp add: index_fields_def unlink_record_def)
    from Cons.IH [OF this] show ?thesis using Some by (simp add: case_prod_beta Let_def)
  qed (use Cons in simp)
qed simp

lemma deactivate_ok:
  assumes ok: "lm_ok lm" and t: "map_of (targets lm) t = Some tr" "tr_signal_target tr = Some i"
  shows "lm_ok (upd_target i (\<lambda>st. st\<lparr>active_generation := 0\<rparr>) (lm\<lparr>targets := AList.update t (tr\<lparr>tr_active := False\<rparr>) (targets lm)\<rparr>))"
proof -
  let ?ts = "signal_targets_storage lm" let ?ts' = "?ts[i := (?ts ! i)\<lparr>active_generation := 0\<rparr>]"
  have l: "same_lists ?ts ?ts'" by simp
  note tk = lm_okD(6) [OF ok]
  have i: "i < length ?ts" "st_guest_target (?ts ! i) = t" using targets_okD(3) [OF tk t(1)] t(2) by auto
  have "targets_ok ((map_of (targets lm))(t \<mapsto> tr\<lparr>tr_active := False\<rparr>)) ?ts' (next_target_generation lm)"
  proof (rule targets_okI)
    fix t' tr' assume a: "((map_of (targets lm))(t \<mapsto> tr\<lparr>tr_active := False\<rparr>)) t' = Some tr'"
    show "0 < tr_generation tr' \<and> tr_generation tr' < next_target_generation lm"
      using a targets_okD(2) [OF tk, of t'] targets_okD(2) [OF tk t(1)] by (auto split: if_splits)
    show "\<exists>i. tr_signal_target tr' = Some i \<and> i < length ?ts' \<and> st_guest_target (?ts' ! i) = t'"
      using a t i targets_okD(3) [OF tk, of t' tr'] same_listsD(2) [OF l] by (auto split: if_splits)
  next
    fix j assume j: "j < length ?ts'" "active_generation (?ts' ! j) \<noteq> 0" "active_generation (?ts' ! j) \<noteq> kSignalInvalidatingGeneration"
    then have "j \<noteq> i" "j < length ?ts" by auto
    moreover have "st_guest_target (?ts ! j) \<noteq> t" using sig_okD(3) [OF lm_okD(4) [OF ok], of j i] i calculation by auto
    ultimately show "\<exists>tr'. ((map_of (targets lm))(t \<mapsto> tr\<lparr>tr_active := False\<rparr>)) (st_guest_target (?ts' ! j)) = Some tr' \<and>
        tr_active tr' \<and> tr_generation tr' = active_generation (?ts' ! j)"
      using targets_okD(4) [OF tk, of j] j by auto
  qed (rule targets_okD(1) [OF tk])
  then show ?thesis using lm_okD(1,2,3,8) [OF ok] lm_okD(7) [OF ok] nodes_ok_same_lists [OF l lm_okD(5) [OF ok]] lm_okD(4) [OF ok]
    by (simp add: lm_ok_def AList.update_conv' AList.distinct_update sig_ok_same_lists [OF l])
qed

lemma BeginTargetInvalidation_ok:
  assumes ok: "lm_ok lm"
  shows "lm_ok (fst (BeginTargetInvalidation t lm))"
proof (cases "map_of (targets lm) t")
  case (Some tr)
  then obtain i where i: "tr_signal_target tr = Some i" using targets_okD(3) [OF lm_okD(6) [OF ok]] by blast
  show ?thesis using deactivate_ok [OF ok Some i] unlink_incoming_ok Some i
    by (auto simp: BeginTargetInvalidation_def Let_def split: option.split)
qed (simp add: BeginTargetInvalidation_def ok)

subsection \<open>Retirement\<close>

lemma retire_sites:
  "map_of (sites (fst (retire_sites ks lm))) k =
     (if k \<in> set ks then map_option (\<lambda>r. r\<lparr>site_state := Retiring\<rparr>) (map_of (sites lm) k) else map_of (sites lm) k)"
  "\<exists>xs. fst (retire_sites ks lm) = lm\<lparr>sites := xs\<rparr> \<and> (distinct (map fst (sites lm)) \<longrightarrow> distinct (map fst xs))"
proof (induction ks arbitrary: lm)
  case Nil
  { case 1 show ?case by simp }
  { case 2 show ?case by (intro exI [of _ "sites lm"]) simp }
next
  case (Cons k' ks)
  { case 1 show ?case
    proof (cases "map_of (sites lm) k'")
      case (Some r)
      then show ?thesis using Cons.IH(1) [of "lm\<lparr>sites := AList.update k' (r\<lparr>site_state := Retiring\<rparr>) (sites lm)\<rparr>"]
        by (auto simp: case_prod_beta Let_def AList.update_conv')
    qed (use Cons.IH(1) [of lm] in auto) }
  { case 2 show ?case
    proof (cases "map_of (sites lm) k'")
      case (Some r)
      obtain xs where "fst (retire_sites ks (lm\<lparr>sites := AList.update k' (r\<lparr>site_state := Retiring\<rparr>) (sites lm)\<rparr>)) =
          lm\<lparr>sites := xs\<rparr>" "distinct (map fst (AList.update k' (r\<lparr>site_state := Retiring\<rparr>) (sites lm))) \<longrightarrow> distinct (map fst xs)"
        using Cons.IH(2) [of "lm\<lparr>sites := AList.update k' (r\<lparr>site_state := Retiring\<rparr>) (sites lm)\<rparr>"] by auto
      then show ?thesis using Some AList.distinct_update [of "sites lm"] by (auto simp: case_prod_beta Let_def)
    qed (use Cons.IH(2) [of lm] in auto) }
qed

lemma idx_ok_detach:
  assumes i: "idx_ok S I Q" and q: "Q w = Some out"
    and s: "\<And>k. S' k = (if k \<in> set (out_sites out) then map_option (\<lambda>r. r\<lparr>site_state := Retiring\<rparr>) (S k) else S k)"
  shows "idx_ok S' I (Q(w \<mapsto> out\<lparr>out_retiring := True\<rparr>))"
proof (rule idx_okI)
  have src: "S' k = Some r \<Longrightarrow> \<exists>r0. S k = Some r0 \<and> site r = site r0 \<and> guest_target r = guest_target r0 \<and> source_owner r = source_owner r0 \<and>
      (if k \<in> set (out_sites out) then site_state r = Retiring else r = r0)" for k r by (auto simp: s split: if_splits)
  have dst: "S k = Some r0 \<Longrightarrow> \<exists>r. S' k = Some r \<and> guest_target r = guest_target r0 \<and> source_owner r = source_owner r0" for k r0
    by (auto simp: s)
  fix k r assume "S' k = Some r"
  then obtain r0 where r0: "S k = Some r0" "site r = site r0" "guest_target r = guest_target r0" "source_owner r = source_owner r0"
    "if k \<in> set (out_sites out) then site_state r = Retiring else r = r0" using src by blast
  show "site r = k" using idx_okD(1) [OF i r0(1)] r0 by simp
  show "\<exists>ks. I (guest_target r) = Some ks \<and> k \<in> set ks" using idx_okD(2) [OF i r0(1)] r0 by simp
  show "\<exists>o'. (Q(w \<mapsto> out\<lparr>out_retiring := True\<rparr>)) (source_owner r) = Some o' \<and> k \<in> set (out_sites o') \<and> out_retiring o' = (site_state r = Retiring)"
    using idx_okD(3) [OF i r0(1)] idx_okD(7) [OF i q, of k] r0 q by (auto split: if_splits)
next
  have dst: "S k = Some r0 \<Longrightarrow> \<exists>r. S' k = Some r \<and> guest_target r = guest_target r0 \<and> source_owner r = source_owner r0" for k r0
    by (auto simp: s)
  { fix t ks k assume "I t = Some ks" "k \<in> set ks"
    then show "\<exists>r. S' k = Some r \<and> guest_target r = t" using idx_okD(5) [OF i, of t ks k] dst [of k] by auto }
  { fix w' o' k assume "(Q(w \<mapsto> out\<lparr>out_retiring := True\<rparr>)) w' = Some o'" "k \<in> set (out_sites o')"
    then show "\<exists>r. S' k = Some r \<and> source_owner r = w'"
      using idx_okD(7) [OF i q, of k] idx_okD(7) [OF i, of w' o' k] dst [of k] by (auto split: if_splits) }
qed (use idx_okD(4,6) [OF i] q in \<open>auto split: if_splits\<close>)

lemma nodes_ok_guests:
  assumes i: "nodes_ok D S N ns ts" and g: "\<And>k. map_option guest_target (S' k) = map_option guest_target (S k)"
  shows "nodes_ok D S' N ns ts"
proof (rule nodes_okI)
  have d: "S k = Some r \<Longrightarrow> \<exists>r'. S' k = Some r' \<and> guest_target r' = guest_target r" for k r
    using g [of k] by (cases "S' k") auto
  fix k n assume n: "N k = Some n"
  show "n < length ns \<and> (k \<notin> D \<longrightarrow> ss_live (ns ! n)) \<and> patch_valid k (patch (ns ! n))" using nodes_okD(1,2,3) [OF i n] by simp
  show "\<exists>r i. S' k = Some r \<and> i < length ts \<and> st_guest_target (ts ! i) = guest_target r \<and> n \<in> set (st_sites (ts ! i))"
    using nodes_okD(4) [OF i n] d [of k] by metis
next
  have d: "S k = Some r \<Longrightarrow> \<exists>r'. S' k = Some r' \<and> guest_target r' = guest_target r" for k r
    using g [of k] by (cases "S' k") auto
  fix j n assume "j < length ts" "n \<in> set (st_sites (ts ! j))"
  then show "\<exists>k r. N k = Some n \<and> S' k = Some r \<and> guest_target r = st_guest_target (ts ! j)"
    using nodes_okD(6) [OF i] d by metis
qed (fact nodes_okD(5,7) [OF i])+

lemma DetachSource_ok:
  assumes ok: "lm_ok lm"
  shows "lm_ok (fst (DetachSource w lm))"
proof (cases "map_of (outgoing lm) w")
  case (Some out)
  let ?lm = "lm\<lparr>outgoing := AList.update w (out\<lparr>out_retiring := True\<rparr>) (outgoing lm)\<rparr>"
  obtain xs where xs: "fst (retire_sites (out_sites out) ?lm) = ?lm\<lparr>sites := xs\<rparr>" "distinct (map fst xs)"
    using retire_sites(2) [of "out_sites out" ?lm] lm_okD(1) [OF ok] by auto
  have s: "map_of xs k = (if k \<in> set (out_sites out) then map_option (\<lambda>r. r\<lparr>site_state := Retiring\<rparr>) (map_of (sites lm) k)
      else map_of (sites lm) k)" for k using retire_sites(1) [of "out_sites out" ?lm k] xs(1) by simp
  have "map_option guest_target (map_of xs k) = map_option guest_target (map_of (sites lm) k)" for k
    by (simp add: s option.map_comp comp_def)
  note nodes_ok_guests [OF lm_okD(5) [OF ok] this]
  moreover have "target_generation r < next_target_generation lm" if "map_of xs k = Some r" for k r
    using that lm_okD(7) [OF ok, of k] by (auto simp: s split: if_splits)
  moreover have "DetachSource w lm = retire_sites (out_sites out) ?lm" using Some by (simp add: DetachSource_def)
  ultimately show ?thesis using idx_ok_detach [OF lm_okD(3) [OF ok] Some s] lm_okD(2,4,6,8) [OF ok] xs
    by (simp add: lm_ok_def AList.update_conv')
qed (simp add: DetachSource_def ok)

lemma dead_nth [simp]:
  "patch (ns[i := (ns ! i)\<lparr>ss_live := b\<rparr>] ! n) = patch (ns ! n)"
  "i \<noteq> n \<Longrightarrow> ss_live (ns[i := (ns ! i)\<lparr>ss_live := b\<rparr>] ! n) = ss_live (ns ! n)"
proof -
  show "patch (ns[i := (ns ! i)\<lparr>ss_live := b\<rparr>] ! n) = patch (ns ! n)"
    by (cases "i = n"; cases "i < length ns"; simp add: list_update_beyond)
qed simp

lemma tombstone_sites:
  fixes ks lm
  defines "lm' \<equiv> tombstone_sites ks lm"
  shows "sites lm' = sites lm" "incoming lm' = incoming lm" "outgoing lm' = outgoing lm" "targets lm' = targets lm"
    "signal_sites lm' = signal_sites lm" "signal_targets_storage lm' = signal_targets_storage lm"
    "signal_buckets lm' = signal_buckets lm" "signal_readers lm' = signal_readers lm"
    "next_target_generation lm' = next_target_generation lm"
    "length (signal_sites_storage lm') = length (signal_sites_storage lm)"
    "n < length (signal_sites_storage lm) \<Longrightarrow> patch (signal_sites_storage lm' ! n) = patch (signal_sites_storage lm ! n)"
    "n < length (signal_sites_storage lm) \<Longrightarrow> \<forall>k \<in> set ks. map_of (signal_sites lm) k \<noteq> Some n \<Longrightarrow>
       ss_live (signal_sites_storage lm' ! n) = ss_live (signal_sites_storage lm ! n)"
  unfolding lm'_def
  by (induction ks arbitrary: lm) (auto split: option.splits)

lemma nodes_ok_tombstone:
  assumes i: "nodes_ok {} S (map_of (signal_sites lm)) (signal_sites_storage lm) ts"
  shows "nodes_ok (set ks) S (map_of (signal_sites lm)) (signal_sites_storage (tombstone_sites ks lm)) ts"
proof (rule nodes_okI)
  fix k n assume n: "map_of (signal_sites lm) k = Some n"
  note l = nodes_okD(1) [OF i n]
  have "ss_live (signal_sites_storage (tombstone_sites ks lm) ! n)" if "k \<notin> set ks"
    using tombstone_sites(12) [OF l, of ks] nodes_okD(2,5) [OF i n] that by blast
  then show "n < length (signal_sites_storage (tombstone_sites ks lm)) \<and>
      (k \<notin> set ks \<longrightarrow> ss_live (signal_sites_storage (tombstone_sites ks lm) ! n)) \<and>
      patch_valid k (patch (signal_sites_storage (tombstone_sites ks lm) ! n))"
    using nodes_okD(3) [OF i n] l by (simp add: tombstone_sites(10,11))
qed (fact nodes_okD(4,5,6,7) [OF i])+

lemma in_ok_remove:
  assumes i: "in_ok S I" and k: "S k = Some r" and t: "I (guest_target r) = Some inc"
  shows "in_ok (S(k := None)) (I(guest_target r := (if remove1 k inc = [] then None else Some (remove1 k inc))))"
proof -
  have d: "distinct inc" using i t by (auto simp: in_ok_def)
  have m: "k' \<in> set (remove1 k inc) \<longleftrightarrow> k' \<in> set inc \<and> k' \<noteq> k" for k' using d by auto
  have e: "remove1 k inc = [] \<longleftrightarrow> (\<forall>k'. k' \<in> set inc \<longrightarrow> k' = k)" using m by (metis empty_iff list.set(1) set_empty subsetI subset_empty)
  let ?I = "I(guest_target r := (if remove1 k inc = [] then None else Some (remove1 k inc)))"
  have site: "site r' = k'" if "S k' = Some r'" for k' r' using i that unfolding in_ok_def by blast
  have a: "\<exists>ks. ?I (guest_target r') = Some ks \<and> k' \<in> set ks" if "S k' = Some r'" "k' \<noteq> k" for k' r'
  proof (cases "guest_target r' = guest_target r")
    case True
    then have "k' \<in> set inc" using i t that(1) unfolding in_ok_def by fastforce
    then show ?thesis using True that(2) m [of k'] e by auto
  qed (use i that in \<open>auto simp: in_ok_def\<close>)
  have b: "ks \<noteq> [] \<and> distinct ks \<and> (\<forall>k'\<in>set ks. \<exists>r. (S(k := None)) k' = Some r \<and> guest_target r = t')" if "?I t' = Some ks" for t' ks
  proof (cases "t' = guest_target r")
    case True
    then have "ks = remove1 k inc" "ks \<noteq> []" using that by (auto split: if_splits)
    then show ?thesis using i t d True m unfolding in_ok_def by (auto simp: distinct_remove1)
  next
    case False
    then have I: "I t' = Some ks" using that by simp
    have "k \<notin> set ks" using i I k False unfolding in_ok_def by fastforce
    then show ?thesis using i I unfolding in_ok_def by fastforce
  qed
  show ?thesis unfolding in_ok_def
  proof (intro conjI allI impI)
    fix k' r' assume "(S(k := None)) k' = Some r'"
    then have "S k' = Some r'" "k' \<noteq> k" by (auto split: if_splits)
    then show "site r' = k'" "\<exists>ks. ?I (guest_target r') = Some ks \<and> k' \<in> set ks" using site a by blast+
  qed (use b in blast)+
qed

lemma UnlinkSignalSiteLocked_simps [simp]:
  "sites (UnlinkSignalSiteLocked i n lm) = sites lm" "incoming (UnlinkSignalSiteLocked i n lm) = incoming lm"
  "outgoing (UnlinkSignalSiteLocked i n lm) = outgoing lm" "targets (UnlinkSignalSiteLocked i n lm) = targets lm"
  "signal_sites (UnlinkSignalSiteLocked i n lm) = signal_sites lm"
  "signal_buckets (UnlinkSignalSiteLocked i n lm) = signal_buckets lm"
  "signal_readers (UnlinkSignalSiteLocked i n lm) = signal_readers lm"
  "next_target_generation (UnlinkSignalSiteLocked i n lm) = next_target_generation lm"
  "same_nodes (signal_sites_storage lm) (signal_sites_storage (UnlinkSignalSiteLocked i n lm))"
  by (simp_all add: UnlinkSignalSiteLocked_def)

lemma nodes_ok_remove:
  assumes i: "nodes_ok D S N ns ts" and k: "S k = Some r" "N k = Some n"
    and j: "j < length ts" "st_guest_target (ts ! j) = guest_target r"
    and d: "\<And>a b. a < length ts \<Longrightarrow> b < length ts \<Longrightarrow> st_guest_target (ts ! a) = st_guest_target (ts ! b) \<Longrightarrow> a = b"
  shows "nodes_ok D (S(k := None)) (N(k := None)) ns (ts[j := (ts ! j)\<lparr>st_sites := remove1 n (st_sites (ts ! j))\<rparr>])"
proof (rule nodes_okI)
  let ?ts = "ts[j := (ts ! j)\<lparr>st_sites := remove1 n (st_sites (ts ! j))\<rparr>]"
  have dj: "distinct (st_sites (ts ! j))" using nodes_okD(7) [OF i j(1)] .
  { fix k' n' assume n': "(N(k := None)) k' = Some n'"
    then have k': "k' \<noteq> k" "N k' = Some n'" by (auto split: if_splits)
    show "n' < length ns \<and> (k' \<notin> D \<longrightarrow> ss_live (ns ! n')) \<and> patch_valid k' (patch (ns ! n'))" using nodes_okD(1,2,3) [OF i k'(2)] by simp
    have ne: "n' \<noteq> n" using nodes_okD(5) [OF i k(2), of k'] k' by blast
    obtain r' i' where r': "S k' = Some r'" "i' < length ts" "st_guest_target (ts ! i') = guest_target r'" "n' \<in> set (st_sites (ts ! i'))"
      using nodes_okD(4) [OF i k'(2)] by blast
    show "\<exists>r i. (S(k := None)) k' = Some r \<and> i < length ?ts \<and> st_guest_target (?ts ! i) = guest_target r \<and> n' \<in> set (st_sites (?ts ! i))"
      using r' k'(1) ne by (intro exI [of _ r'] exI [of _ i']) (cases "i' = j"; simp) }
  { fix k1 k2 n' assume "(N(k := None)) k1 = Some n'" "(N(k := None)) k2 = Some n'"
    then show "k1 = k2" using nodes_okD(5) [OF i, of k1 n' k2] by (auto split: if_splits) }
  { fix j' assume j': "j' < length ?ts"
    show "distinct (st_sites (?ts ! j'))" using j' nodes_okD(7) [OF i, of j'] by (cases "j' = j") (simp_all add: distinct_remove1)
    fix n' assume n': "n' \<in> set (st_sites (?ts ! j'))"
    have n1: "n' \<in> set (st_sites (ts ! j'))" using n' j' by (cases "j' = j") (simp_all add: set_remove1_eq [OF dj])
    obtain k' r' where r': "N k' = Some n'" "S k' = Some r'" "guest_target r' = st_guest_target (ts ! j')"
      using nodes_okD(6) [OF i _ n1] j' by auto
    have "k' \<noteq> k"
    proof
      assume "k' = k"
      then have "n' = n" "r' = r" using r'(1,2) k by simp_all
      then have "j' = j" using d [of j' j] j j' r'(3) by simp
      then show False using \<open>n' = n\<close> n' dj j(1) by simp
    qed
    then show "\<exists>k' r. (N(k := None)) k' = Some n' \<and> (S(k := None)) k' = Some r \<and> guest_target r = st_guest_target (?ts ! j')"
      using r' j' by (intro exI [of _ k'] exI [of _ r']) (cases "j' = j"; simp) }
qed

lemma nodes_ok_remove_site:
  assumes i: "nodes_ok D S N ns ts" and k: "N k = None"
  shows "nodes_ok D (S(k := None)) N ns ts"
proof (rule nodes_okI)
  { fix k' n assume n: "N k' = Some n"
    show "n < length ns \<and> (k' \<notin> D \<longrightarrow> ss_live (ns ! n)) \<and> patch_valid k' (patch (ns ! n))" using nodes_okD(1,2,3) [OF i n] by simp
    show "\<exists>r' i. (S(k := None)) k' = Some r' \<and> i < length ts \<and> st_guest_target (ts ! i) = guest_target r' \<and> n \<in> set (st_sites (ts ! i))"
      using nodes_okD(4) [OF i n] n k by auto }
  { fix j n assume "j < length ts" "n \<in> set (st_sites (ts ! j))"
    then show "\<exists>k' r'. N k' = Some n \<and> (S(k := None)) k' = Some r' \<and> guest_target r' = st_guest_target (ts ! j)"
      using nodes_okD(6) [OF i, of j n] k by (metis fun_upd_other option.distinct(1)) }
qed (fact nodes_okD(5,7) [OF i])+

text \<open>
  The invariant in the middle of a purge: nodes of the sites in \<open>D\<close> may be tombstones, and nothing is
  said about the outgoing index.
\<close>

definition purge_ok :: "LinkSiteKey set \<Rightarrow> LinkManager \<Rightarrow> bool" where
  "purge_ok D lm \<longleftrightarrow>
     distinct (map fst (sites lm)) \<and> distinct (map fst (targets lm)) \<and>
     in_ok (map_of (sites lm)) (map_of (incoming lm)) \<and>
     sig_ok (signal_buckets lm) (signal_targets_storage lm) \<and>
     nodes_ok D (map_of (sites lm)) (map_of (signal_sites lm)) (signal_sites_storage lm) (signal_targets_storage lm) \<and>
     targets_ok (map_of (targets lm)) (signal_targets_storage lm) (next_target_generation lm) \<and>
     (\<forall>k r. map_of (sites lm) k = Some r \<longrightarrow> target_generation r < next_target_generation lm) \<and>
     signal_readers lm = 0"

lemma purge_okD:
  assumes "purge_ok D lm"
  shows "distinct (map fst (sites lm))" "distinct (map fst (targets lm))"
    "in_ok (map_of (sites lm)) (map_of (incoming lm))"
    "sig_ok (signal_buckets lm) (signal_targets_storage lm)"
    "nodes_ok D (map_of (sites lm)) (map_of (signal_sites lm)) (signal_sites_storage lm) (signal_targets_storage lm)"
    "targets_ok (map_of (targets lm)) (signal_targets_storage lm) (next_target_generation lm)"
    "map_of (sites lm) k = Some r \<Longrightarrow> target_generation r < next_target_generation lm"
    "signal_readers lm = 0"
  using assms by (auto simp: purge_ok_def)

lemma lm_ok_purge_ok: "lm_ok lm \<longleftrightarrow> purge_ok {} lm \<and> out_ok (map_of (sites lm)) (map_of (outgoing lm))"
  by (auto simp: lm_ok_def purge_ok_def idx_ok_def)

lemma targets_ok_same:
  assumes g: "map st_guest_target ts' = map st_guest_target ts" and a: "map active_generation ts' = map active_generation ts"
  shows "targets_ok T ts' nxt = targets_ok T ts nxt"
proof -
  have l: "length ts' = length ts" using map_eq_imp_length_eq [OF g] .
  have "i < length ts \<Longrightarrow> st_guest_target (ts' ! i) = st_guest_target (ts ! i)"
    "i < length ts \<Longrightarrow> active_generation (ts' ! i) = active_generation (ts ! i)" for i
    using arg_cong [OF g, of "\<lambda>xs. xs ! i"] arg_cong [OF a, of "\<lambda>xs. xs ! i"] l by simp_all
  then show ?thesis by (simp add: targets_ok_def l cong: conj_cong)
qed

lemma same_guests_sites:
  "map st_guest_target (ts[i := (ts ! i)\<lparr>st_sites := ns\<rparr>]) = map st_guest_target ts"
  "map active_generation (ts[i := (ts ! i)\<lparr>st_sites := ns\<rparr>]) = map active_generation ts"
  by (cases "i < length ts"; simp add: map_update list_update_same_conv list_update_beyond)+

lemma drop_incoming_simps [simp]:
  "sites (drop_incoming k t lm) = sites lm" "outgoing (drop_incoming k t lm) = outgoing lm"
  "targets (drop_incoming k t lm) = targets lm" "signal_sites (drop_incoming k t lm) = signal_sites lm"
  "signal_sites_storage (drop_incoming k t lm) = signal_sites_storage lm"
  "signal_targets_storage (drop_incoming k t lm) = signal_targets_storage lm"
  "signal_buckets (drop_incoming k t lm) = signal_buckets lm" "signal_readers (drop_incoming k t lm) = signal_readers lm"
  "next_target_generation (drop_incoming k t lm) = next_target_generation lm"
  by (simp_all add: drop_incoming_def split: option.split)

lemma drop_signal_site_simps [simp]:
  "sites (drop_signal_site k t lm) = sites lm" "outgoing (drop_signal_site k t lm) = outgoing lm"
  "targets (drop_signal_site k t lm) = targets lm" "incoming (drop_signal_site k t lm) = incoming lm"
  "signal_buckets (drop_signal_site k t lm) = signal_buckets lm" "signal_readers (drop_signal_site k t lm) = signal_readers lm"
  "next_target_generation (drop_signal_site k t lm) = next_target_generation lm"
  by (simp_all add: drop_signal_site_def Let_def split: option.split)

lemma drop_incoming_ok:
  assumes "in_ok (map_of (sites lm)) (map_of (incoming lm))" "map_of (sites lm) k = Some r"
  shows "in_ok ((map_of (sites lm))(k := None)) (map_of (incoming (drop_incoming k (guest_target r) lm)))"
proof -
  obtain inc where inc: "map_of (incoming lm) (guest_target r) = Some inc" using assms unfolding in_ok_def by blast
  from in_ok_remove [OF assms inc] show ?thesis
    by (cases "remove1 k inc = []") (simp_all add: drop_incoming_def inc AList.update_conv' AList.delete_conv')
qed

lemma drop_signal_site_ok:
  assumes n: "nodes_ok D (map_of (sites lm)) (map_of (signal_sites lm)) (signal_sites_storage lm) (signal_targets_storage lm)"
    and s: "sig_ok (signal_buckets lm) (signal_targets_storage lm)" and k: "map_of (sites lm) k = Some r"
  defines "lm' \<equiv> drop_signal_site k (guest_target r) lm"
  shows "nodes_ok D ((map_of (sites lm))(k := None)) (map_of (signal_sites lm')) (signal_sites_storage lm') (signal_targets_storage lm')"
    "map st_guest_target (signal_targets_storage lm') = map st_guest_target (signal_targets_storage lm)"
    "map active_generation (signal_targets_storage lm') = map active_generation (signal_targets_storage lm)"
proof -
  let ?N = "map_of (signal_sites lm)" and ?ts = "signal_targets_storage lm"
  have "nodes_ok D ((map_of (sites lm))(k := None)) (map_of (signal_sites lm')) (signal_sites_storage lm') (signal_targets_storage lm') \<and>
    map st_guest_target (signal_targets_storage lm') = map st_guest_target ?ts \<and>
    map active_generation (signal_targets_storage lm') = map active_generation ?ts"
  proof (cases "?N k")
    case None
    then show ?thesis using nodes_ok_remove_site [OF n None] by (simp add: lm'_def drop_signal_site_def)
  next
    case (Some m)
    obtain i where i: "i < length ?ts" "st_guest_target (?ts ! i) = guest_target r" "m \<in> set (st_sites (?ts ! i))"
      using nodes_okD(4) [OF n Some] k by auto
    let ?lm = "UnlinkSignalSiteLocked i m lm"
    have "FindSignalTarget lm (guest_target r) = Some i" using Find_iff [OF s] i by blast
    then have lm': "lm' = ?lm\<lparr>signal_sites := AList.delete k (signal_sites lm)\<rparr>" by (simp add: lm'_def drop_signal_site_def Some)
    have ts: "signal_targets_storage ?lm = ?ts[i := (?ts ! i)\<lparr>st_sites := remove1 m (st_sites (?ts ! i))\<rparr>]"
      using i(3) by (simp add: UnlinkSignalSiteLocked_def)
    have "nodes_ok D ((map_of (sites lm))(k := None)) (?N(k := None)) (signal_sites_storage lm) (signal_targets_storage ?lm)"
      unfolding ts by (rule nodes_ok_remove [OF n k Some i(1,2) sig_okD(3) [OF s]])
    from nodes_ok_same [OF UnlinkSignalSiteLocked_simps(9) this]
    show ?thesis by (simp add: lm' ts same_guests_sites AList.delete_conv')
  qed
  then show "nodes_ok D ((map_of (sites lm))(k := None)) (map_of (signal_sites lm')) (signal_sites_storage lm') (signal_targets_storage lm')"
    "map st_guest_target (signal_targets_storage lm') = map st_guest_target ?ts"
    "map active_generation (signal_targets_storage lm') = map active_generation ?ts" by blast+
qed

lemma purge_site_ok:
  assumes ok: "purge_ok D lm" and k: "map_of (sites lm) k = Some r"
  shows "purge_ok D (purge_site k r lm)" "map_of (sites (purge_site k r lm)) = (map_of (sites lm))(k := None)"
    "outgoing (purge_site k r lm) = outgoing lm" "targets (purge_site k r lm) = targets lm"
proof -
  let ?lm1 = "drop_incoming k (guest_target r) lm" let ?lm2 = "drop_signal_site k (guest_target r) ?lm1"
  have e: "purge_site k r lm = ?lm2\<lparr>sites := AList.delete k (sites lm)\<rparr>" by (simp add: purge_site_def Let_def)
  show "map_of (sites (purge_site k r lm)) = (map_of (sites lm))(k := None)" "outgoing (purge_site k r lm) = outgoing lm"
    "targets (purge_site k r lm) = targets lm" by (simp_all add: e AList.delete_conv')
  note d = drop_signal_site_ok [of D ?lm1 k r, simplified, OF purge_okD(5,4) [OF ok] k]
  have "sig_ok (signal_buckets lm) (signal_targets_storage ?lm2)" using purge_okD(4) [OF ok] sig_ok_guests [OF d(2)] by simp
  moreover have "targets_ok (map_of (targets lm)) (signal_targets_storage ?lm2) (next_target_generation lm)"
    using purge_okD(6) [OF ok] targets_ok_same [OF d(2,3)] by simp
  ultimately show "purge_ok D (purge_site k r lm)"
    using d(1) drop_incoming_ok [OF purge_okD(3) [OF ok] k] purge_okD(1,2,8) [OF ok] purge_okD(7) [OF ok]
    by (simp add: purge_ok_def e AList.delete_conv' AList.distinct_delete)
qed

lemma purge_sites_ok:
  assumes "purge_ok D lm"
  shows "purge_ok D (fst (purge_sites ks lm))"
    "map_of (sites (fst (purge_sites ks lm))) = (map_of (sites lm)) |` (- set ks)"
    "outgoing (fst (purge_sites ks lm)) = outgoing lm" "targets (fst (purge_sites ks lm)) = targets lm"
proof -
  have "purge_ok D (fst (purge_sites ks lm)) \<and> map_of (sites (fst (purge_sites ks lm))) = (map_of (sites lm)) |` (- set ks) \<and>
    outgoing (fst (purge_sites ks lm)) = outgoing lm \<and> targets (fst (purge_sites ks lm)) = targets lm"
    using assms
  proof (induction ks arbitrary: lm)
    case (Cons k ks)
    show ?case
    proof (cases "map_of (sites lm) k")
      case None
      then have "(map_of (sites lm)) |` (- set (k # ks)) = (map_of (sites lm)) |` (- set ks)" by (auto simp: restrict_map_def)
      then show ?thesis using Cons.IH [OF Cons.prems] None by simp
    next
      case (Some r)
      note p = purge_site_ok [OF Cons.prems Some]
      have "((map_of (sites lm))(k := None)) |` (- set ks) = (map_of (sites lm)) |` (- set (k # ks))" by (auto simp: restrict_map_def)
      then show ?thesis using Cons.IH [OF p(1)] unfolding p(2,3,4) by (simp only: purge_sites.simps Some option.case case_prod_beta Let_def fst_conv)
    qed
  qed (simp add: restrict_map_def)
  then show "purge_ok D (fst (purge_sites ks lm))" "map_of (sites (fst (purge_sites ks lm))) = (map_of (sites lm)) |` (- set ks)"
    "outgoing (fst (purge_sites ks lm)) = outgoing lm" "targets (fst (purge_sites ks lm)) = targets lm" by blast+
qed

lemma deactivate_targets:
  fixes trs lm
  defines "lm' \<equiv> deactivate_targets trs lm"
  shows "sites lm' = sites lm" "incoming lm' = incoming lm" "outgoing lm' = outgoing lm" "targets lm' = targets lm"
    "signal_sites lm' = signal_sites lm" "signal_sites_storage lm' = signal_sites_storage lm"
    "signal_buckets lm' = signal_buckets lm" "signal_readers lm' = signal_readers lm"
    "next_target_generation lm' = next_target_generation lm"
    "same_lists (signal_targets_storage lm) (signal_targets_storage lm')"
    "i < length (signal_targets_storage lm) \<Longrightarrow> active_generation (signal_targets_storage lm' ! i) =
       (if Some i \<in> tr_signal_target ` set trs then 0 else active_generation (signal_targets_storage lm ! i))"
proof -
  show "same_lists (signal_targets_storage lm) (signal_targets_storage lm')" unfolding lm'_def
  proof (induction trs arbitrary: lm)
    case (Cons tr trs)
    show ?case
    proof (cases "tr_signal_target tr")
      case (Some i)
      show ?thesis using same_lists_trans [OF same_lists_active Cons.IH [of "upd_target i (\<lambda>st. st\<lparr>active_generation := 0\<rparr>) lm", simplified]] Some
        by simp
    qed (use Cons.IH in simp)
  qed simp
  show "i < length (signal_targets_storage lm) \<Longrightarrow> active_generation (signal_targets_storage lm' ! i) =
       (if Some i \<in> tr_signal_target ` set trs then 0 else active_generation (signal_targets_storage lm ! i))" unfolding lm'_def
    by (induction trs arbitrary: lm) (auto split: option.splits simp: nth_list_update)
qed (unfold lm'_def, (induction trs arbitrary: lm; auto split: option.splits)+)

lemma map_of_filter_snd:
  "distinct (map fst xs) \<Longrightarrow> map_of (filter (\<lambda>(k, v). P v) xs) k = (case map_of xs k of None \<Rightarrow> None | Some v \<Rightarrow> if P v then Some v else None)"
  by (induction xs) (auto split: option.splits simp: map_of_eq_None_iff dest: map_of_SomeD)

lemma erase_targets_ok:
  assumes ok: "purge_ok D lm"
  shows "purge_ok D (erase_targets w lm)" "sites (erase_targets w lm) = sites lm" "outgoing (erase_targets w lm) = outgoing lm"
    "map_of (targets (erase_targets w lm)) t =
       (case map_of (targets lm) t of None \<Rightarrow> None | Some tr \<Rightarrow> if tr_target_owner tr \<noteq> w then Some tr else None)"
proof -
  let ?trs = "map snd (filter (\<lambda>(t, tr). tr_target_owner tr = w) (targets lm))"
  let ?lm = "deactivate_targets ?trs lm" let ?lm' = "erase_targets w lm"
  have e: "?lm' = ?lm\<lparr>targets := filter (\<lambda>(t, tr). tr_target_owner tr \<noteq> w) (targets lm)\<rparr>"
    by (simp add: erase_targets_def Let_def deactivate_targets)
  note T = map_of_filter_snd [OF purge_okD(2) [OF ok], of "\<lambda>tr. tr_target_owner tr \<noteq> w"]
  note dt = deactivate_targets [where trs = ?trs and lm = lm]
  show "sites ?lm' = sites lm" "outgoing ?lm' = outgoing lm"
    "map_of (targets ?lm') t = (case map_of (targets lm) t of None \<Rightarrow> None | Some tr \<Rightarrow> if tr_target_owner tr \<noteq> w then Some tr else None)"
    using T [of t] by (simp_all add: e dt)
  have tk: "targets_ok (map_of (targets ?lm')) (signal_targets_storage ?lm) (next_target_generation lm)"
  proof (rule targets_okI)
    fix t' tr assume "map_of (targets ?lm') t' = Some tr"
    then have a: "map_of (targets lm) t' = Some tr" by (auto simp: e T split: option.splits if_splits)
    show "0 < tr_generation tr \<and> tr_generation tr < next_target_generation lm" using targets_okD(2) [OF purge_okD(6) [OF ok] a] .
    show "\<exists>i. tr_signal_target tr = Some i \<and> i < length (signal_targets_storage ?lm) \<and> st_guest_target (signal_targets_storage ?lm ! i) = t'"
      using targets_okD(3) [OF purge_okD(6) [OF ok] a] same_listsD(1,2) [OF dt(10)] by auto
  next
    fix i assume i: "i < length (signal_targets_storage ?lm)" "active_generation (signal_targets_storage ?lm ! i) \<noteq> 0"
      "active_generation (signal_targets_storage ?lm ! i) \<noteq> kSignalInvalidatingGeneration"
    then have l: "i < length (signal_targets_storage lm)" using same_listsD(1) [OF dt(10)] by simp
    have n: "Some i \<notin> tr_signal_target ` set ?trs" and g: "active_generation (signal_targets_storage ?lm ! i) = active_generation (signal_targets_storage lm ! i)"
      using i dt(11) [OF l] by (auto split: if_splits)
    obtain tr where tr: "map_of (targets lm) (st_guest_target (signal_targets_storage lm ! i)) = Some tr" "tr_active tr"
      "tr_generation tr = active_generation (signal_targets_storage lm ! i)"
      using targets_okD(4) [OF purge_okD(6) [OF ok] l] i g by auto
    obtain j where j: "tr_signal_target tr = Some j" "j < length (signal_targets_storage lm)"
      "st_guest_target (signal_targets_storage lm ! j) = st_guest_target (signal_targets_storage lm ! i)"
      using targets_okD(3) [OF purge_okD(6) [OF ok] tr(1)] by blast
    have "j = i" using sig_okD(3) [OF purge_okD(4) [OF ok] j(2) l j(3)] .
    then have "tr_target_owner tr \<noteq> w" using n map_of_SomeD [OF tr(1)] j(1) by force
    then show "\<exists>tr. map_of (targets ?lm') (st_guest_target (signal_targets_storage ?lm ! i)) = Some tr \<and> tr_active tr \<and>
        tr_generation tr = active_generation (signal_targets_storage ?lm ! i)"
      using tr g same_listsD(2) [OF dt(10) l] by (simp add: e T)
  qed (rule targets_okD(1) [OF purge_okD(6) [OF ok]])
  have "distinct (map fst (targets ?lm'))" using purge_okD(2) [OF ok] by (simp add: e distinct_map_filter)
  then show "purge_ok D ?lm'" using tk purge_okD(1,3,8) [OF ok] purge_okD(7) [OF ok] nodes_ok_same_lists [OF dt(10) purge_okD(5) [OF ok]]
      purge_okD(4) [OF ok] by (simp add: purge_ok_def e dt sig_ok_same_lists [OF dt(10)])
qed

lemma nodes_ok_live:
  assumes i: "nodes_ok D S N ns ts" and d: "\<And>k. k \<in> D \<Longrightarrow> S k = None"
  shows "nodes_ok {} S N ns ts"
proof (rule nodes_okI)
  fix k n assume n: "N k = Some n"
  have "k \<notin> D" using nodes_okD(4) [OF i n] d [of k] by auto
  then show "n < length ns \<and> (k \<notin> {} \<longrightarrow> ss_live (ns ! n)) \<and> patch_valid k (patch (ns ! n))" using nodes_okD(1,2,3) [OF i n] by simp
qed (fact nodes_okD(4,5,6,7) [OF i])+

lemma out_ok_purge:
  assumes i: "out_ok S Q" and w: "Q w = Some out"
  shows "out_ok (S |` (- set (out_sites out))) (Q(w := None))"
proof -
  have a: "\<exists>o'. (Q(w := None)) (source_owner r) = Some o' \<and> k \<in> set (out_sites o') \<and> out_retiring o' = (site_state r = Retiring)"
    if "S k = Some r" "k \<notin> set (out_sites out)" for k r
    using i w that unfolding out_ok_def by (cases "source_owner r = w") fastforce+
  have b: "\<exists>r. (S |` (- set (out_sites out))) k = Some r \<and> source_owner r = w'" if q: "Q w' = Some o'" "w' \<noteq> w" "k \<in> set (out_sites o')" for w' o' k
  proof -
    obtain r where r: "S k = Some r" "source_owner r = w'" using i q unfolding out_ok_def by blast
    moreover have "k \<notin> set (out_sites out)" using i w r q(2) unfolding out_ok_def by fastforce
    ultimately show ?thesis by simp
  qed
  have c: "distinct (out_sites o')" if "Q w' = Some o'" for w' o' using i that unfolding out_ok_def by blast
  show ?thesis unfolding out_ok_def
  proof (intro conjI allI impI ballI)
    fix k r assume "(S |` (- set (out_sites out))) k = Some r"
    then show "\<exists>o'. (Q(w := None)) (source_owner r) = Some o' \<and> k \<in> set (out_sites o') \<and> out_retiring o' = (site_state r = Retiring)"
      using a [of k r] by (cases "k \<in> set (out_sites out)") (simp_all del: fun_upd_apply)
  next
    fix w' o' assume o': "(Q(w := None)) w' = Some o'"
    then show "distinct (out_sites o')" using c by (simp split: if_splits)
    fix k assume "k \<in> set (out_sites o')"
    then show "\<exists>r. (S |` (- set (out_sites out))) k = Some r \<and> source_owner r = w'" using b [of w' o' k] o' by (simp split: if_splits)
  qed
qed

lemma PurgeSource_cases:
  assumes ok: "lm_ok lm"
  obtains (absent) "map_of (outgoing lm) w = None" "PurgeSource w lm = Some (lm, 0)"
  | (live) out where "map_of (outgoing lm) w = Some out" "\<not> out_retiring out" "PurgeSource w lm = Some (lm, 0)"
  | (purged) out lm' n where "map_of (outgoing lm) w = Some out" "out_retiring out" "PurgeSource w lm = Some (lm', n)"
      "lm_ok lm'" "map_of (sites lm') = map_of (sites lm) |` (- set (out_sites out))"
      "map_of (outgoing lm') = (map_of (outgoing lm))(w := None)"
      "\<And>t. map_of (targets lm') t =
        (case map_of (targets lm) t of None \<Rightarrow> None | Some tr \<Rightarrow> if tr_target_owner tr \<noteq> w then Some tr else None)"
proof (cases "map_of (outgoing lm) w")
  case (Some out)
  show ?thesis
  proof (cases "out_retiring out")
    case r: True
    have o: "out_ok (map_of (sites lm)) (map_of (outgoing lm))" using ok by (simp add: lm_ok_purge_ok)
    have own: "\<exists>r. map_of (sites lm) k = Some r \<and> source_owner r = w" if "k \<in> set (out_sites out)" for k
      using o Some that unfolding out_ok_def by blast
    have ret: "site_state r = Retiring" if kr: "map_of (sites lm) k = Some r" "source_owner r = w" for k r
    proof -
      obtain out' where "map_of (outgoing lm) w = Some out'" "out_retiring out' = (site_state r = Retiring)"
        using idx_okD(3) [OF lm_okD(3) [OF ok] kr(1)] kr(2) by auto
      then show ?thesis using Some r by simp
    qed
    let ?lm1 = "tombstone_sites (out_sites out) lm"
    let ?lm2 = "fst (purge_sites (out_sites out) ?lm1)" let ?lm3 = "erase_targets w ?lm2"
    let ?lm4 = "?lm3\<lparr>outgoing := AList.delete w (outgoing ?lm3)\<rparr>"
    have p1: "purge_ok (set (out_sites out)) ?lm1"
      using lm_okD(1,2,4,6,8) [OF ok] lm_okD(7) [OF ok] idx_ok_def lm_okD(3) [OF ok] nodes_ok_tombstone [OF lm_okD(5) [OF ok], of "out_sites out"]
      by (simp add: purge_ok_def tombstone_sites)
    note p2 = purge_sites_ok [OF p1, of "out_sites out"] note p3 = erase_targets_ok [OF p2(1), of w]
    have S: "map_of (sites ?lm4) = map_of (sites lm) |` (- set (out_sites out))" using p2(2) p3(2) by (simp add: tombstone_sites)
    have Q: "map_of (outgoing ?lm4) = (map_of (outgoing lm))(w := None)" using p2(3) p3(3) by (simp add: tombstone_sites AList.delete_conv')
    have p4: "purge_ok {} ?lm4"
      using p3(1) S nodes_ok_live [OF purge_okD(5) [OF p3(1)]] by (simp add: purge_ok_def)
    moreover have "out_ok (map_of (sites ?lm4)) (map_of (outgoing ?lm4))" unfolding S Q
      by (rule out_ok_purge [OF o Some])
    ultimately have "lm_ok ?lm4" by (simp add: lm_ok_purge_ok)
    moreover have "\<not> (\<exists>k \<in> set (out_sites out). case map_of (sites lm) k of None \<Rightarrow> True | Some r \<Rightarrow> site_state r \<noteq> Retiring)"
      using own ret by (fastforce split: option.splits)
    then have "PurgeSource w lm = Some (?lm4, snd (purge_sites (out_sites out) ?lm1))"
      using Some r lm_okD(8) [OF ok] by (simp add: PurgeSource_def Let_def case_prod_beta tombstone_sites)
    moreover have "map_of (targets ?lm4) t =
        (case map_of (targets lm) t of None \<Rightarrow> None | Some tr \<Rightarrow> if tr_target_owner tr \<noteq> w then Some tr else None)" for t
      using p3(4) [of t] p2(4) by (simp add: tombstone_sites)
    ultimately show ?thesis using purged [OF Some r] S Q by blast
  qed (use live Some in \<open>simp add: PurgeSource_def\<close>)
qed (use absent in \<open>simp add: PurgeSource_def\<close>)

subsection \<open>Signal invalidation\<close>

lemma restore_sites_frame:
  "restore_sites c ns (lm, m) = Some ((lm', m'), cnt) \<Longrightarrow>
   \<exists>ss. lm' = lm\<lparr>signal_sites_storage := ss\<rparr> \<and> same_nodes (signal_sites_storage lm) ss"
proof (induction ns arbitrary: lm m cnt)
  case Nil
  then show ?case by (intro exI [of _ "signal_sites_storage lm"]) simp
next
  case (Cons n ns)
  show ?case
  proof (cases "ss_live (signal_sites_storage lm ! n)")
    case True
    let ?lm = "if c then upd_site n (\<lambda>s. s\<lparr>ss_linked := False\<rparr>) lm else lm"
    obtain m1 cnt' where "restore_sites c ns (?lm, m1) = Some ((lm', m'), cnt')"
      using Cons.prems True by (auto simp: Let_def split: Option.bind_splits)
    from Cons.IH [OF this] obtain ss where
      "lm' = ?lm\<lparr>signal_sites_storage := ss\<rparr>" "same_nodes (signal_sites_storage ?lm) ss" by blast
    then show ?thesis
      by (intro exI [of _ ss] conjI) (simp add: upd_site_def, cases c, auto intro: same_nodes_trans [OF same_nodes_update])
  qed (use Cons in simp)
qed

lemma set_active_invalid_ok:
  assumes ok: "lm_ok lm"
  shows "lm_ok (upd_target i (\<lambda>st. st\<lparr>active_generation := kSignalInvalidatingGeneration\<rparr>) lm)"
proof -
  let ?ts = "signal_targets_storage lm" let ?ts' = "?ts[i := (?ts ! i)\<lparr>active_generation := kSignalInvalidatingGeneration\<rparr>]"
  have l: "same_lists ?ts ?ts'" by simp
  have "targets_ok (map_of (targets lm)) ?ts' (next_target_generation lm)"
  proof (rule targets_okI)
    fix t tr assume "map_of (targets lm) t = Some tr"
    from targets_okD(3) [OF lm_okD(6) [OF ok] this]
    show "\<exists>i. tr_signal_target tr = Some i \<and> i < length ?ts' \<and> st_guest_target (?ts' ! i) = t" using same_listsD(2) [OF l] by auto
  next
    fix j assume j: "j < length ?ts'" "active_generation (?ts' ! j) \<noteq> 0" "active_generation (?ts' ! j) \<noteq> kSignalInvalidatingGeneration"
    then have "j \<noteq> i" "j < length ?ts" by auto
    then show "\<exists>tr. map_of (targets lm) (st_guest_target (?ts' ! j)) = Some tr \<and> tr_active tr \<and> tr_generation tr = active_generation (?ts' ! j)"
      using targets_okD(4) [OF lm_okD(6) [OF ok], of j] j by auto
  qed (use targets_okD(1,2) [OF lm_okD(6) [OF ok]] in auto)
  then show ?thesis using lm_okD(1,2,3,8) [OF ok] lm_okD(7) [OF ok] nodes_ok_same_lists [OF l lm_okD(5) [OF ok]] lm_okD(4) [OF ok]
    by (simp add: lm_ok_def sig_ok_same_lists [OF l])
qed

lemma set_nodes_ok:
  assumes ok: "lm_ok lm" and s: "same_nodes (signal_sites_storage lm) ss"
  shows "lm_ok (lm\<lparr>signal_sites_storage := ss\<rparr>)"
  using ok nodes_ok_same [OF s lm_okD(5) [OF ok]] by (simp add: lm_ok_def)

lemma active_nth [simp]: "st_sites (ts[i := (ts ! i)\<lparr>active_generation := g\<rparr>] ! j) = st_sites (ts ! j)"
  by (cases "i = j"; cases "i < length ts"; simp add: list_update_beyond)

lemma signal_deactivate_simps [simp]:
  "sites (signal_deactivate i lm) = sites lm" "signal_sites (signal_deactivate i lm) = signal_sites lm"
  "targets (signal_deactivate i lm) = targets lm" "signal_sites_storage (signal_deactivate i lm) = signal_sites_storage lm"
  "st_sites (signal_targets_storage (signal_deactivate i lm) ! j) = st_sites (signal_targets_storage lm ! j)"
  by (simp_all add: signal_deactivate_def Let_def)

lemma SignalInvalidate_cases:
  assumes "SignalInvalidateTarget t (lm, m) = Some ((lm', m'), b, cnt)"
  obtains (absent) "FindSignalTarget lm t = None" "lm' = lm" "m' = m" "\<not> b" "cnt = 0"
  | (found) i lm3 m3 lm4 c where "FindSignalTarget lm t = Some i" "b"
      "restore_sites True (st_sites (signal_targets_storage lm ! i)) (signal_deactivate i lm, m) = Some ((lm3, m3), cnt)"
      "restore_sites False (st_sites (signal_targets_storage lm ! i)) (lm3, m3) = Some ((lm4, m'), c)"
      "lm' = (if cnt \<noteq> 0 then lm4\<lparr>signal_delinks := signal_delinks lm4 + of_nat cnt\<rparr> else lm4)"
proof (cases "FindSignalTarget lm t")
  case (Some i)
  let ?ns = "st_sites (signal_targets_storage lm ! i)"
  obtain lm3 m3 cnt3 where r: "restore_sites True ?ns (signal_deactivate i lm, m) = Some ((lm3, m3), cnt3)"
    using assms by (cases "restore_sites True ?ns (signal_deactivate i lm, m)") (auto simp: SignalInvalidateTarget_def Let_def Some)
  have "signal_targets_storage lm3 = signal_targets_storage (signal_deactivate i lm)" using restore_sites_frame [OF r] by auto
  then have ns3: "st_sites (signal_targets_storage lm3 ! i) = ?ns" by simp
  have e: "SignalInvalidateTarget t (lm, m) = do {
      ((lm4, m4), _) \<leftarrow> restore_sites False ?ns (lm3, m3);
      Some ((if cnt3 \<noteq> 0 then lm4\<lparr>signal_delinks := signal_delinks lm4 + of_nat cnt3\<rparr> else lm4, m4), True, cnt3) }"
    by (simp add: SignalInvalidateTarget_def Let_def Some r ns3)
  obtain lm4 m4 c where r': "restore_sites False ?ns (lm3, m3) = Some ((lm4, m4), c)"
    using assms unfolding e by (cases "restore_sites False ?ns (lm3, m3)") auto
  have q: "m4 = m'" "b" "cnt3 = cnt" "lm' = (if cnt3 \<noteq> 0 then lm4\<lparr>signal_delinks := signal_delinks lm4 + of_nat cnt3\<rparr> else lm4)"
    using assms unfolding e r' by (auto split del: if_split)
  show ?thesis by (rule found [OF Some q(2) r [unfolded q(3)] r' [unfolded q(1)] q(4) [unfolded q(3)]])
next
  case None
  then have "lm' = lm \<and> m' = m \<and> \<not> b \<and> cnt = 0" using assms by (auto simp: SignalInvalidateTarget_def)
  then show ?thesis using absent [OF None] by blast
qed

lemma SignalInvalidate_ok:
  assumes ok: "lm_ok lm" and s: "SignalInvalidateTarget t (lm, m) = Some ((lm', m'), b, cnt)"
  shows "lm_ok lm'"
  using s
proof (cases rule: SignalInvalidate_cases)
  case (found i lm3 m3 lm4 c)
  have d: "lm_ok (signal_deactivate i lm)" using ok set_active_invalid_ok [OF ok, of i] by (simp add: signal_deactivate_def Let_def lm_ok_def)
  obtain ss where "lm3 = (signal_deactivate i lm)\<lparr>signal_sites_storage := ss\<rparr>" "same_nodes (signal_sites_storage (signal_deactivate i lm)) ss"
    using restore_sites_frame [OF found(3)] by blast
  with set_nodes_ok [OF d] have ok3: "lm_ok lm3" by blast
  obtain ss where "lm4 = lm3\<lparr>signal_sites_storage := ss\<rparr>" "same_nodes (signal_sites_storage lm3) ss"
    using restore_sites_frame [OF found(4)] by blast
  with set_nodes_ok [OF ok3] have "lm_ok lm4" by blast
  then show ?thesis using found(5) by (simp add: lm_ok_def)
qed (use ok in simp)

end
