(* ===== verification/Link_Correct.thy ===== *)
theory Link_Correct
  imports Link_Invariant
begin

text \<open>
  What the link manager promises: its invariant along every sequence of operations, that an
  invalidated target is not linked again before it is published again, the two-phase retirement of
  a source, and that signal invalidation leaves the unlinked branch at every site.
\<close>

section \<open>Sequences of operations\<close>

datatype link_op =
    OpRegister LinkSiteKey u64 LinkSourceOwner "LinkSignalPatchSite option" LinkSiteKind EdgeFlagsState
  | OpPublish u64 u64 u64 LinkSourceOwner u64 u64 u64 u64 EdgeFlagsTargetContract
  | OpLink LinkSiteKey u64 "LinkCommit option"
  | OpFar LinkSiteKey u64
  | OpInvalidate u64
  | OpDetach LinkSourceOwner
  | OpPurge LinkSourceOwner
  | OpSignal u64

fun link_exec :: "link_op \<Rightarrow> LinkManager \<times> code_words \<Rightarrow> (LinkManager \<times> code_words) option" where
  "link_exec (OpRegister k t w sp knd ef) (lm, m) = Some (fst (RegisterSite k t w sp knd ef lm), m)"
| "link_exec (OpPublish t host rid w direct pending call cp contract) (lm, m) =
     map_option (\<lambda>(lm', g). (lm', m)) (PublishTarget t host rid w direct pending call cp contract lm)"
| "link_exec (OpLink k e commit) s = map_option fst (MarkLinked k e commit s)"
| "link_exec (OpFar k e) (lm, m) = Some (fst (MarkFar k e lm), m)"
| "link_exec (OpInvalidate t) (lm, m) = Some (fst (BeginTargetInvalidation t lm), m)"
| "link_exec (OpDetach w) (lm, m) = Some (fst (DetachSource w lm), m)"
| "link_exec (OpPurge w) (lm, m) = map_option (\<lambda>(lm', n). (lm', m)) (PurgeSource w lm)"
| "link_exec (OpSignal t) s = map_option fst (SignalInvalidateTarget t s)"

inductive link_run :: "LinkManager \<times> code_words \<Rightarrow> link_op list \<Rightarrow> LinkManager \<times> code_words \<Rightarrow> bool" where
  link_done: "link_run s [] s"
| link_next: "link_exec op s = Some s' \<Longrightarrow> link_run s' ops s'' \<Longrightarrow> link_run s (op # ops) s''"

inductive_simps link_run_simps [simp]: "link_run s [] s'" "link_run s (op # ops) s'"

fun link_fold :: "link_op list \<Rightarrow> LinkManager \<times> code_words \<Rightarrow> (LinkManager \<times> code_words) option" where
  "link_fold [] s = Some s"
| "link_fold (op # ops) s = Option.bind (link_exec op s) (link_fold ops)"

lemma link_run_iff: "link_run s ops s' \<longleftrightarrow> link_fold ops s = Some s'"
  by (induction ops arbitrary: s) (auto split: Option.bind_splits)

lemma PurgeSource_ok: "lm_ok lm \<Longrightarrow> PurgeSource w lm = Some (lm', n) \<Longrightarrow> lm_ok lm'"
  by (frule PurgeSource_cases [where w = w and thesis = "lm_ok lm'"]) auto

lemma link_exec_ok: "lm_ok (fst s) \<Longrightarrow> link_exec op s = Some s' \<Longrightarrow> lm_ok (fst s')"
proof (induction op s rule: link_exec.induct)
  case (2 t host rid w direct pending call cp contract lm m)
  then show ?case using PublishTarget_ok by fastforce
next
  case (3 k e commit s)
  then show ?case using MarkLinked_ok [of "fst s" k e commit "snd s"] by (cases s) fastforce
next
  case (7 w lm m)
  then show ?case using PurgeSource_ok by fastforce
next
  case (8 t s)
  then show ?case using SignalInvalidate_ok [of "fst s" t "snd s"] by (cases s) fastforce
qed (auto simp: RegisterSite_ok MarkFar_ok BeginTargetInvalidation_ok DetachSource_ok)

lemma link_run_ok: "link_run s ops s' \<Longrightarrow> lm_ok (fst s) \<Longrightarrow> lm_ok (fst s')"
  by (induction rule: link_run.induct) (auto dest: link_exec_ok)

section \<open>The effect of the operations on sites and targets\<close>

lemma map_of_set_signal_linked_sites:
  "map_of (sites (set_signal_linked k b (lm\<lparr>sites := AList.update k r (sites lm)\<rparr>))) = (map_of (sites lm))(k \<mapsto> r)"
  by (simp add: AList.update_conv')

lemma unlink_incoming_effect:
  assumes "distinct ks"
  shows "map_of (sites (fst (unlink_incoming ks lm))) k =
      (if k \<in> set ks then map_option unlink_record (map_of (sites lm) k) else map_of (sites lm) k)"
    "targets (fst (unlink_incoming ks lm)) = targets lm"
    "signal_targets_storage (fst (unlink_incoming ks lm)) = signal_targets_storage lm"
    "snd (unlink_incoming ks lm) = List.map_filter (map_of (sites lm)) ks"
proof -
  have "map_of (sites (fst (unlink_incoming ks lm))) k =
      (if k \<in> set ks then map_option unlink_record (map_of (sites lm) k) else map_of (sites lm) k) \<and>
    targets (fst (unlink_incoming ks lm)) = targets lm \<and>
    signal_targets_storage (fst (unlink_incoming ks lm)) = signal_targets_storage lm \<and>
    snd (unlink_incoming ks lm) = List.map_filter (map_of (sites lm)) ks"
    using assms
  proof (induction ks arbitrary: lm)
    case (Cons k' ks)
    show ?case
    proof (cases "map_of (sites lm) k'")
      case (Some r)
      let ?lm = "set_signal_linked k' False (lm\<lparr>sites := AList.update k' (unlink_record r) (sites lm)\<rparr>)"
      have "List.map_filter ((map_of (sites lm))(k' \<mapsto> unlink_record r)) ks = List.map_filter (map_of (sites lm)) ks"
        using Cons.prems by (auto simp: List.map_filter_def intro!: map_cong filter_cong)
      then show ?thesis using Cons.IH [of ?lm, unfolded map_of_set_signal_linked_sites] Cons.prems Some
        by (auto simp: case_prod_beta Let_def map_filter_simps simp del: fun_upd_apply) auto
    qed (use Cons in \<open>simp add: map_filter_simps\<close>)
  qed (simp add: map_filter_simps)
  then show "map_of (sites (fst (unlink_incoming ks lm))) k =
      (if k \<in> set ks then map_option unlink_record (map_of (sites lm) k) else map_of (sites lm) k)"
    "targets (fst (unlink_incoming ks lm)) = targets lm"
    "signal_targets_storage (fst (unlink_incoming ks lm)) = signal_targets_storage lm"
    "snd (unlink_incoming ks lm) = List.map_filter (map_of (sites lm)) ks" by blast+
qed

lemma BeginTargetInvalidation_effect:
  assumes ok: "lm_ok lm" and t: "map_of (targets lm) t = Some tr" and b: "BeginTargetInvalidation t lm = (lm', rs)"
  shows "map_of (sites lm') k = map_option (\<lambda>r. if guest_target r = t then unlink_record r else r) (map_of (sites lm) k)"
    "map_of (targets lm') = (map_of (targets lm))(t \<mapsto> tr\<lparr>tr_active := False\<rparr>)"
    "set rs = {r. guest_target r = t \<and> map_of (sites lm) (site r) = Some r}" "distinct (map site rs)"
proof -
  note i = lm_okD(3) [OF ok]
  obtain j where j: "tr_signal_target tr = Some j" using targets_okD(3) [OF lm_okD(6) [OF ok] t] by blast
  let ?lm = "upd_target j (\<lambda>st. st\<lparr>active_generation := 0\<rparr>) (lm\<lparr>targets := AList.update t (tr\<lparr>tr_active := False\<rparr>) (targets lm)\<rparr>)"
  define ks where "ks = (case map_of (incoming lm) t of None \<Rightarrow> [] | Some ks \<Rightarrow> ks)"
  have d: "distinct ks" using idx_okD(4) [OF i, of t] by (simp add: ks_def split: option.split)
  have e: "(lm', rs) = unlink_incoming ks ?lm"
    using b t j by (simp add: BeginTargetInvalidation_def Let_def ks_def split: option.splits)
  have mem: "k \<in> set ks \<longleftrightarrow> (\<exists>r. map_of (sites lm) k = Some r \<and> guest_target r = t)" for k
    using idx_okD(2) [OF i, of k] idx_okD(5) [OF i, of t _ k] by (cases "map_of (incoming lm) t") (auto simp: ks_def)
  note f = unlink_incoming_effect [OF d, of ?lm, folded e, simplified]
  show "map_of (sites lm') k = map_option (\<lambda>r. if guest_target r = t then unlink_record r else r) (map_of (sites lm) k)"
    using f(1) [of k] mem [of k] by (cases "map_of (sites lm) k") auto
  show "map_of (targets lm') = (map_of (targets lm))(t \<mapsto> tr\<lparr>tr_active := False\<rparr>)" using f(2) by (simp add: AList.update_conv')
  have "filter (\<lambda>x. map_of (sites lm) x \<noteq> None) ks = ks" using mem by (auto simp: filter_id_conv)
  then have rs: "rs = map (\<lambda>k. the (map_of (sites lm) k)) ks" using f(4) by (simp add: List.map_filter_def comp_def)
  show "set rs = {r. guest_target r = t \<and> map_of (sites lm) (site r) = Some r}"
  proof (intro set_eqI iffI)
    fix r assume "r \<in> set rs"
    then obtain k where k: "k \<in> set ks" "r = the (map_of (sites lm) k)" by (auto simp: rs)
    obtain r' where r': "map_of (sites lm) k = Some r'" "guest_target r' = t" using mem [of k] k(1) by blast
    then have "r = r'" "site r = k" using k(2) idx_okD(1) [OF i r'(1)] by simp_all
    then show "r \<in> {r. guest_target r = t \<and> map_of (sites lm) (site r) = Some r}" using r' by simp
  next
    fix r assume "r \<in> {r. guest_target r = t \<and> map_of (sites lm) (site r) = Some r}"
    then have "site r \<in> set ks" "the (map_of (sites lm) (site r)) = r" using mem [of "site r"] by auto
    then show "r \<in> set rs" unfolding rs by force
  qed
  have "site (the (map_of (sites lm) k)) = k" if "k \<in> set ks" for k using that mem [of k] idx_okD(1) [OF i, of k] by auto
  then have "map site rs = ks" unfolding rs by (simp add: map_idI)
  then show "distinct (map site rs)" using d by simp
qed

lemma publish_signal_site_frame:
  "sites (publish_signal_site k t p lm) = sites lm" "targets (publish_signal_site k t p lm) = targets lm"
  by (simp_all add: publish_signal_site_def GetOrCreateSignalTargetLocked_def Let_def split: option.split)

lemma RegisterSite_effect:
  "map_of (sites (fst (RegisterSite k t w sp knd ef lm))) =
     (if register_accepts k w sp knd ef lm then (map_of (sites lm))(k \<mapsto> new_site_record k t w sp knd ef) else map_of (sites lm))"
  "targets (fst (RegisterSite k t w sp knd ef lm)) = targets lm"
  by (simp_all add: RegisterSite_def Let_def AList.update_conv' publish_signal_site_frame split: option.split)

lemma retire_sites_targets: "targets (fst (retire_sites ks lm)) = targets lm"
  using retire_sites(2) [of ks lm] by auto

lemma SignalInvalidate_frame:
  assumes "SignalInvalidateTarget t (lm, m) = Some ((lm', m'), b, n)"
  shows "sites lm' = sites lm" "targets lm' = targets lm" "signal_sites lm' = signal_sites lm"
    "same_nodes (signal_sites_storage lm) (signal_sites_storage lm')"
proof -
  have "sites lm' = sites lm \<and> targets lm' = targets lm \<and> signal_sites lm' = signal_sites lm \<and>
    same_nodes (signal_sites_storage lm) (signal_sites_storage lm')" using assms
  proof (cases rule: SignalInvalidate_cases)
    case (found i lm3 m3 lm4 c)
    obtain ss where "lm3 = (signal_deactivate i lm)\<lparr>signal_sites_storage := ss\<rparr>" "same_nodes (signal_sites_storage lm) ss"
      using restore_sites_frame [OF found(3)] by auto
    moreover obtain ss' where "lm4 = lm3\<lparr>signal_sites_storage := ss'\<rparr>" "same_nodes (signal_sites_storage lm3) ss'"
      using restore_sites_frame [OF found(4)] by blast
    ultimately show ?thesis using found(5) same_nodes_trans by auto
  qed simp
  then show "sites lm' = sites lm" "targets lm' = targets lm" "signal_sites lm' = signal_sites lm"
    "same_nodes (signal_sites_storage lm) (signal_sites_storage lm')" by blast+
qed

section \<open>Invalidated targets\<close>

text \<open>A target is quiet when it is not active and no site that jumps to it is linked or far.\<close>

definition quiet :: "u64 \<Rightarrow> LinkManager \<Rightarrow> bool" where
  "quiet t lm \<longleftrightarrow>
     (\<forall>tr. map_of (targets lm) t = Some tr \<longrightarrow> \<not> tr_active tr) \<and>
     (\<forall>k r. map_of (sites lm) k = Some r \<longrightarrow> guest_target r = t \<longrightarrow> site_state r = Unlinked \<or> site_state r = Retiring)"

lemma quietI:
  assumes "\<And>tr. map_of (targets lm) t = Some tr \<Longrightarrow> \<not> tr_active tr"
    "\<And>k r. map_of (sites lm) k = Some r \<Longrightarrow> guest_target r = t \<Longrightarrow> site_state r = Unlinked \<or> site_state r = Retiring"
  shows "quiet t lm"
  using assms by (auto simp: quiet_def)

lemma quietD:
  assumes "quiet t lm"
  shows "map_of (targets lm) t = Some tr \<Longrightarrow> \<not> tr_active tr"
    "map_of (sites lm) k = Some r \<Longrightarrow> guest_target r = t \<Longrightarrow> site_state r = Unlinked \<or> site_state r = Retiring"
  using assms by (auto simp: quiet_def)

lemma quiet_QueryTarget: "quiet t lm \<Longrightarrow> QueryTarget lm t = None"
  by (auto simp: quiet_def QueryTarget_def split: option.split)

lemma quiet_sites_update:
  assumes q: "quiet t lm" and s: "map_of (sites lm') = (map_of (sites lm))(k \<mapsto> r)" "targets lm' = targets lm"
    and r: "guest_target r \<noteq> t \<or> site_state r = Unlinked \<or> site_state r = Retiring"
  shows "quiet t lm'"
  by (rule quietI) (use quietD [OF q] s r in \<open>auto split: if_splits\<close>)

lemma BeginTargetInvalidation_quiet:
  assumes ok: "lm_ok lm" and q: "quiet t lm"
  shows "quiet t (fst (BeginTargetInvalidation t' lm))"
proof (cases "map_of (targets lm) t'")
  case (Some tr)
  obtain lm' rs where b: "BeginTargetInvalidation t' lm = (lm', rs)" by fastforce
  note e = BeginTargetInvalidation_effect(1,2) [OF ok Some b]
  show ?thesis unfolding b fst_conv
  proof (rule quietI)
    fix k r assume "map_of (sites lm') k = Some r" "guest_target r = t"
    then obtain r0 where "map_of (sites lm) k = Some r0" "r = (if guest_target r0 = t' then unlink_record r0 else r0)"
      by (auto simp: e(1))
    then show "site_state r = Unlinked \<or> site_state r = Retiring"
      using quietD(2) [OF q, of k r0] \<open>guest_target r = t\<close> by (auto simp: unlink_record_def split: if_splits)
  qed (use quietD(1) [OF q] in \<open>auto simp: e(2) split: if_splits\<close>)
qed (simp add: BeginTargetInvalidation_def q)

lemma BeginTargetInvalidation_makes_quiet:
  assumes ok: "lm_ok lm" and t: "map_of (targets lm) t = Some tr"
  shows "quiet t (fst (BeginTargetInvalidation t lm))"
proof -
  obtain lm1 rs where b: "BeginTargetInvalidation t lm = (lm1, rs)" by fastforce
  note e = BeginTargetInvalidation_effect [OF ok t b]
  show ?thesis unfolding b fst_conv
  proof (rule quietI)
    fix k r assume r: "map_of (sites lm1) k = Some r" "guest_target r = t"
    obtain z where "r = (if guest_target z = t then unlink_record z else z)" using r(1) e(1) [of k] by auto
    then show "site_state r = Unlinked \<or> site_state r = Retiring"
      using r(2) by (cases "guest_target z = t") (simp_all add: unlink_record_def)
  qed (auto simp: e(2))
qed

lemma MarkLinked_quiet:
  assumes q: "quiet t lm" and s: "MarkLinked k e commit (lm, m) = Some ((lm', m'), b)"
  shows "quiet t lm'"
  using s
proof (cases rule: MarkLinked_cases)
  case (valid r tr cm m1 m2)
  have "guest_target r \<noteq> t" using quietD(1) [OF q] valid(3,4) by blast
  then have "quiet t (linked_manager k (linked_record e r tr) lm)"
    by (intro quiet_sites_update [OF q, of _ k "linked_record e r tr"]) (simp_all add: linked_manager_def linked_record_def AList.update_conv')
  then show ?thesis using valid(10) q by (simp split: if_splits)
qed (use q in simp)

lemma MarkFar_quiet:
  assumes q: "quiet t lm"
  shows "quiet t (fst (MarkFar k e lm))"
proof (cases "ValidateMarkLocked lm k e")
  case (Some r)
  then have "guest_target r \<noteq> t" using quietD(1) [OF q] by (auto simp: ValidateMarkLocked_def split: option.splits if_splits)
  then show ?thesis
    by (intro quiet_sites_update [OF q, of _ k "r\<lparr>target_generation := e, site_state := Far, pending_flags_compatible := False\<rparr>"])
      (simp_all add: MarkFar_def Some AList.update_conv')
qed (simp add: MarkFar_def q)

lemma DetachSource_quiet:
  assumes q: "quiet t lm"
  shows "quiet t (fst (DetachSource w lm))"
proof (cases "map_of (outgoing lm) w")
  case (Some out)
  let ?lm = "lm\<lparr>outgoing := AList.update w (out\<lparr>out_retiring := True\<rparr>) (outgoing lm)\<rparr>"
  have e: "fst (DetachSource w lm) = fst (retire_sites (out_sites out) ?lm)" by (simp add: DetachSource_def Some)
  show ?thesis unfolding e
    by (rule quietI) (use quietD [OF q] in \<open>auto simp: retire_sites(1) retire_sites_targets split: if_splits\<close>)
qed (simp add: DetachSource_def q)

lemma PurgeSource_quiet:
  assumes ok: "lm_ok lm" and q: "quiet t lm" and p: "PurgeSource w lm = Some (lm', n)"
  shows "quiet t lm'"
  using ok
proof (cases rule: PurgeSource_cases [where w = w])
  case (purged out lm'' n')
  then have "lm'' = lm'" using p by simp
  then show ?thesis
    by (intro quietI) (use quietD [OF q] purged(5,7) in \<open>auto simp: restrict_map_def split: if_splits option.splits\<close>)
qed (use q p in simp_all)

lemma PublishTarget_quiet:
  assumes ok: "lm_ok lm" and q: "quiet t lm" and t: "t' \<noteq> t"
    and p: "PublishTarget t' host rid w direct pending call cp contract lm = Some (lm', g)"
  shows "quiet t lm'"
  using ok p
proof (rule PublishTarget_Some)
  fix tr assume "targets lm' = AList.update t' tr (targets lm)" "sites lm' = sites lm"
  then show ?thesis using q t by (simp add: quiet_def AList.update_conv')
qed

definition publishes :: "u64 \<Rightarrow> link_op \<Rightarrow> bool" where
  "publishes t op = (case op of OpPublish t' _ _ _ _ _ _ _ _ \<Rightarrow> t' = t | _ \<Rightarrow> False)"

lemma link_exec_quiet:
  assumes ok: "lm_ok (fst s)" and q: "quiet t (fst s)" and p: "\<not> publishes t op" and e: "link_exec op s = Some s'"
  shows "quiet t (fst s')"
  using assms
proof (induction op s rule: link_exec.induct)
  case (1 k t' w sp knd ef lm m)
  show ?case
  proof (cases "register_accepts k w sp knd ef lm")
    case True
    then show ?thesis using 1
      by (auto intro!: quiet_sites_update [of t lm _ k "new_site_record k t' w sp knd ef"] simp: RegisterSite_effect new_site_record_def)
  qed (use 1 in \<open>auto simp: RegisterSite_def\<close>)
next
  case (2 t' host rid w direct pending call cp contract lm m)
  then show ?case using PublishTarget_quiet by (fastforce simp: publishes_def)
next
  case (3 k e commit s)
  then show ?case using MarkLinked_quiet [of t "fst s" k e commit "snd s"] by (cases s) fastforce
next
  case (7 w lm m)
  then show ?case using PurgeSource_quiet by fastforce
next
  case (8 t' s)
  then show ?case using SignalInvalidate_frame [of t' "fst s" "snd s"] by (cases s) (fastforce simp: quiet_def)
qed (auto simp: MarkFar_quiet BeginTargetInvalidation_quiet DetachSource_quiet)

lemma link_run_quiet:
  "link_run s ops s' \<Longrightarrow> lm_ok (fst s) \<Longrightarrow> quiet t (fst s) \<Longrightarrow> \<forall>op \<in> set ops. \<not> publishes t op \<Longrightarrow> quiet t (fst s')"
  by (induction rule: link_run.induct) (auto dest: link_exec_ok link_exec_quiet)

section \<open>Retirement of a source\<close>

lemma retire_sites_count: "snd (retire_sites ks lm) = length (filter (\<lambda>k. map_of (sites lm) k \<noteq> None) ks)"
proof (induction ks arbitrary: lm)
  case (Cons k ks)
  have "map_of (AList.update k r (sites lm)) k' \<noteq> None \<longleftrightarrow> map_of (sites lm) k' \<noteq> None" if "map_of (sites lm) k \<noteq> None" for k' r
    using that by (simp add: AList.update_conv')
  then show ?case using Cons by (cases "map_of (sites lm) k") (simp_all add: case_prod_beta Let_def)
qed simp

lemma purge_sites_count:
  "purge_ok D lm \<Longrightarrow> distinct ks \<Longrightarrow> snd (purge_sites ks lm) = length (filter (\<lambda>k. map_of (sites lm) k \<noteq> None) ks)"
proof (induction ks arbitrary: lm)
  case (Cons k ks)
  show ?case
  proof (cases "map_of (sites lm) k")
    case (Some r)
    note p = purge_site_ok(1,2) [OF Cons.prems(1) Some]
    have "filter (\<lambda>k'. map_of (sites (purge_site k r lm)) k' \<noteq> None) ks = filter (\<lambda>k'. map_of (sites lm) k' \<noteq> None) ks"
      using Cons.prems(2) by (intro filter_cong) (auto simp: p(2))
    then show ?thesis using Cons.IH [OF p(1)] Cons.prems(2) Some by (simp add: case_prod_beta Let_def)
  qed (use Cons in simp)
qed simp

lemma PurgeSource_count:
  assumes ok: "lm_ok lm" and out: "map_of (outgoing lm) w = Some out" "out_retiring out" and p: "PurgeSource w lm = Some (lm', n)"
  shows "n = length (out_sites out)"
proof -
  note i = lm_okD(3) [OF ok]
  let ?lm1 = "tombstone_sites (out_sites out) lm"
  have p1: "purge_ok (set (out_sites out)) ?lm1"
    using lm_okD(1,2,4,6,8) [OF ok] lm_okD(7) [OF ok] i nodes_ok_tombstone [OF lm_okD(5) [OF ok], of "out_sites out"]
    by (simp add: purge_ok_def tombstone_sites idx_ok_def)
  have a: "map_of (sites lm) k \<noteq> None" if "k \<in> set (out_sites out)" for k using idx_okD(7) [OF i out(1) that] by auto
  have "\<not> (\<exists>k \<in> set (out_sites out). case map_of (sites lm) k of None \<Rightarrow> True | Some r \<Rightarrow> site_state r \<noteq> Retiring)"
  proof
    assume "\<exists>k \<in> set (out_sites out). case map_of (sites lm) k of None \<Rightarrow> True | Some r \<Rightarrow> site_state r \<noteq> Retiring"
    then obtain k r where k: "k \<in> set (out_sites out)" "map_of (sites lm) k = Some r" "site_state r \<noteq> Retiring"
      using a by (auto split: option.splits)
    then have "source_owner r = w" using idx_okD(7) [OF i out(1) k(1)] by simp
    then show False using idx_okD(3) [OF i k(2)] out k(3) by simp
  qed
  then have "n = snd (purge_sites (out_sites out) ?lm1)"
    using p out lm_okD(8) [OF ok] by (simp add: PurgeSource_def Let_def case_prod_beta tombstone_sites)
  also have "\<dots> = length (filter (\<lambda>k. map_of (sites lm) k \<noteq> None) (out_sites out))"
    using purge_sites_count [OF p1 idx_okD(6) [OF i out(1)]] by (simp add: tombstone_sites)
  also have "filter (\<lambda>k. map_of (sites lm) k \<noteq> None) (out_sites out) = out_sites out" using a by (simp add: filter_id_conv)
  finally show ?thesis .
qed

lemma DetachSource_effect:
  assumes ok: "lm_ok lm" and out: "map_of (outgoing lm) w = Some out" and d: "DetachSource w lm = (lm', n)"
  shows "n = length (out_sites out)" "map_of (outgoing lm') w = Some (out\<lparr>out_retiring := True\<rparr>)"
    "map_of (sites lm') k = map_option (\<lambda>r. if source_owner r = w then r\<lparr>site_state := Retiring\<rparr> else r) (map_of (sites lm) k)"
    "targets lm' = targets lm"
proof -
  note i = lm_okD(3) [OF ok]
  let ?lm = "lm\<lparr>outgoing := AList.update w (out\<lparr>out_retiring := True\<rparr>) (outgoing lm)\<rparr>"
  have e: "(lm', n) = retire_sites (out_sites out) ?lm" using d out by (simp add: DetachSource_def)
  obtain xs where xs: "lm' = ?lm\<lparr>sites := xs\<rparr>" using retire_sites(2) [of "out_sites out" ?lm] by (auto simp flip: e)
  show "map_of (outgoing lm') w = Some (out\<lparr>out_retiring := True\<rparr>)" "targets lm' = targets lm" by (simp_all add: xs AList.update_conv')
  have a: "k \<in> set (out_sites out) \<longleftrightarrow> (\<exists>r. map_of (sites lm) k = Some r \<and> source_owner r = w)" for k
    using idx_okD(3) [OF i, of k] idx_okD(7) [OF i out, of k] out by auto
  have "filter (\<lambda>k. map_of (sites lm) k \<noteq> None) (out_sites out) = out_sites out" using a by (auto simp: filter_id_conv)
  then show "n = length (out_sites out)" using retire_sites_count [of "out_sites out" ?lm] by (simp flip: e)
  show "map_of (sites lm') k = map_option (\<lambda>r. if source_owner r = w then r\<lparr>site_state := Retiring\<rparr> else r) (map_of (sites lm) k)"
    using retire_sites(1) [of "out_sites out" ?lm k] a [of k] by (cases "map_of (sites lm) k") (auto simp flip: e)
qed

section \<open>Words written by signal invalidation\<close>

lemma linked_nth [simp]:
  "patch (ns[i := (ns ! i)\<lparr>ss_linked := b\<rparr>] ! n) = patch (ns ! n)"
  "ss_live (ns[i := (ns ! i)\<lparr>ss_linked := b\<rparr>] ! n) = ss_live (ns ! n)"
proof -
  show "patch (ns[i := (ns ! i)\<lparr>ss_linked := b\<rparr>] ! n) = patch (ns ! n)"
    by (cases "i = n"; cases "i < length ns"; simp add: list_update_beyond)
  show "ss_live (ns[i := (ns ! i)\<lparr>ss_linked := b\<rparr>] ! n) = ss_live (ns ! n)"
    by (cases "i = n"; cases "i < length ns"; simp add: list_update_beyond)
qed

definition node_at :: "LinkManager \<Rightarrow> nat \<Rightarrow> LinkSignalPatchSite" where
  "node_at lm n = patch (signal_sites_storage lm ! n)"

definition patchable :: "LinkSignalPatchSite \<Rightarrow> bool" where
  "patchable p = (ContainsRx (sp_region p) (sp_rx_site p) \<and> ContainsRw (sp_region p) (sp_rw_site p) \<and>
     SiteRxToRw (sp_region p) (sp_rx_site p) = sp_rw_site p \<and> sp_rx_site p AND 3 = 0 \<and> sp_rw_site p AND 3 = 0 \<and>
     unlinked_bl p AND kBranchOpcodeMask = kBranchOpcode)"

lemma patchable_write:
  "patchable p \<Longrightarrow> PatchDirectBranch (sp_region p) (sp_rx_site p) (sp_rw_site p) (unlinked_bl p) m =
     Some (m(sp_rw_site p := unlinked_bl p), True)"
  by (simp add: patchable_def PatchDirectBranch_def PatchCodeWord_def)

lemma restore_sites_words:
  assumes "\<And>n. n \<in> set ns \<Longrightarrow> ss_live (signal_sites_storage lm ! n) \<and> patchable (node_at lm n)"
    and "\<And>n n'. n \<in> set ns \<Longrightarrow> n' \<in> set ns \<Longrightarrow> sp_rw_site (node_at lm n) = sp_rw_site (node_at lm n') \<Longrightarrow>
      unlinked_bl (node_at lm n) = unlinked_bl (node_at lm n')"
  shows "\<exists>lm' m' cnt. restore_sites c ns (lm, m) = Some ((lm', m'), cnt) \<and>
    (\<forall>n \<in> set ns. m' (sp_rw_site (node_at lm n)) = unlinked_bl (node_at lm n)) \<and>
    (\<forall>a. a \<notin> (\<lambda>n. sp_rw_site (node_at lm n)) ` set ns \<longrightarrow> m' a = m a)"
  using assms
proof (induction ns arbitrary: lm m)
  case (Cons n ns)
  let ?lm = "if c then upd_site n (\<lambda>s. s\<lparr>ss_linked := False\<rparr>) lm else lm" and ?p = "node_at lm n"
  let ?m = "m(sp_rw_site ?p := unlinked_bl ?p)"
  have at: "node_at ?lm k = node_at lm k" "ss_live (signal_sites_storage ?lm ! k) = ss_live (signal_sites_storage lm ! k)" for k
    by (simp_all add: node_at_def)
  obtain lm' m' cnt where r: "restore_sites c ns (?lm, ?m) = Some ((lm', m'), cnt)"
    "\<forall>n \<in> set ns. m' (sp_rw_site (node_at lm n)) = unlinked_bl (node_at lm n)"
    "\<forall>a. a \<notin> (\<lambda>n. sp_rw_site (node_at lm n)) ` set ns \<longrightarrow> m' a = ?m a"
    using Cons.IH [of ?lm ?m] Cons.prems unfolding at by (metis list.set_intros(2))
  have "restore_sites c (n # ns) (lm, m) = Some ((lm', m'), (if c \<and> ss_linked (signal_sites_storage lm ! n) then 1 else 0) + cnt)"
    using Cons.prems(1) [of n] patchable_write [of ?p m] r(1) by (simp add: Let_def node_at_def)
  moreover have "m' (sp_rw_site ?p) = unlinked_bl ?p"
  proof (cases "sp_rw_site ?p \<in> (\<lambda>n. sp_rw_site (node_at lm n)) ` set ns")
    case True
    then obtain n' where "n' \<in> set ns" "sp_rw_site ?p = sp_rw_site (node_at lm n')" by blast
    then show ?thesis using r(2) Cons.prems(2) [of n n'] by simp
  qed (use r(3) in simp)
  moreover have "m' a = m a" if "a \<notin> (\<lambda>n. sp_rw_site (node_at lm n)) ` set (n # ns)" for a using r(3) that by simp
  ultimately show ?case using r(2) by auto
qed simp

lemma SignalInvalidate_query:
  assumes ok: "lm_ok lm" and e: "SignalInvalidateTarget t (lm, m) = Some ((lm', m'), b, n)"
  shows "QueryTarget lm' t = None"
proof (cases "map_of (targets lm) t")
  case t: (Some tr)
  note tk = targets_okD [OF lm_okD(6) [OF ok]]
  obtain j where j: "tr_signal_target tr = Some j" "j < length (signal_targets_storage lm)" "st_guest_target (signal_targets_storage lm ! j) = t"
    using tk(3) [OF t] by blast
  have f: "FindSignalTarget lm t = Some j" using Find_iff [OF lm_okD(4) [OF ok]] j(2,3) by blast
  have "active_generation (signal_targets_storage lm' ! j) = 0 \<or> active_generation (signal_targets_storage lm' ! j) = kSignalInvalidatingGeneration"
    using e
  proof (cases rule: SignalInvalidate_cases)
    case (found i lm3 m3 lm4 c)
    have "signal_targets_storage lm' = signal_targets_storage (signal_deactivate j lm)"
      using restore_sites_frame [OF found(3)] restore_sites_frame [OF found(4)] found(1,5) f by auto
    then show ?thesis using j(2) by (auto simp: signal_deactivate_def Let_def)
  qed (use f in simp)
  moreover have "tr_generation tr < next_target_generation lm" "0 < tr_generation tr" using tk(2) [OF t] by simp_all
  then have "tr_generation tr \<noteq> 0" "tr_generation tr \<noteq> kSignalInvalidatingGeneration"
    using word_order.extremum [of "next_target_generation lm"] by (auto simp: kSignalInvalidatingGeneration_def not_less)
  ultimately show ?thesis using j(1) SignalInvalidate_frame(2) [OF e] t by (auto simp: QueryTarget_def signal_generation_def)
qed (use SignalInvalidate_frame(2) [OF e] in \<open>simp add: QueryTarget_def\<close>)

definition code_sites_ok :: "LinkManager \<Rightarrow> bool" where
  "code_sites_ok lm \<longleftrightarrow>
     (\<forall>n < length (signal_sites_storage lm). patchable (node_at lm n)) \<and>
     (\<forall>n < length (signal_sites_storage lm). \<forall>n' < length (signal_sites_storage lm).
        sp_rw_site (node_at lm n) = sp_rw_site (node_at lm n') \<longrightarrow> unlinked_bl (node_at lm n) = unlinked_bl (node_at lm n'))"

lemma restore_twice:
  assumes live: "\<And>n. n \<in> set ns \<Longrightarrow> n < length (signal_sites_storage lm) \<and> ss_live (signal_sites_storage lm ! n)" and c: "code_sites_ok lm"
  obtains lm3 m3 cnt lm4 m4 c4 where "restore_sites True ns (lm, m) = Some ((lm3, m3), cnt)" "restore_sites False ns (lm3, m3) = Some ((lm4, m4), c4)"
    "\<And>n. n \<in> set ns \<Longrightarrow> m4 (sp_rw_site (node_at lm n)) = unlinked_bl (node_at lm n)"
    "\<And>a. a \<notin> (\<lambda>n. sp_rw_site (node_at lm n)) ` set ns \<Longrightarrow> m4 a = m a"
proof -
  have pre: "ss_live (signal_sites_storage lm ! n) \<and> patchable (node_at lm n)" if "n \<in> set ns" for n
    using live [OF that] c by (simp add: code_sites_ok_def)
  have agree: "unlinked_bl (node_at lm n) = unlinked_bl (node_at lm n')"
    if "n \<in> set ns" "n' \<in> set ns" "sp_rw_site (node_at lm n) = sp_rw_site (node_at lm n')" for n n'
    using live that c unfolding code_sites_ok_def by blast
  obtain lm3 m3 cnt where r3: "restore_sites True ns (lm, m) = Some ((lm3, m3), cnt)"
    "\<forall>a. a \<notin> (\<lambda>n. sp_rw_site (node_at lm n)) ` set ns \<longrightarrow> m3 a = m a"
    using restore_sites_words [OF pre agree, of ns True m] by blast
  obtain ss where ss: "lm3 = lm\<lparr>signal_sites_storage := ss\<rparr>" "same_nodes (signal_sites_storage lm) ss"
    using restore_sites_frame [OF r3(1)] by blast
  have at: "node_at lm3 n = node_at lm n" "ss_live (signal_sites_storage lm3 ! n) = ss_live (signal_sites_storage lm ! n)" if "n \<in> set ns" for n
    using same_nodesD(2) [OF ss(2)] live [OF that] by (simp_all add: node_at_def ss(1))
  have pre3: "ss_live (signal_sites_storage lm3 ! n) \<and> patchable (node_at lm3 n)" if "n \<in> set ns" for n using pre [OF that] at [OF that] by simp
  have agree3: "unlinked_bl (node_at lm3 n) = unlinked_bl (node_at lm3 n')"
    if "n \<in> set ns" "n' \<in> set ns" "sp_rw_site (node_at lm3 n) = sp_rw_site (node_at lm3 n')" for n n'
    using agree [OF that(1,2)] that(3) at(1) [OF that(1)] at(1) [OF that(2)] by simp
  obtain lm4 m4 c4 where r4: "restore_sites False ns (lm3, m3) = Some ((lm4, m4), c4)"
    "\<forall>n \<in> set ns. m4 (sp_rw_site (node_at lm3 n)) = unlinked_bl (node_at lm3 n)"
    "\<forall>a. a \<notin> (\<lambda>n. sp_rw_site (node_at lm3 n)) ` set ns \<longrightarrow> m4 a = m3 a"
    using restore_sites_words [OF pre3 agree3, of ns False m3] by blast
  have img: "(\<lambda>n. sp_rw_site (node_at lm3 n)) ` set ns = (\<lambda>n. sp_rw_site (node_at lm n)) ` set ns" using at(1) by (intro image_cong) simp_all
  show ?thesis
    by (rule that [OF r3(1) r4(1)]) (use r3(2) r4(2,3) at(1) img in simp_all)
qed

lemma SignalInvalidate_words:
  assumes ok: "lm_ok lm" and f: "FindSignalTarget lm t = Some i" and c: "code_sites_ok lm"
  obtains lm' m' cnt where "SignalInvalidateTarget t (lm, m) = Some ((lm', m'), True, cnt)"
    "\<And>n. n \<in> set (st_sites (signal_targets_storage lm ! i)) \<Longrightarrow> m' (sp_rw_site (node_at lm n)) = unlinked_bl (node_at lm n)"
    "\<And>a. \<forall>n < length (signal_sites_storage lm). a \<noteq> sp_rw_site (node_at lm n) \<Longrightarrow> m' a = m a"
proof -
  let ?ns = "st_sites (signal_targets_storage lm ! i)" and ?lm = "signal_deactivate i lm"
  have i: "i < length (signal_targets_storage lm)" using Find_iff [OF lm_okD(4) [OF ok], of t i] f by simp
  have live: "n < length (signal_sites_storage lm) \<and> ss_live (signal_sites_storage lm ! n)" if "n \<in> set ?ns" for n
    using nodes_okD(1,2,6) [OF lm_okD(5) [OF ok]] i that by (metis empty_iff)
  have at: "node_at ?lm n = node_at lm n" for n by (simp add: node_at_def)
  have c': "code_sites_ok ?lm" using c unfolding code_sites_ok_def at signal_deactivate_simps .
  show ?thesis
  proof (rule restore_twice [where m = m, of ?ns ?lm, OF _ c', unfolded signal_deactivate_simps at, OF live], assumption)
    fix lm3 m3 cnt lm4 m4 c4
    assume r: "restore_sites True ?ns (?lm, m) = Some ((lm3, m3), cnt)" "restore_sites False ?ns (lm3, m3) = Some ((lm4, m4), c4)"
      "\<And>n. n \<in> set ?ns \<Longrightarrow> m4 (sp_rw_site (node_at lm n)) = unlinked_bl (node_at lm n)"
      "\<And>a. a \<notin> (\<lambda>n. sp_rw_site (node_at lm n)) ` set ?ns \<Longrightarrow> m4 a = m a"
    have "signal_targets_storage lm3 = signal_targets_storage ?lm" using restore_sites_frame [OF r(1)] by auto
  then have "SignalInvalidateTarget t (lm, m) =
      Some ((if cnt \<noteq> 0 then lm4\<lparr>signal_delinks := signal_delinks lm4 + of_nat cnt\<rparr> else lm4, m4), True, cnt)"
    using r(1,2) by (simp add: SignalInvalidateTarget_def Let_def f)
  moreover have "m4 a = m a" if "\<forall>n < length (signal_sites_storage lm). a \<noteq> sp_rw_site (node_at lm n)" for a
    using r(4) [of a] that live by blast
  ultimately show ?thesis using that r(3) by blast
  qed
qed

section \<open>A sample history\<close>

text \<open>
  Two sites of one source jump to guest address 0x1000; a target is published there, and the first
  site is linked to it by writing a branch word.
\<close>

definition sample_region :: CodeRegion where
  "sample_region = \<lparr>region_id = 7, rw_base = 0x20000, rx_base = 0x40000, capacity = 0x1000, trampoline_offset = 0,
     pending_flags_trampoline_offset = 0x40, return_trampoline_offset = 0x80\<rparr>"

definition sample_patch :: "u64 \<Rightarrow> LinkSignalPatchSite" where
  "sample_patch off = \<lparr>sp_region = sample_region, sp_rx_site = 0x40000 + off, sp_rw_site = 0x20000 + off, unlinked_bl = 0x97FFFFC0,
     flags_bypass = \<lparr>bp_rx_site = 0, bp_rw_site = 0, unlinked_instruction = 0, linked_instruction = 0\<rparr>\<rparr>"

definition sample_key :: "u32 \<Rightarrow> LinkSiteKey" where
  "sample_key off = \<lparr>key_region_id = 7, key_offset = off\<rparr>"

definition sample_owner :: LinkSourceOwner where
  "sample_owner = \<lparr>owner_module = 1, owner_allocation = 0x40100\<rparr>"

definition sample_target_owner :: LinkSourceOwner where
  "sample_target_owner = \<lparr>owner_module = 1, owner_allocation = 0x40400\<rparr>"

definition sample_commit :: "u64 \<Rightarrow> u32 \<Rightarrow> LinkCommit" where
  "sample_commit a insn = (\<lambda>_ m. Some (m(a := insn), True))"

definition sample_ops :: "link_op list" where
  "sample_ops =
     [OpRegister (sample_key 0x100) 0x1000 sample_owner (Some (sample_patch 0x100)) Unconditional EdgeFlags_default,
      OpRegister (sample_key 0x104) 0x1000 sample_owner (Some (sample_patch 0x104)) LinkCall EdgeFlags_default,
      OpPublish 0x1000 0x40400 7 sample_target_owner 0 0 0 0 EdgeContract_default,
      OpLink (sample_key 0x100) 1 (Some (sample_commit 0x20100 0x140000C0))]"

definition sample_link_state :: "LinkManager \<times> code_words" where
  "sample_link_state = the (link_fold sample_ops (LinkManager_new, (\<lambda>_. 0)))"

lemma sample_link_run: "link_run (LinkManager_new, (\<lambda>_. 0)) sample_ops (fst sample_link_state, snd sample_link_state)"
proof -
  have "link_fold sample_ops (LinkManager_new, (\<lambda>_. 0)) \<noteq> None" by code_simp
  then show ?thesis unfolding link_run_iff sample_link_state_def by simp
qed

section \<open>The contract of the link manager\<close>

lemma reachable_ok: "link_run (LinkManager_new, m0) ops (lm, m) \<Longrightarrow> lm_ok lm"
  using link_run_ok [of "(LinkManager_new, m0)" ops "(lm, m)"] lm_ok_new by simp

text \<open>C10. Along every sequence of operations of the link manager, started empty, its indexes agree: a
  site is in the incoming index of its target and in the outgoing index of its owner and nowhere else,
  an owner is retiring exactly when its sites are, and the generation published to the signal handler
  is that of an active target.\<close>

theorem link_manager_invariant:
  assumes "link_run (LinkManager_new, m0) ops (lm, m)"
  shows "(\<forall>k r. QuerySite lm k = Some r \<longrightarrow>
      site r = k \<and> (\<exists>ks. map_of (incoming lm) (guest_target r) = Some ks \<and> k \<in> set ks) \<and>
      (\<exists>out. map_of (outgoing lm) (source_owner r) = Some out \<and> k \<in> set (out_sites out) \<and> out_retiring out = (site_state r = Retiring))) \<and>
    (\<forall>t ks k. map_of (incoming lm) t = Some ks \<longrightarrow> k \<in> set ks \<longrightarrow> (\<exists>r. QuerySite lm k = Some r \<and> guest_target r = t)) \<and>
    (\<forall>w out k. map_of (outgoing lm) w = Some out \<longrightarrow> k \<in> set (out_sites out) \<longrightarrow> (\<exists>r. QuerySite lm k = Some r \<and> source_owner r = w)) \<and>
    (\<forall>t g. QueryTargetGeneration lm t = Some g \<longrightarrow> ValidateTargetGeneration lm t g \<and> 0 < g \<and> g < next_target_generation lm)"
proof -
  have ok: "lm_ok lm" using reachable_ok [OF assms] .
  note i = idx_okD [OF lm_okD(3) [OF ok]]
  have "ValidateTargetGeneration lm t g \<and> 0 < g \<and> g < next_target_generation lm" if "QueryTargetGeneration lm t = Some g" for t g
    using that targets_okD(2) [OF lm_okD(6) [OF ok], of t]
    by (auto simp: QueryTargetGeneration_def ValidateTargetGeneration_def split: option.splits if_splits)
  then show ?thesis unfolding QuerySite_def using i(1,2,3,5,7) by blast
qed

theorem link_manager_invariant_witness:
  "QueryTargetGeneration (fst sample_link_state) 0x1000 = Some 1 \<and> ValidateTargetGeneration (fst sample_link_state) 0x1000 1 \<and>
   length (sites (fst sample_link_state)) = 2"
proof -
  have q: "QueryTargetGeneration (fst sample_link_state) 0x1000 = Some 1" by code_simp
  have "length (sites (fst sample_link_state)) = 2" by code_simp
  with q link_manager_invariant [OF sample_link_run] show ?thesis by blast
qed

text \<open>C3. Once a target is invalidated, no site is linked to it again until it is published again,
  whatever else happens; and the invalidation returns exactly the sites that jump to it.\<close>

theorem invalidated_target_not_relinked:
  assumes "link_run (LinkManager_new, m0) ops0 (lm, m)" "t \<in> fst ` set (targets lm)"
    and "link_run (fst (BeginTargetInvalidation t lm), m) ops (lm2, m2)" "\<forall>op \<in> set ops. \<not> publishes t op"
  shows "set (snd (BeginTargetInvalidation t lm)) = {r. QuerySite lm (site r) = Some r \<and> guest_target r = t} \<and>
    QueryTarget lm2 t = None \<and>
    (\<forall>k r. QuerySite lm2 k = Some r \<longrightarrow> guest_target r = t \<longrightarrow> site_state r = Unlinked \<or> site_state r = Retiring)"
proof -
  have ok: "lm_ok lm" using reachable_ok [OF assms(1)] .
  obtain tr where tr: "map_of (targets lm) t = Some tr" using assms(2) by (metis map_of_eq_None_iff not_None_eq)
  obtain lm1 rs where b: "BeginTargetInvalidation t lm = (lm1, rs)" by fastforce
  note e = BeginTargetInvalidation_effect [OF ok tr b]
  have "quiet t lm1" using BeginTargetInvalidation_makes_quiet [OF ok tr] b by simp
  moreover have "lm_ok lm1" using BeginTargetInvalidation_ok [OF ok, of t] b by simp
  ultimately have q: "quiet t lm2" using link_run_quiet [OF assms(3)] assms(4) b by simp
  then show ?thesis using e(3) quiet_QueryTarget [OF q] quietD(2) [OF q] b by (auto simp: QuerySite_def)
qed

theorem invalidated_target_not_relinked_witness:
  "let lm = fst sample_link_state;
       s = the (link_fold [OpLink (sample_key 0x104) 1 (Some (sample_commit 0x20104 0x940000BF))]
                 (fst (BeginTargetInvalidation 0x1000 lm), snd sample_link_state)) in
   length (snd (BeginTargetInvalidation 0x1000 lm)) = 2 \<and> QueryTarget lm 0x1000 \<noteq> None \<and> QueryTarget (fst s) 0x1000 = None"
proof -
  let ?lm = "fst sample_link_state"
  let ?ops = "[OpLink (sample_key 0x104) 1 (Some (sample_commit 0x20104 0x940000BF))]"
  let ?s0 = "(fst (BeginTargetInvalidation 0x1000 ?lm), snd sample_link_state)"
  have f: "link_fold ?ops ?s0 \<noteq> None" by code_simp
  then have r: "link_run ?s0 ?ops (fst (the (link_fold ?ops ?s0)), snd (the (link_fold ?ops ?s0)))" unfolding link_run_iff by simp
  have t: "0x1000 \<in> fst ` set (targets ?lm)" by code_simp
  have p: "\<forall>op \<in> set ?ops. \<not> publishes 0x1000 op" by (simp add: publishes_def)
  have n: "length (snd (BeginTargetInvalidation 0x1000 ?lm)) = 2" "QueryTarget ?lm 0x1000 \<noteq> None" by code_simp+
  show ?thesis using n invalidated_target_not_relinked [OF sample_link_run t r p] by (simp only: Let_def simp_thms)
qed





end
