(* ===== verification/Link_Slow.thy ===== *)
theory Link_Slow
  imports Link_Correct
begin

text \<open>
  The users of the link manager: the cold linker that a region's trampoline calls for an unlinked
  site (\<^verbatim>\<open>backend/arm64/region_link_trampoline.cpp\<close>), and the restoration of the incoming sites
  of invalidated targets (\<^verbatim>\<open>SmcTracker::DelinkTargets\<close> in \<^verbatim>\<open>backend/smc_tracker.cpp\<close>).
\<close>

section \<open>The cold linker\<close>

datatype ContinuationTraversal = TraverseBranch | TraverseCall | TraverseCallMiss

fun traversal_code :: "ContinuationTraversal \<Rightarrow> u64" where
  "traversal_code TraverseBranch = 0"
| "traversal_code TraverseCall = 1"
| "traversal_code TraverseCallMiss = 3"

definition EncodeTraversal :: "u64 \<Rightarrow> ContinuationTraversal \<Rightarrow> u64" where
  "EncodeTraversal target traversal = target OR traversal_code traversal"

record RegionLinkContext =
  ctx_manager :: bool
  ctx_region :: "CodeRegion option"
  ctx_return_host :: u64
  ctx_dispatcher :: u64

definition SiteKey :: "CodeRegion \<Rightarrow> u64 \<Rightarrow> LinkSiteKey" where
  "SiteKey r rx_site = \<lparr>key_region_id = region_id r, key_offset = ucast (rx_site - rx_base r)\<rparr>"

text \<open>The guest state is the location it will resume at; \<^const>\<open>None\<close> is the null pointer.\<close>

definition ReturnToDispatcher :: "RegionLinkContext \<Rightarrow> u64 option \<Rightarrow> LinkSiteRecord option \<Rightarrow> u64 option \<times> u64" where
  "ReturnToDispatcher ctx state s =
     ((case (state, s) of (Some _, Some r) \<Rightarrow> Some (guest_target r) | _ \<Rightarrow> state),
      EncodeTraversal (ctx_dispatcher ctx)
        (case s of Some r \<Rightarrow> if site_kind r = LinkCall then TraverseCallMiss else TraverseBranch | None \<Rightarrow> TraverseBranch))"

definition direct_host_pc :: "LinkSiteRecord \<Rightarrow> LinkTargetRecord \<Rightarrow> u64" where
  "direct_host_pc s t =
     (let pending = flags_bypass_offset s \<noteq> no_bypass \<and> Accepts (lt_pending_flags_contract t) (edge_flags s) in
      if site_kind s = LinkCall then
        (if pending \<and> lt_call_pending_flags_host_pc t \<noteq> 0 then lt_call_pending_flags_host_pc t else lt_call_host_pc t)
      else if pending \<and> lt_pending_flags_host_pc t \<noteq> 0 then lt_pending_flags_host_pc t
      else if lt_direct_host_pc t \<noteq> 0 then lt_direct_host_pc t else lt_host_pc t)"

definition traversal_host_pc :: "LinkSiteRecord \<Rightarrow> LinkTargetRecord \<Rightarrow> u64" where
  "traversal_host_pc s t = (if site_kind s = LinkCall then lt_call_host_pc t else lt_host_pc t)"

definition site_branch :: "LinkSiteRecord \<Rightarrow> int \<Rightarrow> u32 option" where
  "site_branch s offset = (if site_kind s = LinkCall then EncodeBL offset else EncodeB offset)"

definition link_commit :: "CodeRegion \<Rightarrow> u64 \<Rightarrow> u32 \<Rightarrow> LinkCommit" where
  "link_commit r rx_site branch = (\<lambda>_ m.
     let rw_site = SiteRxToRw r rx_site in
     if rw_site = 0 then Some (m, False) else PatchDirectBranch r rx_site rw_site branch m)"

datatype link_exit = ToDispatcher "LinkSiteRecord option" | ToHost u64 ContinuationTraversal

definition host_exit :: "LinkSiteRecord \<Rightarrow> LinkTargetRecord \<Rightarrow> link_exit" where
  "host_exit s t = ToHost (traversal_host_pc s t) (if site_kind s = LinkCall then TraverseCall else TraverseBranch)"

fun link_attempts :: "nat \<Rightarrow> CodeRegion \<Rightarrow> u64 \<Rightarrow> LinkManager \<times> code_words \<Rightarrow> ((LinkManager \<times> code_words) \<times> link_exit) option" where
  "link_attempts 0 r rx_site s = Some (s, ToDispatcher (QuerySite (fst s) (SiteKey r rx_site)))"
| "link_attempts (Suc n) r rx_site (lm, m) =
     (let key = SiteKey r rx_site in
      case QuerySite lm key of
        None \<Rightarrow> Some ((lm, m), ToDispatcher None)
      | Some st \<Rightarrow>
          if site_state st = Retiring then Some ((lm, m), ToDispatcher (Some st))
          else (case QueryTarget lm (guest_target st) of
              None \<Rightarrow> Some ((lm, m), ToDispatcher (Some st))
            | Some target \<Rightarrow>
                if lt_host_pc target = 0 \<or> (site_kind st = LinkCall \<and> lt_call_host_pc target = 0)
                then Some ((lm, m), ToDispatcher (Some st))
                else if site_state st = Linked \<or> site_state st = Far then
                  (if target_generation st = lt_generation target then Some ((lm, m), host_exit st target)
                   else link_attempts n r rx_site (lm, m))
                else
                  let direct = direct_host_pc st target in
                  if \<not> (lt_region_id target = region_id r \<and> ContainsRx r direct) \<or> \<not> Imm26Reachable rx_site direct then
                    (let (lm', ok) = MarkFar key (lt_generation target) lm in
                     if ok then Some ((lm', m), host_exit st target) else link_attempts n r rx_site (lm', m))
                  else (case site_branch st (uint direct - uint rx_site) of
                      None \<Rightarrow> Some ((lm, m), ToDispatcher (Some st))
                    | Some branch \<Rightarrow> do {
                        (s', linked) \<leftarrow> MarkLinked key (lt_generation target) (Some (link_commit r rx_site branch)) (lm, m);
                        if linked then Some (s', host_exit st target) else link_attempts n r rx_site s' })))"

definition RegionLinkTrampolineSlow ::
  "RegionLinkContext option \<Rightarrow> u64 option \<Rightarrow> u64 \<Rightarrow> LinkManager \<times> code_words \<Rightarrow> ((LinkManager \<times> code_words) \<times> u64 option \<times> u64) option" where
  "RegionLinkTrampolineSlow context state rx_site s =
     (case context of
        None \<Rightarrow> Some (s, state, 0)
      | Some ctx \<Rightarrow>
          (case ctx_region ctx of
             None \<Rightarrow> Some (s, state, ctx_dispatcher ctx)
           | Some r \<Rightarrow>
               if \<not> ctx_manager ctx \<or> \<not> ContainsRx r rx_site then Some (s, state, ctx_dispatcher ctx)
               else do {
                 (s', ex) \<leftarrow> link_attempts 3 r rx_site (RecordLinkerCall (fst s), snd s);
                 Some (s', (case ex of
                     ToDispatcher st \<Rightarrow> ReturnToDispatcher ctx state st
                   | ToHost pc tr \<Rightarrow> (state, EncodeTraversal pc tr))) }))"

section \<open>Restoring the sites of invalidated targets\<close>

text \<open>A module's caches are the list of their regions.\<close>

type_synonym modules = "u64 \<Rightarrow> CodeRegion list"

definition GetCodeRegion :: "modules \<Rightarrow> u64 \<Rightarrow> u64 \<Rightarrow> CodeRegion option" where
  "GetCodeRegion mods m rid = find (\<lambda>r. region_id r = rid) (mods m)"

definition delink_site :: "modules \<Rightarrow> LinkSiteRecord \<Rightarrow> code_words \<Rightarrow> code_words option" where
  "delink_site mods rec m = do {
     r \<leftarrow> (if owner_module (source_owner rec) = 0 then None
          else GetCodeRegion mods (owner_module (source_owner rec)) (key_region_id (site rec)));
     ASSERT (unat (key_offset (site rec)) + 4 \<le> unat (capacity r));
     let rx_site = rx_base r + ucast (key_offset (site rec));
     let rw_site = rw_base r + ucast (key_offset (site rec));
     let toff = (if flags_bypass_offset rec = no_bypass then trampoline_offset r else pending_flags_trampoline_offset r);
     ASSERT (toff \<noteq> kInvalidTrampolineOffset);
     branch \<leftarrow> EncodeBL (uint (rx_base r + ucast toff) - uint rx_site);
     (m', ok) \<leftarrow> PatchDirectBranch r rx_site rw_site branch m;
     ASSERT ok;
     Some m' }"

fun delink_sites :: "modules \<Rightarrow> LinkSiteRecord list \<Rightarrow> code_words \<Rightarrow> code_words option" where
  "delink_sites mods [] m = Some m"
| "delink_sites mods (rec # recs) m = Option.bind (delink_site mods rec m) (delink_sites mods recs)"

fun delink_targets :: "modules \<Rightarrow> u64 list \<Rightarrow> LinkManager \<times> code_words \<Rightarrow> ((LinkManager \<times> code_words) \<times> nat \<times> bool) option" where
  "delink_targets mods [] s = Some (s, 0, False)"
| "delink_targets mods (t # ts) (lm, m) = do {
     let (lm', incoming) = BeginTargetInvalidation t lm;
     m' \<leftarrow> delink_sites mods incoming m;
     (s', restored, patched) \<leftarrow> delink_targets mods ts (lm', m');
     Some (s', length (filter (\<lambda>rec. site_state rec = Linked) incoming) + restored, incoming \<noteq> [] \<or> patched) }"

text \<open>The result tells whether the code patch epoch is advanced.\<close>

definition DelinkTargets :: "modules \<Rightarrow> u64 list \<Rightarrow> LinkManager \<times> code_words \<Rightarrow> ((LinkManager \<times> code_words) \<times> bool) option" where
  "DelinkTargets mods ts s = do {
     ((lm, m), restored_linked, patched_any) \<leftarrow> delink_targets mods ts s;
     Some ((if restored_linked \<noteq> 0 then RecordDelink restored_linked lm else lm, m), patched_any) }"

section \<open>Correctness of the cold linker\<close>

lemma and_3_add: "(a::u64) AND 3 = 0 \<Longrightarrow> b AND 3 = 0 \<Longrightarrow> (a + b) AND 3 = 0"
proof -
  have "uint (a + b) mod 4 = (uint a + uint b) mod 4" by (simp add: uint_word_ariths mod_mod_cancel)
  then show "a AND 3 = 0 \<Longrightarrow> b AND 3 = 0 \<Longrightarrow> ?thesis" unfolding and_3_iff by presburger
qed

lemma and_3_diff: "(a::u64) AND 3 = 0 \<Longrightarrow> b AND 3 = 0 \<Longrightarrow> (a - b) AND 3 = 0"
proof -
  have "uint (a - b) mod 4 = (uint a - uint b) mod 4" by (simp add: uint_word_ariths mod_mod_cancel)
  then show "a AND 3 = 0 \<Longrightarrow> b AND 3 = 0 \<Longrightarrow> ?thesis" unfolding and_3_iff by presburger
qed

definition aligned_region :: "CodeRegion \<Rightarrow> bool" where
  "aligned_region r = (region_ok r \<and> rx_base r AND 3 = 0 \<and> rw_base r AND 3 = 0)"

lemma patch_site:
  assumes "aligned_region r" "ContainsRx r rx" "rx AND 3 = 0" "insn AND kBranchOpcodeMask = kBranchOpcode"
  shows "PatchDirectBranch r rx (SiteRxToRw r rx) insn m = Some (m(SiteRxToRw r rx := insn), True)" "SiteRxToRw r rx \<noteq> 0"
proof -
  let ?k = "rx - rx_base r"
  have k: "?k < ucast (capacity r)" "rx = rx_base r + ?k" using assms(2) by (auto simp: ContainsRx_def Contains_def)
  have ok: "region_ok r" using assms(1) by (simp add: aligned_region_def)
  note a = site_alias [OF ok k(1)]
  have rw: "SiteRxToRw r rx = rw_base r + ?k" "ContainsRw r (rw_base r + ?k)" using a(2,3) k(2) by simp_all
  have "(rw_base r + ?k) AND 3 = 0" using assms(1,3) by (intro and_3_add and_3_diff) (simp_all add: aligned_region_def)
  then show "PatchDirectBranch r rx (SiteRxToRw r rx) insn m = Some (m(SiteRxToRw r rx := insn), True)"
    using assms(2-4) rw by (simp add: PatchDirectBranch_def PatchCodeWord_def)
  show "SiteRxToRw r rx \<noteq> 0" using rw by (simp add: ContainsRw_def Contains_def)
qed

text \<open>The bypass words are patchable and none of them is the word at address \<open>a\<close>.\<close>

definition bypass_sites_ok :: "LinkManager \<Rightarrow> u64 \<Rightarrow> bool" where
  "bypass_sites_ok lm a \<longleftrightarrow> (\<forall>n < length (signal_sites_storage lm).
     let p = node_at lm n; b = flags_bypass p in
     bp_rx_site b \<noteq> 0 \<longrightarrow> ContainsRx (sp_region p) (bp_rx_site b) \<and> ContainsRw (sp_region p) (bp_rw_site b) \<and>
       SiteRxToRw (sp_region p) (bp_rx_site b) = bp_rw_site b \<and> bp_rx_site b AND 3 = 0 \<and> bp_rw_site b AND 3 = 0 \<and> bp_rw_site b \<noteq> a)"

lemma bypass_patch:
  assumes "bypass_sites_ok lm a" "n < length (signal_sites_storage lm)" "bp_rx_site (flags_bypass (node_at lm n)) \<noteq> 0"
  shows "\<exists>m'. PatchCodeWord (sp_region (node_at lm n)) (bp_rx_site (flags_bypass (node_at lm n))) (bp_rw_site (flags_bypass (node_at lm n))) insn m =
     Some (m', True) \<and> m' a = m a"
  using assms by (auto simp: bypass_sites_ok_def Let_def PatchCodeWord_def)

lemma DisableFlagsBypass_frame:
  assumes "lm_ok lm" "bypass_sites_ok lm a"
  shows "\<exists>m'. DisableFlagsBypassLocked lm rec m = Some m' \<and> m' a = m a"
proof (cases "map_of (signal_sites lm) (site rec)")
  case (Some n)
  have "n < length (signal_sites_storage lm)" using nodes_okD(1) [OF lm_okD(5) [OF assms(1)] Some] .
  then show ?thesis using bypass_patch [OF assms(2), of n "unlinked_instruction (flags_bypass (node_at lm n))" m]
    by (auto simp: DisableFlagsBypassLocked_def Some Let_def node_at_def)
qed (simp add: DisableFlagsBypassLocked_def)

lemma bypass_members_Cons:
  assumes "bypass_members lm rec ((k, member) # rest) ps mem = Some res"
  shows "\<exists>ps' mem'. bypass_members lm rec rest ps' mem' = Some res \<and>
    (ps' = ps \<or> (\<exists>n. map_of (signal_sites lm) k = Some n \<and> bp_rx_site (flags_bypass (node_at lm n)) \<noteq> 0 \<and> ps' = Some n))"
proof (cases "key_region_id k \<noteq> key_region_id (site rec) \<or> flags_bypass_offset member \<noteq> flags_bypass_offset rec")
  case False
  then obtain n where n: "map_of (signal_sites lm) k = Some n" using assms by (auto split: option.splits if_splits)
  have p: "bp_rx_site (flags_bypass (node_at lm n)) \<noteq> 0" using assms False n by (auto simp: node_at_def Let_def split: if_splits)
  define ps' where "ps' = (case ps of None \<Rightarrow> Some n | Some q \<Rightarrow> Some q)"
  have "\<exists>mem'. bypass_members lm rec rest ps' mem' = Some res"
    using assms False n by (auto simp: Let_def ps'_def split: if_splits option.splits)
  then show ?thesis using n p unfolding ps'_def by (cases ps) auto
qed (use assms in auto)

lemma bypass_members_node:
  assumes "\<And>k n. map_of (signal_sites lm) k = Some n \<Longrightarrow> n < length (signal_sites_storage lm)"
    and "bypass_members lm rec xs ps mem = Some (Some n, mem')"
    and "\<And>q. ps = Some q \<Longrightarrow> q < length (signal_sites_storage lm) \<and> bp_rx_site (flags_bypass (node_at lm q)) \<noteq> 0"
  shows "n < length (signal_sites_storage lm) \<and> bp_rx_site (flags_bypass (node_at lm n)) \<noteq> 0"
  using assms(2,3)
proof (induction xs arbitrary: ps mem)
  case (Cons x xs)
  obtain k member where x: "x = (k, member)" by fastforce
  from bypass_members_Cons [OF Cons.prems(1) [unfolded x]] obtain ps' mem1
    where r: "bypass_members lm rec xs ps' mem1 = Some (Some n, mem')"
      "ps' = ps \<or> (\<exists>n. map_of (signal_sites lm) k = Some n \<and> bp_rx_site (flags_bypass (node_at lm n)) \<noteq> 0 \<and> ps' = Some n)"
    by blast
  show ?case by (rule Cons.IH [OF r(1)]) (use r(2) Cons.prems(2) assms(1) in auto)
qed auto

lemma TryEnableFlagsBypass_frame:
  assumes "lm_ok lm" "bypass_sites_ok lm a"
  shows "\<exists>m'. TryEnableFlagsBypassLocked lm rec m = Some m' \<and> m' a = m a"
proof (cases "bypass_members lm rec (sites lm) None []")
  case (Some res)
  obtain ps mem where res: "res = (ps, mem)" by fastforce
  show ?thesis
  proof (cases ps)
    case p: (Some n)
    have "n < length (signal_sites_storage lm) \<and> bp_rx_site (flags_bypass (node_at lm n)) \<noteq> 0"
      by (rule bypass_members_node [OF nodes_okD(1) [OF lm_okD(5) [OF assms(1)]] Some [unfolded res p]]) simp_all
    then obtain m' where "PatchCodeWord (sp_region (node_at lm n)) (bp_rx_site (flags_bypass (node_at lm n)))
        (bp_rw_site (flags_bypass (node_at lm n))) (linked_instruction (flags_bypass (node_at lm n))) m = Some (m', True)" "m' a = m a"
      using bypass_patch [OF assms(2)] by blast
    then show ?thesis using Some by (simp add: TryEnableFlagsBypassLocked_def res p Let_def node_at_def)
  qed (use Some res in \<open>simp add: TryEnableFlagsBypassLocked_def\<close>)
qed (simp add: TryEnableFlagsBypassLocked_def)

lemma bypass_sites_ok_same:
  assumes "same_nodes (signal_sites_storage lm) (signal_sites_storage lm')"
  shows "bypass_sites_ok lm' a = bypass_sites_ok lm a"
proof -
  have "node_at lm' n = node_at lm n" if "n < length (signal_sites_storage lm)" for n
    using same_nodesD(2) [OF assms that] by (simp add: node_at_def)
  then show ?thesis unfolding bypass_sites_ok_def same_nodesD(1) [OF assms] by (simp add: Let_def)
qed

lemma linked_manager_nodes: "same_nodes (signal_sites_storage lm) (signal_sites_storage (linked_manager k r lm))"
  using set_signal_linked_simps(10) [of "lm\<lparr>sites := AList.update k r (sites lm)\<rparr>" k True] by (simp add: linked_manager_def)

lemma QueryTarget_Some:
  assumes "lm_ok lm" "QueryTarget lm t = Some tgt"
  obtains tr where "map_of (targets lm) t = Some tr" "tr_active tr" "tr_signal_target tr \<noteq> None"
    "signal_generation lm tr = Some (lt_generation tgt)" "lt_generation tgt = tr_generation tr" "tgt = link_target_record t tr"
  using assms by (auto simp: QueryTarget_def link_target_record_def signal_generation_def split: option.splits if_splits)

lemma MarkLinked_commits:
  assumes ok: "lm_ok lm" and st: "QuerySite lm k = Some st" "site_state st = Unlinked"
    and t: "QueryTarget lm (guest_target st) = Some tgt" and b: "bypass_sites_ok lm a"
    and cm: "\<And>m. cm st m = Some (m(a := insn), True)"
  obtains lm' m' st' where "MarkLinked k (lt_generation tgt) (Some cm) (lm, m) = Some ((lm', m'), True)" "lm_ok lm'"
    "m' a = insn" "QuerySite lm' k = Some st'" "site_state st' = Linked" "target_generation st' = lt_generation tgt"
proof -
  from QueryTarget_Some [OF ok t] obtain tr where tr: "map_of (targets lm) (guest_target st) = Some tr" "tr_active tr" "tr_signal_target tr \<noteq> None"
    "signal_generation lm tr = Some (lt_generation tgt)" "lt_generation tgt = tr_generation tr" by metis
  let ?e = "lt_generation tgt" let ?st = "linked_record ?e st tr" let ?lm = "linked_manager k ?st lm"
  have sites: "map_of (sites lm) k = Some st" using st(1) by (simp add: QuerySite_def)
  obtain m1 where m1: "(if flags_bypass_offset st \<noteq> no_bypass \<and> \<not> pending_compatible st tr then DisableFlagsBypassLocked lm st m else Some m) = Some m1"
    using DisableFlagsBypass_frame [OF ok b, of st m] by (metis (full_types))
  have "tr_generation tr < next_target_generation lm" using targets_okD(2) [OF lm_okD(6) [OF ok] tr(1)] by simp
  then have ok': "lm_ok ?lm"
    using set_record_ok [OF ok sites, of ?st True] tr(5) st(2) by (simp add: index_fields_def linked_manager_def linked_record_def)
  obtain m3 where m3: "TryEnableFlagsBypassLocked ?lm ?st (m1(a := insn)) = Some m3" "m3 a = insn"
    using TryEnableFlagsBypass_frame [OF ok', of a ?st "m1(a := insn)"] b bypass_sites_ok_same [OF linked_manager_nodes] by auto
  have "MarkLinked k ?e (Some cm) (lm, m) = Some ((?lm, m3), True)"
    unfolding MarkLinked_eq [OF sites st(2) tr(1,3)] m1 using tr(2,4,5) cm m3(1) by simp
  moreover have "QuerySite ?lm k = Some ?st" by (simp add: QuerySite_def linked_manager_def AList.update_conv')
  ultimately show ?thesis using that ok' m3(2) by (simp add: linked_record_def)
qed

lemma MarkFar_commits:
  assumes ok: "lm_ok lm" and st: "QuerySite lm k = Some st" "site_state st = Unlinked" and t: "QueryTarget lm (guest_target st) = Some tgt"
  obtains lm' st' where "MarkFar k (lt_generation tgt) lm = (lm', True)" "lm_ok lm'"
    "QuerySite lm' k = Some st'" "site_state st' = Far" "target_generation st' = lt_generation tgt"
proof -
  from QueryTarget_Some [OF ok t] obtain tr where "map_of (targets lm) (guest_target st) = Some tr" "tr_active tr"
    "signal_generation lm tr = Some (lt_generation tgt)" "lt_generation tgt = tr_generation tr" by metis
  then have "ValidateMarkLocked lm k (lt_generation tgt) = Some st" using st by (simp add: ValidateMarkLocked_def QuerySite_def)
  then show ?thesis using that MarkFar_ok [OF ok, of k "lt_generation tgt"] by (simp add: MarkFar_def QuerySite_def AList.update_conv')
qed

lemma site_branch_reaches:
  assumes "Imm26Reachable rx d"
  shows "\<exists>insn. site_branch st (uint d - uint rx) = Some insn \<and> DecodeBranchTarget rx insn = Some d \<and> insn AND kBranchOpcodeMask = kBranchOpcode"
proof -
  have "insn AND kBranchOpcodeMask = kBranchOpcode" if "DecodeBranchTarget rx insn = Some d" for insn
    using that by (auto simp: DecodeBranchTarget_def split: if_splits)
  then show ?thesis using reachable_EncodeBranch [OF assms, of kBOpcode] reachable_EncodeBranch [OF assms, of kBLOpcode]
    by (cases "site_kind st = LinkCall") (auto simp: site_branch_def EncodeB_def EncodeBL_def)
qed

text \<open>An unlinked site whose target is published is resolved at the first attempt.\<close>

lemma link_unlinked_site:
  assumes ok: "lm_ok lm" and r: "aligned_region r" "ContainsRx r rx" "rx AND 3 = 0" "bypass_sites_ok lm (SiteRxToRw r rx)"
    and st: "QuerySite lm (SiteKey r rx) = Some st" "site_state st = Unlinked" and t: "QueryTarget lm (guest_target st) = Some tgt"
    and pc: "lt_host_pc tgt \<noteq> 0" "site_kind st = LinkCall \<longrightarrow> lt_call_host_pc tgt \<noteq> 0"
  obtains lm' m' st' where "link_attempts (Suc n) r rx (lm, m) = Some ((lm', m'), host_exit st tgt)" "lm_ok lm'"
    "QuerySite lm' (SiteKey r rx) = Some st'" "target_generation st' = lt_generation tgt"
    "site_state st' = Far \<or> site_state st' = Linked \<and> ContainsRx r (direct_host_pc st tgt) \<and>
       DecodeBranchTarget rx (m' (SiteRxToRw r rx)) = Some (direct_host_pc st tgt)"
proof (cases "lt_region_id tgt = region_id r \<and> ContainsRx r (direct_host_pc st tgt) \<and> Imm26Reachable rx (direct_host_pc st tgt)")
  case False
  obtain lm' st' where f: "MarkFar (SiteKey r rx) (lt_generation tgt) lm = (lm', True)" "lm_ok lm'" "QuerySite lm' (SiteKey r rx) = Some st'"
    "site_state st' = Far" "target_generation st' = lt_generation tgt" using MarkFar_commits [OF ok st t] by blast
  have "link_attempts (Suc n) r rx (lm, m) = Some ((lm', m), host_exit st tgt)"
    using st t pc False f(1) by (auto simp: Let_def)
  then show ?thesis using that f by blast
next
  case True
  let ?d = "direct_host_pc st tgt"
  obtain insn where i: "site_branch st (uint ?d - uint rx) = Some insn" "DecodeBranchTarget rx insn = Some ?d" "insn AND kBranchOpcodeMask = kBranchOpcode"
    using site_branch_reaches [of rx ?d st] True by blast
  have cm: "link_commit r rx insn st m' = Some (m'(SiteRxToRw r rx := insn), True)" for m'
    using patch_site [OF r(1,2,3) i(3)] by (simp add: link_commit_def Let_def)
  obtain lm' m' st' where l: "MarkLinked (SiteKey r rx) (lt_generation tgt) (Some (link_commit r rx insn)) (lm, m) = Some ((lm', m'), True)" "lm_ok lm'"
    "m' (SiteRxToRw r rx) = insn" "QuerySite lm' (SiteKey r rx) = Some st'" "site_state st' = Linked" "target_generation st' = lt_generation tgt"
    using MarkLinked_commits [where cm = "link_commit r rx insn", OF ok st t r(4) cm] by blast
  have "link_attempts (Suc n) r rx (lm, m) = Some ((lm', m'), host_exit st tgt)"
    using st t pc True i(1) l(1) by (auto simp: Let_def)
  then show ?thesis using that l i(2) True by blast
qed


text \<open>A history in which one site is registered and its target published.\<close>

definition fresh_ops :: "link_op list" where
  "fresh_ops =
     [OpRegister (sample_key 0x100) 0x1000 sample_owner (Some (sample_patch 0x100)) Unconditional EdgeFlags_default,
      OpPublish 0x1000 0x40400 7 sample_target_owner 0 0 0 0 EdgeContract_default]"

definition fresh_state :: "LinkManager \<times> code_words" where
  "fresh_state = the (link_fold fresh_ops (LinkManager_new, (\<lambda>_. 0)))"


section \<open>Delinking\<close>

definition trampoline_for :: "CodeRegion \<Rightarrow> LinkSiteRecord \<Rightarrow> u64" where
  "trampoline_for r rec = rx_base r + ucast (if flags_bypass_offset rec = no_bypass then trampoline_offset r else pending_flags_trampoline_offset r)"

text \<open>What a restored site holds: a branch with link to the trampoline of its region.\<close>

definition restored_site :: "modules \<Rightarrow> LinkSiteRecord \<Rightarrow> code_words \<Rightarrow> bool" where
  "restored_site mods rec m \<longleftrightarrow>
     (\<exists>r. GetCodeRegion mods (owner_module (source_owner rec)) (key_region_id (site rec)) = Some r \<and>
        DecodeBranchTarget (rx_base r + ucast (key_offset (site rec))) (m (rw_base r + ucast (key_offset (site rec)))) = Some (trampoline_for r rec) \<and>
        m (rw_base r + ucast (key_offset (site rec))) AND kBranchTypeMask = kBLOpcode)"

definition rw_of :: "modules \<Rightarrow> LinkSiteRecord \<Rightarrow> u64 option" where
  "rw_of mods rec = map_option (\<lambda>r. rw_base r + ucast (key_offset (site rec)))
     (GetCodeRegion mods (owner_module (source_owner rec)) (key_region_id (site rec)))"

lemma EncodeBL_type: "EncodeBL o' = Some insn \<Longrightarrow> insn AND kBranchTypeMask = kBLOpcode"
proof -
  assume "EncodeBL o' = Some insn"
  then have i: "insn = kBLOpcode OR (word_of_int (o' div 4) AND kBranchImmediateMask)"
    by (auto simp: EncodeBL_def EncodeBranch_def split: if_splits)
  have "(x AND kBranchImmediateMask) AND kBranchTypeMask = 0" for x :: u32
    by (simp add: kBranchImmediateMask_def kBranchTypeMask_def and.assoc)
  moreover have "kBLOpcode AND kBranchTypeMask = kBLOpcode" by (simp add: kBLOpcode_def kBranchTypeMask_def)
  ultimately show ?thesis unfolding i bit.conj_disj_distrib2 by simp
qed

lemma delink_site_Some:
  assumes "delink_site mods rec m = Some m'"
  shows "restored_site mods rec m'" "\<exists>a. rw_of mods rec = Some a \<and> (\<forall>b. b \<noteq> a \<longrightarrow> m' b = m b)"
proof -
  obtain r insn where r: "GetCodeRegion mods (owner_module (source_owner rec)) (key_region_id (site rec)) = Some r"
    and e: "EncodeBL (uint (trampoline_for r rec) - uint (rx_base r + ucast (key_offset (site rec)))) = Some insn"
    and p: "PatchDirectBranch r (rx_base r + ucast (key_offset (site rec))) (rw_base r + ucast (key_offset (site rec))) insn m = Some (m', True)"
    using assms by (auto simp: delink_site_def trampoline_for_def Let_def split: Option.bind_splits if_splits)
  let ?rx = "rx_base r + ucast (key_offset (site rec))" and ?rw = "rw_base r + ucast (key_offset (site rec))"
  have q: "m' = m(?rw := insn)" "?rx AND 3 = 0" "?rx \<noteq> 0"
    using p by (auto simp: PatchDirectBranch_def PatchCodeWord_def ContainsRx_def Contains_def split: if_splits)
  have "DecodeBranchTarget ?rx insn = Some (trampoline_for r rec)"
    using EncodeBranch_decode [OF e [unfolded EncodeBL_def] _ q(3,2)] by (simp add: of_int_uint)
  then show "restored_site mods rec m'" using r q(1) EncodeBL_type [OF e] by (auto simp: restored_site_def)
  show "\<exists>a. rw_of mods rec = Some a \<and> (\<forall>b. b \<noteq> a \<longrightarrow> m' b = m b)" using r q(1) by (auto simp: rw_of_def)
qed

text \<open>A site whose region is known, lies in it, and reaches the trampoline.\<close>

definition delinkable :: "modules \<Rightarrow> LinkSiteRecord \<Rightarrow> bool" where
  "delinkable mods rec \<longleftrightarrow> owner_module (source_owner rec) \<noteq> 0 \<and>
     (case GetCodeRegion mods (owner_module (source_owner rec)) (key_region_id (site rec)) of None \<Rightarrow> False
      | Some r \<Rightarrow> aligned_region r \<and> unat (key_offset (site rec)) + 4 \<le> unat (capacity r) \<and>
          (if flags_bypass_offset rec = no_bypass then trampoline_offset r else pending_flags_trampoline_offset r) \<noteq> kInvalidTrampolineOffset \<and>
          Imm26Reachable (rx_base r + ucast (key_offset (site rec))) (trampoline_for r rec))"

lemma delinkable_site:
  assumes "delinkable mods rec"
  obtains m' where "delink_site mods rec m = Some m'"
proof -
  obtain r where r: "GetCodeRegion mods (owner_module (source_owner rec)) (key_region_id (site rec)) = Some r"
    and o: "owner_module (source_owner rec) \<noteq> 0" "aligned_region r" "unat (key_offset (site rec)) + 4 \<le> unat (capacity r)"
      "(if flags_bypass_offset rec = no_bypass then trampoline_offset r else pending_flags_trampoline_offset r) \<noteq> kInvalidTrampolineOffset"
      "Imm26Reachable (rx_base r + ucast (key_offset (site rec))) (trampoline_for r rec)"
    using assms by (auto simp: delinkable_def split: option.splits)
  let ?off = "ucast (key_offset (site rec)) :: u64"
  let ?rx = "rx_base r + ?off" and ?rw = "rw_base r + ?off"
  have k: "?off < ucast (capacity r)" using o(3) by (simp add: word_less_nat_alt)
  have ok: "region_ok r" using o(2) by (simp add: aligned_region_def)
  note a = site_alias [OF ok k]
  obtain insn where e: "EncodeBL (uint (trampoline_for r rec) - uint ?rx) = Some insn" "DecodeBranchTarget ?rx insn = Some (trampoline_for r rec)"
    using reachable_EncodeBranch [OF o(5), of kBLOpcode] by (auto simp: EncodeBL_def)
  have i: "insn AND kBranchOpcodeMask = kBranchOpcode" using e(2) by (auto simp: DecodeBranchTarget_def split: if_splits)
  have "?rx AND 3 = 0" using o(5) by (simp add: Imm26Reachable_def)
  from patch_site(1) [OF o(2) a(1) this i]
  have "PatchDirectBranch r ?rx ?rw insn m = Some (m(?rw := insn), True)" by (simp add: a(3))
  then have "delink_site mods rec m = Some (m(?rw := insn))"
    using r o e(1) by (simp add: delink_site_def trampoline_for_def Let_def)
  then show ?thesis using that by blast
qed

lemma restored_site_frame:
  "restored_site mods rec m \<Longrightarrow> (\<And>a. rw_of mods rec = Some a \<Longrightarrow> m' a = m a) \<Longrightarrow> restored_site mods rec m'"
  by (auto simp: restored_site_def rw_of_def)

lemma delink_sites_restore:
  assumes "\<And>rec. rec \<in> set recs \<Longrightarrow> delinkable mods rec"
    and "\<And>r r'. r \<in> set recs \<Longrightarrow> r' \<in> set recs \<Longrightarrow> rw_of mods r = rw_of mods r' \<Longrightarrow> r = r'"
  shows "\<exists>m'. delink_sites mods recs m = Some m' \<and> (\<forall>rec \<in> set recs. restored_site mods rec m') \<and>
    (\<forall>b. (\<forall>rec \<in> set recs. rw_of mods rec \<noteq> Some b) \<longrightarrow> m' b = m b)"
  using assms
proof (induction recs arbitrary: m)
  case (Cons rec recs)
  obtain m1 where m1: "delink_site mods rec m = Some m1" using delinkable_site Cons.prems(1) by (metis list.set_intros(1))
  note d = delink_site_Some [OF m1]
  obtain m' where m': "delink_sites mods recs m1 = Some m'" "\<forall>rec \<in> set recs. restored_site mods rec m'"
    "\<forall>b. (\<forall>rec \<in> set recs. rw_of mods rec \<noteq> Some b) \<longrightarrow> m' b = m1 b"
    using Cons.IH [of m1] Cons.prems by (metis list.set_intros(2))
  have "restored_site mods rec m'"
  proof (cases "rec \<in> set recs")
    case False
    then have "m' a = m1 a" if "rw_of mods rec = Some a" for a using m'(3) Cons.prems(2) [of rec] that by (metis list.set_intros)
    then show ?thesis by (rule restored_site_frame [OF d(1)])
  qed (use m'(2) in blast)
  moreover have "m' b = m b" if "\<forall>rec' \<in> set (rec # recs). rw_of mods rec' \<noteq> Some b" for b
    using d(2) m'(3) that by (metis list.set_intros option.inject)
  ultimately show ?case using m1 m' by auto
qed simp

text \<open>All sites are delinkable and no two of them share a writable address.\<close>

definition sites_delinkable :: "modules \<Rightarrow> LinkManager \<Rightarrow> bool" where
  "sites_delinkable mods lm \<longleftrightarrow>
     (\<forall>k r. QuerySite lm k = Some r \<longrightarrow> delinkable mods r) \<and>
     (\<forall>k r k' r'. QuerySite lm k = Some r \<longrightarrow> QuerySite lm k' = Some r' \<longrightarrow> rw_of mods r = rw_of mods r' \<longrightarrow> k = k')"

lemma unlink_record_fields [simp]:
  "site (unlink_record r) = site r" "guest_target (unlink_record r) = guest_target r" "source_owner (unlink_record r) = source_owner r"
  "flags_bypass_offset (unlink_record r) = flags_bypass_offset r"
  by (simp_all add: unlink_record_def)

lemma unlink_record_link_fields:
  "delinkable mods (unlink_record r) = delinkable mods r" "rw_of mods (unlink_record r) = rw_of mods r"
  "restored_site mods (unlink_record r) m = restored_site mods r m"
  unfolding delinkable_def rw_of_def restored_site_def trampoline_for_def unlink_record_fields by (rule refl)+

lemma BeginTargetInvalidation_site:
  assumes ok: "lm_ok lm" and b: "BeginTargetInvalidation t lm = (lm', rs)"
  shows "QuerySite lm' k = QuerySite lm k \<or> QuerySite lm' k = map_option unlink_record (QuerySite lm k)"
    "dom (map_of (targets lm')) = dom (map_of (targets lm))"
proof -
  have "(QuerySite lm' k = QuerySite lm k \<or> QuerySite lm' k = map_option unlink_record (QuerySite lm k)) \<and>
    dom (map_of (targets lm')) = dom (map_of (targets lm))"
  proof (cases "map_of (targets lm) t")
    case (Some tr)
    note e = BeginTargetInvalidation_effect(1,2) [OF ok Some b]
    show ?thesis using Some by (cases "QuerySite lm k") (auto simp: QuerySite_def e)
  qed (use b in \<open>simp add: BeginTargetInvalidation_def\<close>)
  then show "QuerySite lm' k = QuerySite lm k \<or> QuerySite lm' k = map_option unlink_record (QuerySite lm k)"
    "dom (map_of (targets lm')) = dom (map_of (targets lm))" by blast+
qed

lemma sites_delinkable_Begin:
  assumes ok: "lm_ok lm" and s: "sites_delinkable mods lm" and b: "BeginTargetInvalidation t lm = (lm', rs)"
  shows "sites_delinkable mods lm'"
proof -
  have q: "\<exists>r0. QuerySite lm k = Some r0 \<and> delinkable mods r = delinkable mods r0 \<and> rw_of mods r = rw_of mods r0" if "QuerySite lm' k = Some r" for k r
    using BeginTargetInvalidation_site(1) [OF ok b, of k] that by (cases "QuerySite lm k") (auto simp: unlink_record_link_fields)
  show ?thesis using s q unfolding sites_delinkable_def by metis
qed

lemma delink_targets_restore:
  assumes "lm_ok lm" "sites_delinkable mods lm"
  shows "\<exists>lm' m' n p. delink_targets mods ts (lm, m) = Some ((lm', m'), n, p) \<and> lm_ok lm' \<and>
    (\<forall>t. quiet t lm \<or> t \<in> set ts \<inter> dom (map_of (targets lm)) \<longrightarrow> quiet t lm') \<and>
    (\<forall>k r. QuerySite lm k = Some r \<longrightarrow>
       (if guest_target r \<in> set ts \<inter> dom (map_of (targets lm)) then restored_site mods r m'
        else \<forall>a. rw_of mods r = Some a \<longrightarrow> m' a = m a))"
  using assms
proof (induction ts arbitrary: lm m)
  case (Cons t ts)
  obtain lm1 rs where b: "BeginTargetInvalidation t lm = (lm1, rs)" by fastforce
  have ok1: "lm_ok lm1" using BeginTargetInvalidation_ok [OF Cons.prems(1), of t] b by simp
  have s1: "sites_delinkable mods lm1" using sites_delinkable_Begin [OF Cons.prems b] .
  note site = BeginTargetInvalidation_site [OF Cons.prems(1) b]
  have rs: "r \<in> set rs \<longleftrightarrow> t \<in> dom (map_of (targets lm)) \<and> QuerySite lm (Link_Manager.site r) = Some r \<and> guest_target r = t" for r
  proof (cases "map_of (targets lm) t")
    case (Some tr)
    then show ?thesis using BeginTargetInvalidation_effect(3) [OF Cons.prems(1) Some b] by (auto simp: QuerySite_def)
  qed (use b in \<open>auto simp: BeginTargetInvalidation_def\<close>)
  have d: "\<And>rec. rec \<in> set rs \<Longrightarrow> delinkable mods rec" "\<And>r r'. r \<in> set rs \<Longrightarrow> r' \<in> set rs \<Longrightarrow> rw_of mods r = rw_of mods r' \<Longrightarrow> r = r'"
    using rs Cons.prems(2) unfolding sites_delinkable_def by (blast, metis option.inject)
  obtain m1 where m1: "delink_sites mods rs m = Some m1" "\<forall>rec \<in> set rs. restored_site mods rec m1"
    "\<forall>b. (\<forall>rec \<in> set rs. rw_of mods rec \<noteq> Some b) \<longrightarrow> m1 b = m b"
    using delink_sites_restore [OF d] by blast
  obtain lm' m' n p where r: "delink_targets mods ts (lm1, m1) = Some ((lm', m'), n, p)" "lm_ok lm'"
    "\<forall>t. quiet t lm1 \<or> t \<in> set ts \<inter> dom (map_of (targets lm1)) \<longrightarrow> quiet t lm'"
    "\<forall>k r. QuerySite lm1 k = Some r \<longrightarrow> (if guest_target r \<in> set ts \<inter> dom (map_of (targets lm1)) then restored_site mods r m'
        else \<forall>a. rw_of mods r = Some a \<longrightarrow> m' a = m1 a)"
    using Cons.IH [OF ok1 s1] by blast
  have "quiet t' lm'" if t': "quiet t' lm \<or> t' \<in> set (t # ts) \<inter> dom (map_of (targets lm))" for t'
  proof -
    have "quiet t' lm1" if "quiet t' lm" using BeginTargetInvalidation_quiet [OF Cons.prems(1) that, of t] b by simp
    moreover have "quiet t lm1" if "t \<in> dom (map_of (targets lm))" using BeginTargetInvalidation_makes_quiet [OF Cons.prems(1)] that b by (metis domD fst_conv)
    ultimately show ?thesis using r(3) t' site(2) by auto
  qed
  moreover have "if guest_target st \<in> set (t # ts) \<inter> dom (map_of (targets lm)) then restored_site mods st m' else \<forall>a. rw_of mods st = Some a \<longrightarrow> m' a = m a"
    if st: "QuerySite lm k = Some st" for k st
  proof -
    have k: "Link_Manager.site st = k" using idx_okD(1) [OF lm_okD(3) [OF Cons.prems(1)]] st by (simp add: QuerySite_def)
    obtain st1 where st1: "QuerySite lm1 k = Some st1" "guest_target st1 = guest_target st" "rw_of mods st1 = rw_of mods st"
      "\<And>m. restored_site mods st1 m = restored_site mods st m"
      using site(1) [of k] st by (auto simp: unlink_record_link_fields)
    note rk = r(4) [rule_format, OF st1(1), unfolded st1(2,3,4) site(2)]
    have keep: "m1 a = m a" if "rw_of mods st = Some a" "st \<notin> set rs" for a
      using m1(3) rs st that Cons.prems(2) k unfolding sites_delinkable_def by (metis option.inject)
    show ?thesis
    proof (cases "guest_target st \<in> set ts \<inter> dom (map_of (targets lm))")
      case False
      show ?thesis
      proof (cases "st \<in> set rs")
        case True
        have "restored_site mods st m'" by (rule restored_site_frame [of mods st m1]) (use m1(2) True rk False in auto)
        then show ?thesis using True rs False by auto
      next
        case st': False
        then show ?thesis using rk False keep rs st k by auto
      qed
    qed (use rk in auto)
  qed
  ultimately show ?case using m1(1) r(1,2) by (simp add: b)
qed (simp, blast)


definition sample_modules :: modules where
  "sample_modules m = (if m = 1 then [sample_region] else [])"

lemma sites_delinkableI:
  assumes "\<And>k r. (k, r) \<in> set (sites lm) \<Longrightarrow> delinkable mods r" "distinct (map (\<lambda>(k, r). rw_of mods r) (sites lm))"
  shows "sites_delinkable mods lm"
proof -
  have "k = k'" if "(k, r) \<in> set (sites lm)" "(k', r') \<in> set (sites lm)" "rw_of mods r = rw_of mods r'" for k r k' r'
    using assms(2) that inj_onD [of "\<lambda>(k, r). rw_of mods r" "set (sites lm)" "(k, r)" "(k', r')"] by (simp add: distinct_map)
  then show ?thesis using assms(1) by (auto simp: sites_delinkable_def QuerySite_def dest!: map_of_SomeD)
qed


end
