(* ===== verification/Translate_Table.thy ===== *)
theory Translate_Table
  imports Prelude
begin

text \<open>
  The dispatch table of \<^verbatim>\<open>backend/translate_table.h\<close>: an open-addressing hash table from guest
  addresses to code pointers, probed linearly upwards and read without a lock by generated code.
  Key 0 marks a free slot.  A slot index fits 32 bits and stays below the length of the array.
  An operation is one step of the table; \<^const>\<open>None\<close> is the call of \<^verbatim>\<open>abort\<close> when the
  probe runs off the table.
\<close>

section \<open>The table\<close>

record TranslateEntry =
  ekey :: u64
  evalue :: u64

datatype TranslateTableHash = Folded | Direct

record TranslateTable =
  hash_bits :: nat
  tsize :: nat
  hash_mode :: TranslateTableHash
  invalid_value :: u64
  indexed_invalid_base :: u64
  entries :: "TranslateEntry list"

definition Hash :: "TranslateTable \<Rightarrow> u64 \<Rightarrow> nat" where
  "Hash t key =
     (case hash_mode t of
        Direct \<Rightarrow> unat (ucast (key AND of_nat (tsize t - 1)) :: u32)
      | Folded \<Rightarrow>
          (let merged = drop_bit 2 key in
           unat (ucast ((drop_bit (hash_bits t) merged XOR merged) AND of_nat (tsize t - 1)) :: u32)))"

definition zeroed :: "nat \<Rightarrow> TranslateEntry list" where
  "zeroed n = replicate n \<lparr>ekey = 0, evalue = 0\<rparr>"

definition Table_Reset :: "TranslateTable \<Rightarrow> TranslateTable" where
  "Table_Reset t = t\<lparr>entries := (zeroed (tsize t + 10))[tsize t + 9 := \<lparr>ekey = - 1, evalue = 0\<rparr>]\<rparr>"

definition TranslateTable_new :: "nat \<Rightarrow> TranslateTableHash \<Rightarrow> TranslateTable" where
  "TranslateTable_new bits mode =
     Table_Reset \<lparr>hash_bits = bits, tsize = 2 ^ bits, hash_mode = mode, invalid_value = 0,
       indexed_invalid_base = 0, entries = []\<rparr>"

definition Table_Clear :: "TranslateTable \<Rightarrow> TranslateTable" where
  "Table_Clear t = t\<lparr>entries := zeroed (length (entries t))\<rparr>"

definition key_at :: "TranslateTable \<Rightarrow> nat \<Rightarrow> u64" where
  "key_at t i = ekey (entries t ! i)"

definition value_at :: "TranslateTable \<Rightarrow> nat \<Rightarrow> u64" where
  "value_at t i = evalue (entries t ! i)"

definition set_value :: "TranslateTable \<Rightarrow> nat \<Rightarrow> u64 \<Rightarrow> TranslateTable" where
  "set_value t i v = t\<lparr>entries := (entries t)[i := (entries t ! i)\<lparr>evalue := v\<rparr>]\<rparr>"

definition set_entry :: "TranslateTable \<Rightarrow> nat \<Rightarrow> u64 \<Rightarrow> u64 \<Rightarrow> TranslateTable" where
  "set_entry t i k v = t\<lparr>entries := (entries t)[i := \<lparr>ekey = k, evalue = v\<rparr>]\<rparr>"

definition SetInvalidValue :: "TranslateTable \<Rightarrow> u64 \<Rightarrow> TranslateTable" where
  "SetInvalidValue t v =
     set_value (t\<lparr>invalid_value := v, indexed_invalid_base := 0\<rparr>) (Hash t 0) v"

definition sizeof_entry :: u64 where "sizeof_entry = 16"

definition SetIndexedInvalidValue :: "TranslateTable \<Rightarrow> u64 \<Rightarrow> TranslateTable" where
  "SetIndexedInvalidValue t base =
     set_value (t\<lparr>indexed_invalid_base := base, invalid_value := 0\<rparr>) (Hash t 0)
       (base + of_nat (Hash t 0) * sizeof_entry)"

section \<open>Probing\<close>

text \<open>The loop of \<^verbatim>\<open>Put\<close> and \<^verbatim>\<open>GetOrPut\<close>: the first slot that is free or holds the key.\<close>

function put_slot :: "TranslateTable \<Rightarrow> u64 \<Rightarrow> nat \<Rightarrow> nat option" where
  "put_slot t key index =
     (if key_at t index = 0 \<or> key_at t index = key then Some index
      else if index + 1 \<ge> tsize t - 1 then None
      else put_slot t key (index + 1))"
  by auto
termination by (relation "measure (\<lambda>(t, key, index). tsize t - index)") auto

definition Table_Put :: "TranslateTable \<Rightarrow> u64 \<Rightarrow> u64 \<Rightarrow> (TranslateTable \<times> bool) option" where
  "Table_Put t key value = do {
     index \<leftarrow> put_slot t key (Hash t key);
     Some (set_entry t index key value, (2 * of_nat index + 1 :: u32) \<noteq> 0) }"

definition GetOrPut :: "TranslateTable \<Rightarrow> u64 \<Rightarrow> u64 \<Rightarrow> (TranslateTable \<times> u32) option" where
  "GetOrPut t key value = do {
     index \<leftarrow> put_slot t key (Hash t key);
     let result = 2 * of_nat index + 1;
     if key_at t index = key \<and> value_at t index \<noteq> 0 then Some (t, result)
     else Some (set_entry t index key value, result) }"

text \<open>The loop of \<^verbatim>\<open>Lookup\<close>, \<^verbatim>\<open>Replace\<close> and \<^verbatim>\<open>Zero\<close>: the slot that holds the key.\<close>

function find_slot :: "TranslateTable \<Rightarrow> u64 \<Rightarrow> nat \<Rightarrow> nat option" where
  "find_slot t key index =
     (let c_key = key_at t index in
      if c_key = key then Some index
      else if index + 1 < tsize t - 1 \<and> c_key \<noteq> 0 then find_slot t key (index + 1)
      else None)"
  by auto
termination by (relation "measure (\<lambda>(t, key, index). tsize t - index)") auto

definition Table_Lookup :: "TranslateTable \<Rightarrow> u64 \<Rightarrow> u64" where
  "Table_Lookup t key = (case find_slot t key (Hash t key) of None \<Rightarrow> 0 | Some i \<Rightarrow> value_at t i)"

text \<open>
  \<^verbatim>\<open>Replace\<close> of an absent key calls \<^verbatim>\<open>Put\<close> while it holds the table's exclusive lock, which
  \<^verbatim>\<open>Put\<close> takes again: it never returns.
\<close>

definition Table_Replace :: "TranslateTable \<Rightarrow> u64 \<Rightarrow> u64 \<Rightarrow> TranslateTable option" where
  "Table_Replace t key value =
     (case find_slot t key (Hash t key) of None \<Rightarrow> None | Some i \<Rightarrow> Some (set_value t i value))"

definition Table_Zero :: "TranslateTable \<Rightarrow> u64 \<Rightarrow> TranslateTable \<times> bool" where
  "Table_Zero t key =
     (case find_slot t key (Hash t key) of
        None \<Rightarrow> (t, False)
      | Some i \<Rightarrow>
          (set_value t i (if indexed_invalid_base t \<noteq> 0
             then indexed_invalid_base t + of_nat i * sizeof_entry else invalid_value t), True))"

text \<open>
  \<^verbatim>\<open>Remove\<close> steps with \<^verbatim>\<open>(index + 1) & size\<close>, so after the first slot it only ever
  looks at slot 0 or at slot \<open>size\<close>, possibly for ever.
\<close>

partial_function (option) remove_loop :: "TranslateTable \<Rightarrow> u64 \<Rightarrow> u32 \<Rightarrow> u32 \<Rightarrow> TranslateTable option" where
  [code]: "remove_loop t key index stop =
     (let c_key = key_at t (unat index) in
      if c_key = key then Some (set_entry t (unat index) 0 (value_at t (unat index)))
      else
        let index' = (index + 1) AND of_nat (tsize t) in
        if index' \<noteq> stop \<and> c_key \<noteq> 0 then remove_loop t key index' stop else Some t)"

definition Table_Remove :: "TranslateTable \<Rightarrow> u64 \<Rightarrow> TranslateTable option" where
  "Table_Remove t key = remove_loop t key (of_nat (Hash t key)) (of_nat (Hash t key) - 1)"

section \<open>Snapshots\<close>

definition PutAt :: "TranslateTable \<Rightarrow> nat \<Rightarrow> u64 \<Rightarrow> TranslateTable \<times> bool" where
  "PutAt t index key =
     (if key = 0 \<or> index \<ge> tsize t - 1 then (t, False)
      else if key_at t index = key then (t, True)
      else if key_at t index \<noteq> 0 then (t, False)
      else (set_entry t index key 0, True))"

definition ForEachEntry :: "TranslateTable \<Rightarrow> (nat \<times> u64 \<times> u64) list" where
  "ForEachEntry t =
     map (\<lambda>i. (i, key_at t i, value_at t i)) (filter (\<lambda>i. key_at t i \<noteq> 0) [0..<tsize t - 1])"

text \<open>
  The code cache file (\<^verbatim>\<open>backend/jit_cache.cpp\<close>) stores the slot of every key and replays the
  assignment into the table of the next process, all or nothing.
\<close>

definition snapshot_slots :: "TranslateTable \<Rightarrow> (u64 \<times> nat) list" where
  "snapshot_slots t = map (\<lambda>(index, key, _). (key, index)) (ForEachEntry t)"

fun replay_slots :: "(u64 \<times> nat) list \<Rightarrow> TranslateTable \<Rightarrow> TranslateTable \<times> bool" where
  "replay_slots [] t = (t, True)"
| "replay_slots ((slot_key, index) # slots) t =
     (let (t', done) = PutAt t index slot_key in
      if done then replay_slots slots t' else (Table_Clear t', False))"

section \<open>Invariant\<close>

text \<open>
  Every stored key is reached by its probe: it sits at or above its hash, and the slots in between
  are occupied by other keys.
\<close>

definition reaches :: "TranslateTable \<Rightarrow> u64 \<Rightarrow> nat \<Rightarrow> bool" where
  "reaches t k i =
     (Hash t k \<le> i \<and> (i = Hash t k \<or> i < tsize t - 1) \<and>
      (\<forall>j. Hash t k \<le> j \<and> j < i \<longrightarrow> key_at t j \<noteq> 0 \<and> key_at t j \<noteq> k))"

definition table_ok :: "TranslateTable \<Rightarrow> bool" where
  "table_ok t =
     (hash_bits t \<le> 30 \<and> tsize t = 2 ^ hash_bits t \<and> length (entries t) = tsize t + 10 \<and>
      (\<forall>i < tsize t. key_at t i \<noteq> 0 \<longrightarrow> reaches t (key_at t i) i))"

lemma Hash_less: "hash_bits t \<le> 30 \<Longrightarrow> tsize t = 2 ^ hash_bits t \<Longrightarrow> Hash t k < tsize t"
proof -
  assume a: "hash_bits t \<le> 30" "tsize t = 2 ^ hash_bits t"
  have m: "of_nat (tsize t - 1) = (mask (hash_bits t) :: u64)"
    using a by (simp add: mask_eq_exp_minus_1 of_nat_diff)
  have "unat (ucast (w AND mask (hash_bits t)) :: u32) < 2 ^ hash_bits t" for w :: u64
  proof -
    have "unat (ucast (w AND mask (hash_bits t)) :: u32) \<le> unat (w AND mask (hash_bits t))"
      by (simp add: unsigned_ucast_eq)
    also have "\<dots> < 2 ^ hash_bits t" by (simp add: unat_and_mask)
    finally show ?thesis .
  qed
  then show ?thesis unfolding Hash_def m unfolding a(2) by (simp add: Let_def split: TranslateTableHash.split)
qed

lemma set_entry_simps [simp]:
  "i < length (entries t) \<Longrightarrow> key_at (set_entry t i k v) j = (if j = i then k else key_at t j)"
  "i < length (entries t) \<Longrightarrow> value_at (set_entry t i k v) j = (if j = i then v else value_at t j)"
  "tsize (set_entry t i k v) = tsize t" "hash_bits (set_entry t i k v) = hash_bits t"
  "length (entries (set_entry t i k v)) = length (entries t)" "Hash (set_entry t i k v) = Hash t"
  "invalid_value (set_entry t i k v) = invalid_value t" "indexed_invalid_base (set_entry t i k v) = indexed_invalid_base t"
  by (auto simp: set_entry_def key_at_def value_at_def Hash_def fun_eq_iff split: TranslateTableHash.splits)

lemma set_value_entry: "set_value t i v = set_entry t i (key_at t i) v"
  by (cases "entries t ! i") (simp add: set_value_def set_entry_def key_at_def)

lemma table_ok_bounds: "table_ok t \<Longrightarrow> Hash t k < tsize t" "table_ok t \<Longrightarrow> i < tsize t \<Longrightarrow> i < length (entries t)"
  using Hash_less [of t k] by (simp_all add: table_ok_def)

declare put_slot.simps [simp del] find_slot.simps [simp del]

lemma put_slot_Some:
  "put_slot t k n = Some i \<Longrightarrow> n < tsize t \<Longrightarrow>
    n \<le> i \<and> i < tsize t \<and> (i = n \<or> i < tsize t - 1) \<and> (key_at t i = 0 \<or> key_at t i = k) \<and>
    (\<forall>j. n \<le> j \<and> j < i \<longrightarrow> key_at t j \<noteq> 0 \<and> key_at t j \<noteq> k)"
proof (induction t k n rule: put_slot.induct)
  case (1 t k n)
  show ?case
  proof (cases "key_at t n = 0 \<or> key_at t n = k")
    case True
    then show ?thesis using "1.prems" by (auto simp: put_slot.simps [of t k n])
  next
    case False
    then have s: "n + 1 < tsize t - 1" "put_slot t k (n + 1) = Some i"
      using "1.prems" by (auto simp: put_slot.simps [of t k n] split: if_splits)
    with "1.IH" [OF False] have "n + 1 \<le> i \<and> i < tsize t \<and> (i = n + 1 \<or> i < tsize t - 1) \<and>
        (key_at t i = 0 \<or> key_at t i = k) \<and> (\<forall>j. n + 1 \<le> j \<and> j < i \<longrightarrow> key_at t j \<noteq> 0 \<and> key_at t j \<noteq> k)" by auto
    moreover have "j = n \<or> n + 1 \<le> j" if "n \<le> j" for j using that by auto
    ultimately show ?thesis using s False by (metis Suc_eq_plus1 Suc_leD)
  qed
qed

lemma find_slot_reach:
  assumes "key_at t i = k" "k \<noteq> 0" "i < tsize t - 1 \<or> i = m" and "m \<le> n" "n \<le> i"
    and "\<forall>j. m \<le> j \<and> j < i \<longrightarrow> key_at t j \<noteq> 0 \<and> key_at t j \<noteq> k"
  shows "find_slot t k n = Some i"
  using assms(5,4)
proof (induction n rule: inc_induct)
  case base
  then show ?case using assms(1) by (simp add: find_slot.simps [of t k i])
next
  case (step n)
  then have "key_at t n \<noteq> 0" "key_at t n \<noteq> k" "n + 1 < tsize t - 1" using assms by auto
  then show ?case using step by (simp add: find_slot.simps [of t k n])
qed

lemma find_slot_Some: "find_slot t k n = Some i \<Longrightarrow> n < tsize t \<Longrightarrow> key_at t i = k \<and> i < tsize t"
proof (induction t k n rule: find_slot.induct)
  case (1 t k n)
  show ?case using "1.prems"(2) "1.prems"(1) [unfolded find_slot.simps [of t k n] Let_def] "1.IH" [OF refl]
    by (auto split: if_splits)
qed

text \<open>In a well-formed table a lookup finds the one slot that holds a key.\<close>

lemma lookup_found:
  assumes "table_ok t" "i < tsize t" "key_at t i = k" "k \<noteq> 0"
  shows "find_slot t k (Hash t k) = Some i"
proof -
  have "reaches t k i" using assms by (auto simp: table_ok_def)
  then show ?thesis using assms by (intro find_slot_reach [where m = "Hash t k"]) (auto simp: reaches_def)
qed

lemma lookup_absent: "table_ok t \<Longrightarrow> \<forall>i < tsize t. key_at t i \<noteq> k \<Longrightarrow> find_slot t k (Hash t k) = None"
  using find_slot_Some [of t k "Hash t k"] table_ok_bounds(1) [of t k] by (cases "find_slot t k (Hash t k)") auto

lemma slot_unique: "table_ok t \<Longrightarrow> i < tsize t \<Longrightarrow> j < tsize t \<Longrightarrow> key_at t i = key_at t j \<Longrightarrow> key_at t i \<noteq> 0 \<Longrightarrow> i = j"
  using lookup_found [of t i "key_at t i"] lookup_found [of t j "key_at t i"] by simp

text \<open>A slot where a key may be entered: the end of its probe.\<close>

definition enters :: "TranslateTable \<Rightarrow> u64 \<Rightarrow> nat \<Rightarrow> bool" where
  "enters t k i = (i < tsize t \<and> reaches t k i \<and> (key_at t i = 0 \<or> key_at t i = k))"

lemma put_slot_enters: "table_ok t \<Longrightarrow> put_slot t k (Hash t k) = Some i \<Longrightarrow> enters t k i"
  using put_slot_Some [of t k "Hash t k" i] table_ok_bounds(1) [of t k] by (auto simp: enters_def reaches_def)

lemma find_slot_enters: "table_ok t \<Longrightarrow> k \<noteq> 0 \<Longrightarrow> find_slot t k (Hash t k) = Some i \<Longrightarrow> enters t k i \<and> key_at t i = k"
  using find_slot_Some [of t k "Hash t k" i] table_ok_bounds(1) [of t k] by (auto simp: enters_def table_ok_def)

lemma set_entry_ok:
  assumes ok: "table_ok t" and k: "k \<noteq> 0" and i: "enters t k i"
  shows "table_ok (set_entry t i k v)"
proof -
  have l: "i < length (entries t)" using i table_ok_bounds(2) [OF ok] by (simp add: enters_def)
  have "reaches (set_entry t i k v) (key_at (set_entry t i k v) j) j"
    if j: "j < tsize t" "key_at (set_entry t i k v) j \<noteq> 0" for j
  proof (cases "j = i")
    case True
    then show ?thesis using i l by (auto simp: enters_def reaches_def)
  next
    case False
    then have r: "reaches t (key_at t j) j" "key_at t j \<noteq> 0" using ok j l by (auto simp: table_ok_def)
    have "key_at t j \<noteq> k"
    proof
      assume "key_at t j = k"
      moreover have "\<not> i < j" using r i k \<open>key_at t j = k\<close> by (auto simp: enters_def reaches_def)
      ultimately show False using r i False by (auto simp: enters_def reaches_def)
    qed
    then show ?thesis using r False l k by (auto simp: reaches_def)
  qed
  then show ?thesis using ok by (simp add: table_ok_def)
qed

lemma lookup_set_entry:
  assumes ok: "table_ok t" and k: "k \<noteq> 0" and i: "enters t k i" and k': "k' \<noteq> 0"
  shows "Table_Lookup (set_entry t i k v) k' = (if k' = k then v else Table_Lookup t k')"
proof -
  let ?t = "set_entry t i k v"
  have l: "i < tsize t" "i < length (entries t)" using i table_ok_bounds(2) [OF ok] by (auto simp: enters_def)
  note ok' = set_entry_ok [OF ok k i, of v]
  show ?thesis
  proof (cases "\<exists>j < tsize t. key_at ?t j = k'")
    case True
    then obtain j where j: "j < tsize t" "key_at ?t j = k'" by blast
    then have f: "find_slot ?t k' (Hash t k') = Some j" using lookup_found [OF ok', of j k'] k' by simp
    show ?thesis
    proof (cases "j = i")
      case True
      then show ?thesis using j f l by (simp add: Table_Lookup_def)
    next
      case False
      then have "key_at t j = k'" using j l by simp
      moreover have "k' \<noteq> k" using slot_unique [OF ok', of i j] j l False k by auto
      ultimately show ?thesis using f lookup_found [OF ok j(1) _ k'] l False by (simp add: Table_Lookup_def)
    qed
  next
    case False
    then have "find_slot ?t k' (Hash t k') = None" "k' \<noteq> k" "\<forall>j < tsize t. key_at t j \<noteq> k'"
      using lookup_absent [OF ok', of k'] l i k' by (auto simp: enters_def split: if_splits)
    then show ?thesis using lookup_absent [OF ok, of k'] by (simp add: Table_Lookup_def)
  qed
qed

lemma set_value_ok:
  assumes ok: "table_ok t" and i: "i < tsize t"
  shows "table_ok (set_value t i v)"
    and "k \<noteq> 0 \<Longrightarrow> Table_Lookup (set_value t i v) k = (if key_at t i = k then v else Table_Lookup t k)"
    and "Hash (set_value t i v) = Hash t" "key_at (set_value t i v) = key_at t" "tsize (set_value t i v) = tsize t"
    and "invalid_value (set_value t i v) = invalid_value t" "indexed_invalid_base (set_value t i v) = indexed_invalid_base t"
proof -
  let ?t = "set_value t i v"
  have l: "i < length (entries t)" by (rule table_ok_bounds(2) [OF ok i])
  show h: "Hash ?t = Hash t" "key_at ?t = key_at t" "tsize ?t = tsize t"
    "invalid_value ?t = invalid_value t" "indexed_invalid_base ?t = indexed_invalid_base t"
    using l by (auto simp: set_value_entry)
  show ok': "table_ok ?t" using ok l h by (auto simp: table_ok_def reaches_def set_value_entry)
  show "Table_Lookup ?t k = (if key_at t i = k then v else Table_Lookup t k)" if "k \<noteq> 0"
  proof (cases "\<exists>j < tsize t. key_at t j = k")
    case True
    then obtain j where j: "j < tsize t" "key_at t j = k" by blast
    then have "find_slot ?t k (Hash t k) = Some j" "find_slot t k (Hash t k) = Some j"
      using lookup_found [OF ok' _ _ that, of j] lookup_found [OF ok j that] h by auto
    moreover have "key_at t i = k \<longleftrightarrow> i = j" using slot_unique [OF ok i j(1)] j that by auto
    ultimately show ?thesis using l h by (auto simp: Table_Lookup_def set_value_entry)
  next
    case False
    then show ?thesis using lookup_absent [OF ok, of k] lookup_absent [OF ok', of k] h i by (auto simp: Table_Lookup_def)
  qed
qed

section \<open>Interface\<close>

text \<open>What the clients of a dispatch table rely on.  Generated code treats an invalid value as a miss.\<close>

locale dispatch_table =
  fixes lookup :: "'t \<Rightarrow> u64 \<Rightarrow> u64" and put :: "'t \<Rightarrow> u64 \<Rightarrow> u64 \<Rightarrow> 't option" and zero :: "'t \<Rightarrow> u64 \<Rightarrow> 't"
    and inv :: "'t \<Rightarrow> bool" and invalid :: "'t \<Rightarrow> u64 \<Rightarrow> bool"
  assumes put_inv: "inv t \<Longrightarrow> k \<noteq> 0 \<Longrightarrow> put t k v = Some t' \<Longrightarrow> inv t'"
    and put_invalid: "inv t \<Longrightarrow> k \<noteq> 0 \<Longrightarrow> put t k v = Some t' \<Longrightarrow> invalid t' = invalid t"
    and lookup_put: "inv t \<Longrightarrow> k \<noteq> 0 \<Longrightarrow> put t k v = Some t' \<Longrightarrow> k' \<noteq> 0 \<Longrightarrow>
      lookup t' k' = (if k' = k then v else lookup t k')"
    and zero_inv: "inv t \<Longrightarrow> inv (zero t k)"
    and zero_invalid: "inv t \<Longrightarrow> invalid (zero t k) = invalid t"
    and lookup_zero: "inv t \<Longrightarrow> k \<noteq> 0 \<Longrightarrow> invalid t (lookup (zero t k) k)"
    and lookup_zero_other: "inv t \<Longrightarrow> k' \<noteq> 0 \<Longrightarrow> k' \<noteq> k \<Longrightarrow> lookup (zero t k) k' = lookup t k'"
begin

lemma zero_all_inv: "inv t \<Longrightarrow> inv (fold (\<lambda>k t. zero t k) ks t) \<and> invalid (fold (\<lambda>k t. zero t k) ks t) = invalid t"
  by (induction ks arbitrary: t) (auto simp: zero_inv zero_invalid)

lemma zero_all_other: "inv t \<Longrightarrow> k \<noteq> 0 \<Longrightarrow> k \<notin> set ks \<Longrightarrow> lookup (fold (\<lambda>k t. zero t k) ks t) k = lookup t k"
  by (induction ks arbitrary: t) (auto simp: zero_inv lookup_zero_other)

lemma zero_all: "inv t \<Longrightarrow> k \<noteq> 0 \<Longrightarrow> k \<in> set ks \<Longrightarrow> invalid t (lookup (fold (\<lambda>k t. zero t k) ks t) k)"
proof (induction ks arbitrary: t)
  case (Cons a ks)
  show ?case
  proof (cases "k \<in> set ks")
    case True
    then show ?thesis using Cons zero_inv zero_invalid by fastforce
  next
    case False
    then show ?thesis using Cons zero_all_other [OF zero_inv [OF Cons.prems(1)]] lookup_zero by auto
  qed
qed simp

text \<open>A key that was cleared stays invalid until it is put again.\<close>

lemma zero_then_put:
  assumes "inv t" "k \<noteq> 0" "k' \<noteq> 0" "k' \<noteq> k" "put (zero t k) k' v = Some t'"
  shows "invalid t (lookup t' k)"
  using assms lookup_put [OF zero_inv [OF assms(1)], of k' k v t' k] lookup_zero by auto

end

definition table_invalid :: "TranslateTable \<Rightarrow> u64 \<Rightarrow> bool" where
  "table_invalid t v =
     (v = 0 \<or> (if indexed_invalid_base t \<noteq> 0
       then \<exists>i < tsize t. v = indexed_invalid_base t + of_nat i * sizeof_entry else v = invalid_value t))"

lemma table_invalid_set [simp]:
  "table_invalid (set_entry t i k v) = table_invalid t" "table_invalid (set_value t i v) = table_invalid t"
  by (auto simp: table_invalid_def set_value_entry fun_eq_iff)

lemma Table_Put_spec:
  assumes "table_ok t" "map_option fst (Table_Put t k v) = Some t'"
  obtains i where "enters t k i" "t' = set_entry t i k v"
  using assms put_slot_enters that by (auto simp: Table_Put_def bind_eq_Some_conv)

lemma Table_Zero_cases:
  assumes "table_ok t"
  obtains "fst (Table_Zero t k) = t" "find_slot t k (Hash t k) = None"
  | i v where "fst (Table_Zero t k) = set_value t i v" "i < tsize t" "key_at t i = k" "table_invalid t v"
proof (cases "find_slot t k (Hash t k)")
  case None
  then show ?thesis using that(1) by (simp add: Table_Zero_def)
next
  case (Some i)
  then have "i < tsize t" "key_at t i = k" using find_slot_Some table_ok_bounds(1) [OF assms] by auto
  moreover have "table_invalid t (if indexed_invalid_base t \<noteq> 0
      then indexed_invalid_base t + of_nat i * sizeof_entry else invalid_value t)"
    using \<open>i < tsize t\<close> by (auto simp: table_invalid_def)
  ultimately show ?thesis using that(2) [of i] Some by (simp add: Table_Zero_def)
qed

interpretation code_table: dispatch_table Table_Lookup "\<lambda>t k v. map_option fst (Table_Put t k v)"
  "\<lambda>t k. fst (Table_Zero t k)" table_ok table_invalid
proof unfold_locales
  fix t t' k k' v
  assume ok: "table_ok t"
  show "table_ok t'" if "k \<noteq> 0" "map_option fst (Table_Put t k v) = Some t'"
    by (rule Table_Put_spec [OF ok that(2)]) (simp add: set_entry_ok [OF ok that(1)])
  show "table_invalid t' = table_invalid t" if "map_option fst (Table_Put t k v) = Some t'"
    by (rule Table_Put_spec [OF ok that]) simp
  show "Table_Lookup t' k' = (if k' = k then v else Table_Lookup t k')"
    if "k \<noteq> 0" "map_option fst (Table_Put t k v) = Some t'" "k' \<noteq> 0"
    by (rule Table_Put_spec [OF ok that(2)]) (simp add: lookup_set_entry [OF ok that(1) _ that(3)])
  show "table_ok (fst (Table_Zero t k))" "table_invalid (fst (Table_Zero t k)) = table_invalid t"
    by (rule Table_Zero_cases [OF ok, of k]; simp add: ok set_value_ok(1) [OF ok])+
  show "table_invalid t (Table_Lookup (fst (Table_Zero t k)) k)" if "k \<noteq> 0"
    using ok
  proof (cases rule: Table_Zero_cases [of t k])
    case 1
    then show ?thesis by (simp add: Table_Lookup_def table_invalid_def)
  next
    case (2 i v)
    then show ?thesis using set_value_ok(2) [OF ok _ that] by simp
  qed
  show "Table_Lookup (fst (Table_Zero t k)) k' = Table_Lookup t k'" if "k' \<noteq> 0" "k' \<noteq> k"
    using ok by (cases rule: Table_Zero_cases [of t k]) (use set_value_ok(2) [OF ok _ that(1)] that in auto)
qed

section \<open>Properties\<close>

text \<open>C28. Putting an entry into a well-formed table keeps it well formed, reports success, and makes
  exactly that key look up to the new value: no other guest address changes its code pointer.\<close>

theorem table_put_lookup:
  assumes "table_ok t" "k \<noteq> 0" "Table_Put t k v = Some (t', done)"
  shows "table_ok t' \<and> done \<and> (\<forall>k' \<noteq> 0. Table_Lookup t' k' = (if k' = k then v else Table_Lookup t k'))"
proof -
  have m: "map_option fst (Table_Put t k v) = Some t'" using assms(3) by simp
  have "2 * of_nat i + 1 \<noteq> (0 :: u32)" for i
    by (metis even_mult_iff dvd_refl even_plus_one_iff even_zero)
  then have "done" using assms(3) by (auto simp: Table_Put_def bind_eq_Some_conv)
  then show ?thesis
    using code_table.put_inv [OF assms(1,2) m] code_table.lookup_put [OF assms(1,2) m] by blast
qed

definition sample_table :: TranslateTable where
  "sample_table = TranslateTable_new 3 Direct"

lemma sample_table_ok: "table_ok sample_table"
  by (simp add: table_ok_def sample_table_def TranslateTable_new_def Table_Reset_def zeroed_def key_at_def nth_list_update)

theorem table_put_lookup_witness:
  "\<exists>t'. Table_Put sample_table 9 0x4000 = Some (t', True) \<and> Table_Lookup t' 9 = 0x4000 \<and> Table_Lookup t' 17 = 0"
proof -
  have p: "Table_Put sample_table 9 0x4000 = Some (set_entry sample_table 1 9 0x4000, True)" by code_simp
  have "Table_Lookup sample_table 17 = 0" by code_simp
  then show ?thesis using p table_put_lookup [OF sample_table_ok _ p] by auto
qed

text \<open>C29. Clearing a list of guest addresses turns each of them into a miss, and leaves every other
  address with the code pointer it had.\<close>

theorem table_zero_all:
  fixes ks :: "u64 list"
  assumes "table_ok t"
  defines "t' \<equiv> fold (\<lambda>k t. fst (Table_Zero t k)) ks t"
  shows "table_ok t' \<and> (\<forall>k \<noteq> 0. if k \<in> set ks then table_invalid t (Table_Lookup t' k)
    else Table_Lookup t' k = Table_Lookup t k)"
  unfolding t'_def
  using code_table.zero_all_inv [OF assms(1)] code_table.zero_all [OF assms(1)] code_table.zero_all_other [OF assms(1)]
  by auto

lemma sample_put_ok: "table_ok (set_entry sample_table 1 9 0x4000)"
proof -
  have "map_option fst (Table_Put sample_table 9 0x4000) = Some (set_entry sample_table 1 9 0x4000)" by code_simp
  then show ?thesis by (rule code_table.put_inv [OF sample_table_ok, rotated]) simp
qed

theorem table_zero_all_witness:
  "Table_Lookup (set_entry sample_table 1 9 0x4000) 9 = 0x4000 \<and>
   table_invalid (set_entry sample_table 1 9 0x4000)
     (Table_Lookup (fold (\<lambda>k t. fst (Table_Zero t k)) [9, 17] (set_entry sample_table 1 9 0x4000)) 9)"
proof -
  have "Table_Lookup (set_entry sample_table 1 9 0x4000) 9 = 0x4000" by code_simp
  moreover have "(9::u64) \<noteq> 0" "9 \<in> set [9, 17 :: u64]" by simp_all
  ultimately show ?thesis using table_zero_all [OF sample_put_ok, of "[9, 17]"] by meson
qed

text \<open>The calls that change a table that is in use.\<close>

datatype table_op = OpPut u64 u64 | OpGetOrPut u64 u64 | OpReplace u64 u64 | OpZero u64

fun op_key :: "table_op \<Rightarrow> u64" where
  "op_key (OpPut k v) = k" | "op_key (OpGetOrPut k v) = k" | "op_key (OpReplace k v) = k" | "op_key (OpZero k) = k"

fun run_table_op :: "table_op \<Rightarrow> TranslateTable \<Rightarrow> TranslateTable option" where
  "run_table_op (OpPut k v) t = map_option fst (Table_Put t k v)"
| "run_table_op (OpGetOrPut k v) t = map_option fst (GetOrPut t k v)"
| "run_table_op (OpReplace k v) t = Table_Replace t k v"
| "run_table_op (OpZero k) t = Some (fst (Table_Zero t k))"

fun run_table_ops :: "table_op list \<Rightarrow> TranslateTable \<Rightarrow> TranslateTable option" where
  "run_table_ops [] t = Some t"
| "run_table_ops (p # ps) t = Option.bind (run_table_op p t) (run_table_ops ps)"

lemma run_table_op_cases:
  assumes ok: "table_ok t" and r: "run_table_op p t = Some t'"
  obtains "t' = t" | i v where "t' = set_entry t i (op_key p) v" "enters t (op_key p) i"
    | i v where "t' = set_value t i v" "i < tsize t"
proof (cases p)
  case (OpPut k v)
  then show ?thesis using r that(2) by (auto intro: Table_Put_spec [OF ok, of k v t'])
next
  case (OpGetOrPut k v)
  then show ?thesis using r put_slot_enters [OF ok, of k] that(1,2)
    by (auto simp: GetOrPut_def Let_def bind_eq_Some_conv split: if_splits)
next
  case (OpReplace k v)
  then show ?thesis using r find_slot_Some [of t k "Hash t k"] table_ok_bounds(1) [OF ok] that(3)
    by (auto simp: Table_Replace_def split: option.splits)
next
  case (OpZero k)
  then have "t' = fst (Table_Zero t k)" using r by simp
  then show ?thesis using that(1,3) by (cases rule: Table_Zero_cases [OF ok, of k]) auto
qed

lemma run_table_op_keys:
  assumes ok: "table_ok t" and r: "run_table_op p t = Some t'" and p: "op_key p \<noteq> 0"
  shows "table_ok t' \<and> tsize t' = tsize t \<and> Hash t' = Hash t \<and> (\<forall>i < tsize t. key_at t i \<noteq> 0 \<longrightarrow> key_at t' i = key_at t i)"
  using ok r
proof (cases rule: run_table_op_cases)
  case (2 i v)
  then show ?thesis using set_entry_ok [OF ok p 2(2)] table_ok_bounds(2) [OF ok] by (auto simp: enters_def)
qed (use ok set_value_ok [OF ok] in auto)

text \<open>C30. A key keeps the slot it was given, whatever operations follow, so the slot indices that are
  baked into generated code stay valid; each operation keeps the table well formed.\<close>

theorem slot_stable:
  assumes "table_ok t" "k \<noteq> 0" "find_slot t k (Hash t k) = Some i" "\<forall>p \<in> set ps. op_key p \<noteq> 0"
    and "run_table_ops ps t = Some t'"
  shows "table_ok t' \<and> find_slot t' k (Hash t' k) = Some i"
  using assms
proof (induction ps arbitrary: t)
  case (Cons p ps)
  then obtain t1 where t1: "run_table_op p t = Some t1" "run_table_ops ps t1 = Some t'" by (auto simp: bind_eq_Some_conv)
  note k = run_table_op_keys [OF Cons.prems(1) t1(1)]
  have "key_at t i = k" "i < tsize t"
    using Cons.prems find_slot_Some [of t k "Hash t k" i] table_ok_bounds(1) [of t k] by auto
  then have "find_slot t1 k (Hash t1 k) = Some i" using k Cons.prems lookup_found [of t1 i k] by auto
  then show ?case using Cons.IH [of t1] k t1 Cons.prems by auto
qed simp

theorem slot_stable_witness:
  "\<exists>t'. run_table_ops [OpGetOrPut 17 0, OpZero 9, OpPut 17 0x5000] (set_entry sample_table 1 9 0x4000) = Some t' \<and>
     find_slot t' 9 (Hash t' 9) = Some 1"
proof -
  let ?ps = "[OpGetOrPut 17 0, OpZero 9, OpPut 17 0x5000]" and ?t = "set_entry sample_table 1 9 0x4000"
  have "run_table_ops ?ps ?t \<noteq> None" "find_slot ?t 9 (Hash ?t 9) = Some 1" by code_simp+
  then obtain t' where "run_table_ops ?ps ?t = Some t'" by auto
  then show ?thesis using slot_stable [OF sample_put_ok _ \<open>find_slot ?t 9 (Hash ?t 9) = Some 1\<close>, of ?ps t'] by auto
qed

lemma replay_fresh:
  "distinct (map snd xs) \<Longrightarrow> \<forall>(k, i) \<in> set xs. k \<noteq> 0 \<and> i < tsize f - 1 \<and> i < length (entries f) \<and> key_at f i = 0 \<Longrightarrow>
   \<exists>g. replay_slots xs f = (g, True) \<and> tsize g = tsize f \<and> hash_bits g = hash_bits f \<and> Hash g = Hash f \<and>
     length (entries g) = length (entries f) \<and> (\<forall>(k, i) \<in> set xs. key_at g i = k \<and> value_at g i = 0) \<and>
     (\<forall>j. j \<notin> snd ` set xs \<longrightarrow> key_at g j = key_at f j \<and> value_at g j = value_at f j)"
proof (induction xs arbitrary: f)
  case (Cons x xs)
  obtain k i where x: "x = (k, i)" by (cases x)
  let ?f = "set_entry f i k 0"
  have i: "k \<noteq> 0" "i < tsize f - 1" "i < length (entries f)" "key_at f i = 0" "i \<notin> snd ` set xs"
    using Cons.prems by (auto simp: x)
  then have p: "PutAt f i k = (?f, True)" by (simp add: PutAt_def)
  have "\<forall>(k', j) \<in> set xs. k' \<noteq> 0 \<and> j < tsize ?f - 1 \<and> j < length (entries ?f) \<and> key_at ?f j = 0"
    using Cons.prems(2) i by force
  with Cons.IH [of ?f] Cons.prems(1) obtain g where g: "replay_slots xs ?f = (g, True)" "tsize g = tsize f" "hash_bits g = hash_bits f"
      "Hash g = Hash f" "length (entries g) = length (entries f)" "\<forall>(k, i) \<in> set xs. key_at g i = k \<and> value_at g i = 0"
      "\<forall>j. j \<notin> snd ` set xs \<longrightarrow> key_at g j = key_at ?f j \<and> value_at g j = value_at ?f j"
    by auto
  show ?case using p g i by (intro exI [of _ g]) (auto simp: x)
qed auto

lemma Hash_cong: "hash_bits g = hash_bits t \<Longrightarrow> tsize g = tsize t \<Longrightarrow> hash_mode g = hash_mode t \<Longrightarrow> Hash g = Hash t"
  by (auto simp: Hash_def fun_eq_iff split: TranslateTableHash.splits)

lemma new_table [simp]:
  "tsize (TranslateTable_new b m) = 2 ^ b" "hash_bits (TranslateTable_new b m) = b" "hash_mode (TranslateTable_new b m) = m"
  "length (entries (TranslateTable_new b m)) = 2 ^ b + 10"
  "i < 2 ^ b \<Longrightarrow> key_at (TranslateTable_new b m) i = 0" "i < 2 ^ b \<Longrightarrow> value_at (TranslateTable_new b m) i = 0"
  by (simp_all add: TranslateTable_new_def Table_Reset_def zeroed_def key_at_def value_at_def nth_list_update)



text \<open>
  The last slot of the table can be filled by a key that hashes to it, but is neither saved nor
  restored: the key is lost from the replayed table, and another key may then claim its slot.
\<close>

lemma snapshot_misses_last_slot:
  "\<exists>t. map_option fst (Table_Put sample_table 7 0x4000) = Some t \<and> Table_Lookup t 7 = 0x4000 \<and>
     find_slot t 7 (Hash t 7) = Some 7 \<and> snapshot_slots t = []"
  by (rule exI [of _ "set_entry sample_table 7 7 0x4000"]) code_simp

text \<open>
  Removing a key frees its slot in the middle of a probe: the colliding key behind it is no longer
  found.
\<close>

lemma Remove_loses_colliding_key:
  "\<exists>t. run_table_ops [OpPut 9 0x4000, OpPut 17 0x5000] sample_table = Some t \<and> Table_Lookup t 17 = 0x5000 \<and>
     map_option (\<lambda>t'. Table_Lookup t' 17) (Table_Remove t 9) = Some 0"
  by (rule exI [of _ "set_entry (set_entry sample_table 1 9 0x4000) 2 17 0x5000"]) code_simp

end
