(* ===== verification/Smc_Pages.thy ===== *)
theory Smc_Pages
  imports Smc_Epochs Module_Nodes Link_Slow Translate_Table
begin

text \<open>
  The write-protection side of the self-modifying-code tracker (\<^verbatim>\<open>backend/smc_tracker.cpp\<close>,
  \<^verbatim>\<open>smc_tracker.h\<close>): which translations each guest page holds, the fault that a guest write to such a
  page raises, and the closing of the write window, which delinks, detaches and retires what was on
  the page.  It composes the link manager, the modules, the dispatch tables and the epochs.

  \<^verbatim>\<open>mprotect\<close> is a parameter \<open>mp\<close>: whether the protection of a host page can be changed.  The
  heap of the code caches is the parameter \<open>ms\<close>.  \<^const>\<open>None\<close> is a failed assertion, or a loop that
  does not end.
\<close>

section \<open>State\<close>

record TrackedNode =
  tn_module :: u64
  tn_node :: nat
  guest_start :: u64
  guest_end :: u64

record PageRecord =
  write_protected :: bool
  dirty :: bool
  claim_stale_fault :: bool
  page_nodes :: "TrackedNode list"

record 'h Smc =
  bias :: u64
  gmask :: u64
  page_size :: u64
  dirty_hint_enabled :: bool
  exit_latch_enabled :: bool
  smc_enabled :: bool
  locally_enabled :: bool
  close_work_pending :: bool
  pages :: "(u64 \<times> PageRecord) list"
  epochs :: SmcEpochs
  host_ro :: "u64 \<Rightarrow> bool"
  code_cache_table :: TranslateTable
  call_code_cache_table :: TranslateTable
  pending_call_code_cache_table :: TranslateTable
  l1_table :: "nat \<Rightarrow> TranslateTable"
  link_state :: "LinkManager \<times> code_words"
  module_at :: "u64 \<Rightarrow> 'h Module"

definition PageRecord_new :: PageRecord where
  "PageRecord_new = \<lparr>write_protected = False, dirty = False, claim_stale_fault = False, page_nodes = []\<rparr>"

definition PageKey :: "'h Smc \<Rightarrow> u64 \<Rightarrow> u64" where
  "PageKey s a = a AND NOT (page_size s - 1)"

definition MarkCloseWorkPending :: "'h Smc \<Rightarrow> 'h Smc" where
  "MarkCloseWorkPending s = (if dirty_hint_enabled s then s\<lparr>close_work_pending := True\<rparr> else s)"

definition host_page :: "'h Smc \<Rightarrow> u64 \<Rightarrow> u64" where
  "host_page s page = (page AND gmask s) + bias s"

definition SetPageProtected :: "(u64 \<Rightarrow> bool \<Rightarrow> bool) \<Rightarrow> u64 \<Rightarrow> bool \<Rightarrow> 'h Smc \<Rightarrow> 'h Smc \<times> bool" where
  "SetPageProtected mp page prot_ro s =
     (if \<not> mp (host_page s page) prot_ro then (s, False)
      else (s\<lparr>host_ro := (host_ro s)(host_page s page := prot_ro)\<rparr>, True))"

text \<open>The page map is kept in key order.\<close>

fun page_set :: "u64 \<Rightarrow> PageRecord \<Rightarrow> (u64 \<times> PageRecord) list \<Rightarrow> (u64 \<times> PageRecord) list" where
  "page_set k r [] = [(k, r)]"
| "page_set k r ((k', r') # ps) =
     (if k < k' then (k, r) # (k', r') # ps else if k = k' then (k, r) # ps else (k', r') # page_set k r ps)"

definition map_pages :: "(PageRecord \<Rightarrow> PageRecord) \<Rightarrow> (u64 \<times> PageRecord) list \<Rightarrow> (u64 \<times> PageRecord) list" where
  "map_pages f ps = map (\<lambda>(k, r). (k, f r)) ps"

section \<open>Registration\<close>

definition register_page :: "(u64 \<Rightarrow> bool \<Rightarrow> bool) \<Rightarrow> TrackedNode \<Rightarrow> u64 \<Rightarrow> 'h Smc \<Rightarrow> 'h Smc" where
  "register_page mp tn page s =
     (let rec = (case map_of (pages s) page of None \<Rightarrow> PageRecord_new | Some r \<Rightarrow> r);
          s1 = (if dirty rec then MarkCloseWorkPending s else s);
          rec1 = (if tn \<in> set (page_nodes rec) then rec else rec\<lparr>page_nodes := page_nodes rec @ [tn]\<rparr>) in
      if \<not> dirty rec1 \<and> \<not> write_protected rec1
      then (let (s2, ok) = SetPageProtected mp page True s1;
                rec2 = (if ok then rec1\<lparr>write_protected := True, claim_stale_fault := False\<rparr> else rec1) in
            s2\<lparr>pages := page_set page rec2 (pages s2)\<rparr>)
      else s1\<lparr>pages := page_set page rec1 (pages s1)\<rparr>)"

text \<open>
  The walk stops at the last page instead of stepping past it, so it never wraps.  The size of a page
  is never 0.
\<close>

function register_loop :: "(u64 \<Rightarrow> bool \<Rightarrow> bool) \<Rightarrow> TrackedNode \<Rightarrow> u64 \<Rightarrow> u64 \<Rightarrow> u64 \<Rightarrow> 'h Smc \<Rightarrow> 'h Smc" where
  "register_loop mp tn psize page stop s =
     (if page \<le> stop then
        let s1 = register_page mp tn page s in
        if psize = 0 \<or> stop - page < psize then s1 else register_loop mp tn psize (page + psize) stop s1
      else s)"
  by auto
termination
proof (relation "measure (\<lambda>(mp, tn, psize, page, stop, s). unat (stop - page))")
  fix mp :: "u64 \<Rightarrow> bool \<Rightarrow> bool" and tn and psize page stop :: u64 and s s1 :: "'h Smc"
  assume "\<not> (psize = 0 \<or> stop - page < psize)"
  then have "psize \<noteq> 0" "psize \<le> stop - page" by (auto simp: not_less)
  moreover have "stop - (page + psize) = (stop - page) - psize" by simp
  moreover have "unat (stop - page - psize) = unat (stop - page) - unat psize" using calculation(2) by (rule unat_sub_no_wrap)
  ultimately have "unat (stop - (page + psize)) < unat (stop - page)"
    by (simp only: word_le_nat_alt) (metis diff_less neq0_conv unat_eq_zero le_zero_eq)
  then show "((mp, tn, psize, page + psize, stop, s1), mp, tn, psize, page, stop, s) \<in> measure (\<lambda>(mp, tn, psize, page, stop, s). unat (stop - page))"
    by simp
qed simp

declare register_loop.simps [simp del]

text \<open>The pages of a range in window coordinates; \<^const>\<open>None\<close> if the range leaves the window.\<close>

definition window_range :: "'h Smc \<Rightarrow> u64 \<Rightarrow> u64 \<Rightarrow> (u64 \<times> u64) option" where
  "window_range s lo_addr hi_addr =
     (if gmask s \<noteq> - 1 then
        let len = hi_addr - lo_addr; lo = lo_addr AND gmask s in
        if len > gmask s + 1 - lo then None else Some (lo, lo + len - 1)
      else Some (lo_addr, hi_addr - 1))"

definition RegisterNode :: "(u64 \<Rightarrow> bool \<Rightarrow> bool) \<Rightarrow> u64 \<Rightarrow> nat \<Rightarrow> u64 \<Rightarrow> u64 \<Rightarrow> 'h Smc \<Rightarrow> 'h Smc" where
  "RegisterNode mp m node lo_addr hi_addr s =
     (if \<not> smc_enabled s \<or> \<not> locally_enabled s then s
      else if hi_addr \<le> lo_addr \<and> lo_addr = - 1 then s
      else
        let hi = (if hi_addr \<le> lo_addr then lo_addr + 1 else hi_addr) in
        case window_range s lo_addr hi of
          None \<Rightarrow> s
        | Some (page_lo, page_hi) \<Rightarrow>
            let first = PageKey s page_lo; stop = PageKey s page_hi in
            if stop < first then s
            else register_loop mp \<lparr>tn_module = m, tn_node = node, guest_start = lo_addr, guest_end = hi\<rparr> (page_size s) first stop s)"

section \<open>Clearing of dispatch slots\<close>

definition tracked_node :: "'h Smc \<Rightarrow> TrackedNode \<Rightarrow> AddressNode" where
  "tracked_node s tn = heap (module_at s (tn_module tn)) (tn_node tn)"

definition node_locations :: "'h Smc \<Rightarrow> TrackedNode \<Rightarrow> u64 list" where
  "node_locations s tn =
     (let x = tracked_node s tn in location x # (if node_type x = FunctionNode then func_blocks x else []))"

definition zero_l1 :: "u64 \<Rightarrow> nat option \<Rightarrow> (nat \<Rightarrow> TranslateTable) \<Rightarrow> nat \<Rightarrow> TranslateTable" where
  "zero_l1 loc t tables = (case t of None \<Rightarrow> tables | Some i \<Rightarrow> tables(i := fst (Table_Zero (tables i) loc)))"

definition clear_location :: "nat option \<Rightarrow> u64 \<Rightarrow> 'h Smc \<Rightarrow> 'h Smc" where
  "clear_location extra_l1 loc s =
     s\<lparr>code_cache_table := fst (Table_Zero (code_cache_table s) loc),
       call_code_cache_table := fst (Table_Zero (call_code_cache_table s) loc),
       pending_call_code_cache_table := fst (Table_Zero (pending_call_code_cache_table s) loc),
       l1_table := fold (\<lambda>r tables. let t = l1 (token (epochs s) r) in if t \<noteq> None \<and> t \<noteq> extra_l1 then zero_l1 loc t tables else tables)
         (runtimes (epochs s)) (zero_l1 loc extra_l1 (l1_table s))\<rparr>"

definition ClearDispatchSlots :: "nat option \<Rightarrow> u64 list \<Rightarrow> TrackedNode \<Rightarrow> 'h Smc \<Rightarrow> 'h Smc" where
  "ClearDispatchSlots extra_l1 aliases tn s =
     (let s1 = fold (clear_location extra_l1) (node_locations s tn @ aliases) s in
      s1\<lparr>epochs := PublishExitRequest (exit_latch_enabled s1) (epochs s1)\<rparr>)"

definition same_node :: "TrackedNode \<Rightarrow> TrackedNode \<Rightarrow> bool" where
  "same_node a b = (tn_module a = tn_module b \<and> tn_node a = tn_node b)"

definition RemoveTrackedNode :: "TrackedNode \<Rightarrow> 'h Smc \<Rightarrow> 'h Smc" where
  "RemoveTrackedNode tn s = s\<lparr>pages := map_pages (\<lambda>r. r\<lparr>page_nodes := filter (\<lambda>x. \<not> same_node x tn) (page_nodes r)\<rparr>) (pages s)\<rparr>"

text \<open>Collecting the nodes of some page records, each node once, and forgetting them everywhere.\<close>

fun collect :: "nat option \<Rightarrow> TrackedNode list \<Rightarrow> TrackedNode list \<Rightarrow> 'h Smc \<Rightarrow> 'h Smc \<times> TrackedNode list" where
  "collect extra_l1 nodes [] s = (s, nodes)"
| "collect extra_l1 nodes (tn # tns) s =
     (if list_ex (\<lambda>other. same_node other tn) nodes then collect extra_l1 nodes tns s
      else collect extra_l1 (nodes @ [tn]) tns (ClearDispatchSlots extra_l1 [] tn s))"

definition take_nodes :: "nat option \<Rightarrow> TrackedNode list \<Rightarrow> 'h Smc \<Rightarrow> 'h Smc \<times> TrackedNode list" where
  "take_nodes extra_l1 tns s =
     (let (s1, nodes) = collect extra_l1 [] tns s in (fold RemoveTrackedNode nodes s1, nodes))"

definition TakeDirtyNodes :: "nat option \<Rightarrow> 'h Smc \<Rightarrow> 'h Smc \<times> TrackedNode list" where
  "TakeDirtyNodes extra_l1 s =
     take_nodes extra_l1 (concat (map (\<lambda>(k, r). if dirty r then page_nodes r else []) (pages s))) s"

text \<open>The page walk of a range: unlike that of \<^const>\<open>RegisterNode\<close> it steps past the stop page.\<close>

partial_function (option) page_walk :: "u64 \<Rightarrow> u64 \<Rightarrow> u64 \<Rightarrow> u64 list option" where
  [code]: "page_walk psize page stop =
     (if page \<le> stop then Option.bind (page_walk psize (page + psize) stop) (\<lambda>ps. Some (page # ps)) else Some [])"

definition TakeRangeNodes :: "nat option \<Rightarrow> u64 \<Rightarrow> u64 \<Rightarrow> 'h Smc \<Rightarrow> ('h Smc \<times> TrackedNode list) option" where
  "TakeRangeNodes extra_l1 first stop s = do {
     walk \<leftarrow> page_walk (page_size s) first stop;
     Some (take_nodes extra_l1
       (concat (map (\<lambda>p. case map_of (pages s) p of None \<Rightarrow> [] | Some r \<Rightarrow> page_nodes r) walk)) s) }"

section \<open>The write fault\<close>

fun signal_invalidate :: "u64 list \<Rightarrow> 'h Smc \<Rightarrow> 'h Smc option" where
  "signal_invalidate [] s = Some s"
| "signal_invalidate (t # ts) s = do {
     (ls, found, _) \<leftarrow> SignalInvalidateTarget t (link_state s);
     signal_invalidate ts (s\<lparr>link_state := ls, epochs := (if found then AdvanceCodePatchEpoch (epochs s) else epochs s)\<rparr>) }"

definition HandleWriteFault :: "(u64 \<Rightarrow> bool \<Rightarrow> bool) \<Rightarrow> nat \<Rightarrow> u64 \<Rightarrow> 'h Smc \<Rightarrow> ('h Smc \<times> bool) option" where
  "HandleWriteFault mp current_l1 fault_host_addr s =
     (let page = PageKey s (fault_host_addr - bias s) in
      case map_of (pages s) page of
        None \<Rightarrow> Some (s, False)
      | Some rec \<Rightarrow>
          if claim_stale_fault rec \<and> \<not> write_protected rec then Some (s, True)
          else if dirty rec \<and> \<not> write_protected rec then Some (MarkCloseWorkPending s, True)
          else if \<not> write_protected rec then Some (s, False)
          else do {
            s1 \<leftarrow> signal_invalidate (concat (map (node_locations s) (page_nodes rec))) (MarkCloseWorkPending s);
            let (s2, ok) = SetPageProtected mp page False s1;
            if \<not> ok then Some (s2, False)
            else Some (fold (ClearDispatchSlots (Some current_l1) []) (page_nodes rec)
              (s2\<lparr>pages := page_set page (rec\<lparr>write_protected := False, dirty := True\<rparr>) (pages s2)\<rparr>), True) })"

section \<open>Retirement\<close>

definition region_map :: "'h Smc \<Rightarrow> modules" where
  "region_map s = (\<lambda>m. map (\<lambda>(_, c). cc_region c) (code_caches (module_at s m)))"

definition Smc_DelinkTargets :: "TrackedNode list \<Rightarrow> u64 list \<Rightarrow> 'h Smc \<Rightarrow> 'h Smc option" where
  "Smc_DelinkTargets nodes aliases s = do {
     (ls, patched_any) \<leftarrow> DelinkTargets (region_map s) (remdups (concat (map (node_locations s) nodes) @ aliases)) (link_state s);
     Some (s\<lparr>link_state := ls, epochs := (if patched_any then AdvanceCodePatchEpoch (epochs s) else epochs s)\<rparr>) }"

definition set_module :: "u64 \<Rightarrow> 'h Module \<Rightarrow> 'h Smc \<Rightarrow> 'h Smc" where
  "set_module m M s = s\<lparr>module_at := (module_at s)(m := M)\<rparr>"

definition detach_source :: "u64 \<Rightarrow> u64 \<Rightarrow> 'h Smc \<Rightarrow> 'h Smc" where
  "detach_source m exec_ptr s =
     s\<lparr>link_state := (fst (DetachSource \<lparr>owner_module = m, owner_allocation = exec_ptr\<rparr> (fst (link_state s))), snd (link_state s))\<rparr>"

fun detach_nodes :: "TrackedNode list \<Rightarrow> 'h Smc \<Rightarrow> ('h Smc \<times> ReclaimCandidate list) option" where
  "detach_nodes [] s = Some (s, [])"
| "detach_nodes (tn # tns) s = do {
     (M, exec_ptr) \<leftarrow> DetachNode (tn_node tn) (module_at s (tn_module tn));
     let s1 = set_module (tn_module tn) M s;
     let s2 = (if exec_ptr \<noteq> 0 then detach_source (tn_module tn) exec_ptr s1 else s1);
     (s3, cands) \<leftarrow> detach_nodes tns s2;
     Some (s3, (if exec_ptr \<noteq> 0 then [ReclaimCandidate (tn_module tn) exec_ptr] else []) @ cands) }"

definition Retire :: "ReclaimCandidate list \<Rightarrow> 'h Smc \<Rightarrow> 'h Smc" where
  "Retire candidates s =
     (if candidates = [] then s
      else (MarkCloseWorkPending s)\<lparr>epochs := Retire_push (Retire_epoch candidates (epochs s))\<rparr>)"

definition CanReclaim :: "SmcEpochs \<Rightarrow> u64 \<Rightarrow> bool" where
  "CanReclaim e retire_epoch = (\<not> list_ex (\<lambda>r. CanReclaim_blocked retire_epoch (token e r)) (runtimes e))"

fun reclaim_ready :: "'h Mspace \<Rightarrow> (ReclaimCandidate \<times> u64) list \<Rightarrow> 'h Smc \<Rightarrow> 'h Smc option" where
  "reclaim_ready ms [] s = Some s"
| "reclaim_ready ms ((ReclaimCandidate m exec_ptr, e) # rs) s = do {
     (lm, _) \<leftarrow> PurgeSource \<lparr>owner_module = m, owner_allocation = exec_ptr\<rparr> (fst (link_state s));
     M \<leftarrow> ReclaimCode ms exec_ptr (module_at s m);
     reclaim_ready ms rs (set_module m M (s\<lparr>link_state := (lm, snd (link_state s)),
       epochs := (epochs s)\<lparr>freed := insert (ReclaimCandidate m exec_ptr) (freed (epochs s))\<rparr>\<rparr>)) }"

definition MaybeClearCloseWorkPending :: "'h Smc \<Rightarrow> 'h Smc" where
  "MaybeClearCloseWorkPending s =
     (if \<not> dirty_hint_enabled s \<or> retired (epochs s) \<noteq> [] \<or> list_ex (\<lambda>(k, r). dirty r) (pages s) then s
      else s\<lparr>close_work_pending := False\<rparr>)"

definition ReclaimRetiredLocked :: "'h Mspace \<Rightarrow> 'h Smc \<Rightarrow> 'h Smc option" where
  "ReclaimRetiredLocked ms s = do {
     let e = epochs s;
     let s1 = s\<lparr>epochs := e\<lparr>retired := filter (\<lambda>(c, re). \<not> CanReclaim e re) (retired e)\<rparr>\<rparr>;
     s2 \<leftarrow> reclaim_ready ms (filter (\<lambda>(c, re). CanReclaim e re) (retired e)) s1;
     Some (MaybeClearCloseWorkPending s2) }"

section \<open>Closing the write window\<close>

text \<open>
  While the closing thread detaches a batch it does not hold the metadata lock: other threads publish
  translations and take write faults.  \<open>env\<close> lists what they do in each round, and nothing after its end.
  \<^const>\<open>None\<close> is a loop that does not end; inside, \<^const>\<open>None\<close> is a failed assertion.
\<close>

datatype env_op = EnvRegister u64 nat u64 u64 | EnvFault nat u64

fun run_env :: "(u64 \<Rightarrow> bool \<Rightarrow> bool) \<Rightarrow> env_op list \<Rightarrow> 'h Smc \<Rightarrow> 'h Smc option" where
  "run_env mp [] s = Some s"
| "run_env mp (EnvRegister m n lo hi # es) s = run_env mp es (RegisterNode mp m n lo hi s)"
| "run_env mp (EnvFault i a # es) s = Option.bind (HandleWriteFault mp i a s) (\<lambda>(s', _). run_env mp es s')"

definition close_batch :: "(u64 \<Rightarrow> bool \<Rightarrow> bool) \<Rightarrow> env_op list \<Rightarrow> TrackedNode list \<Rightarrow> 'h Smc \<Rightarrow> ('h Smc \<times> ReclaimCandidate list) option" where
  "close_batch mp es nodes s = do {
     s1 \<leftarrow> Smc_DelinkTargets nodes [] s;
     (s2, cands) \<leftarrow> detach_nodes nodes s1;
     s3 \<leftarrow> run_env mp es s2;
     Some (s3, cands) }"

definition close_pages :: "'h Smc \<Rightarrow> 'h Smc" where
  "close_pages s = s\<lparr>pages := map_pages (\<lambda>r. if dirty r then r\<lparr>dirty := False, claim_stale_fault := True\<rparr> else r) (pages s)\<rparr>"

partial_function (option) close_loop ::
  "(u64 \<Rightarrow> bool \<Rightarrow> bool) \<Rightarrow> nat \<Rightarrow> env_op list list \<Rightarrow> ReclaimCandidate list \<Rightarrow> 'h Smc \<Rightarrow> ('h Smc \<times> ReclaimCandidate list) option option" where
  [code]: "close_loop mp current_l1 env candidates s =
     (case TakeDirtyNodes (Some current_l1) s of (s1, nodes) \<Rightarrow>
        if nodes = [] then Some (Some (close_pages s1, candidates))
        else (case close_batch mp (case env of [] \<Rightarrow> [] | e # _ \<Rightarrow> e) nodes s1 of
            None \<Rightarrow> Some None
          | Some (s2, cands) \<Rightarrow> close_loop mp current_l1 (tl env) (candidates @ cands) s2))"

definition CloseWriteWindow :: "(u64 \<Rightarrow> bool \<Rightarrow> bool) \<Rightarrow> 'h Mspace \<Rightarrow> nat \<Rightarrow> env_op list list \<Rightarrow> 'h Smc \<Rightarrow> 'h Smc option option" where
  "CloseWriteWindow mp ms current_l1 env s =
     (if dirty_hint_enabled s \<and> \<not> close_work_pending s \<and> retired (epochs s) = [] then Some (Some s)
      else map_option (\<lambda>r. Option.bind r (\<lambda>(s1, candidates). ReclaimRetiredLocked ms (Retire candidates s1)))
        (close_loop mp current_l1 env [] s))"

section \<open>Synchronous invalidation\<close>

fun release_pages :: "(u64 \<Rightarrow> bool \<Rightarrow> bool) \<Rightarrow> u64 list \<Rightarrow> 'h Smc \<Rightarrow> 'h Smc" where
  "release_pages mp [] s = s"
| "release_pages mp (p # ps) s =
     (case map_of (pages s) p of
        None \<Rightarrow> release_pages mp ps s
      | Some r \<Rightarrow>
          let s1 = (if write_protected r then fst (SetPageProtected mp p False s) else s) in
          release_pages mp ps (s1\<lparr>pages := filter (\<lambda>(k, _). k \<noteq> p) (pages s1)\<rparr>))"

partial_function (option) range_loop ::
  "(u64 \<Rightarrow> bool \<Rightarrow> bool) \<Rightarrow> nat option \<Rightarrow> u64 \<Rightarrow> u64 \<Rightarrow> env_op list list \<Rightarrow> ReclaimCandidate list \<Rightarrow> 'h Smc \<Rightarrow> ('h Smc \<times> ReclaimCandidate list) option option" where
  [code]: "range_loop mp extra_l1 first stop env candidates s =
     Option.bind (TakeRangeNodes extra_l1 first stop s) (\<lambda>(s1, nodes).
        if nodes = [] then Option.bind (page_walk (page_size s1) first stop) (\<lambda>walk. Some (Some (release_pages mp walk s1, candidates)))
        else (case close_batch mp (case env of [] \<Rightarrow> [] | e # _ \<Rightarrow> e) nodes s1 of
            None \<Rightarrow> Some None
          | Some (s2, cands) \<Rightarrow> range_loop mp extra_l1 first stop (tl env) (candidates @ cands) s2))"

definition InvalidateRange :: "(u64 \<Rightarrow> bool \<Rightarrow> bool) \<Rightarrow> 'h Mspace \<Rightarrow> nat option \<Rightarrow> u64 \<Rightarrow> u64 \<Rightarrow> env_op list list \<Rightarrow> 'h Smc \<Rightarrow> 'h Smc option option" where
  "InvalidateRange mp ms current_l1 lo_addr hi_addr env s =
     (if hi_addr \<le> lo_addr then Some (Some s)
      else case window_range s lo_addr hi_addr of
        None \<Rightarrow> Some (Some s)
      | Some (lo, hi) \<Rightarrow>
          map_option (\<lambda>r. Option.bind r (\<lambda>(s1, candidates). ReclaimRetiredLocked ms (Retire candidates s1)))
            (range_loop mp current_l1 (PageKey s lo) (PageKey s hi) env [] s))"

definition RetireNode :: "'h Mspace \<Rightarrow> nat option \<Rightarrow> u64 \<Rightarrow> nat \<Rightarrow> 'h Smc \<Rightarrow> ('h Smc \<times> bool) option" where
  "RetireNode ms current_l1 m n s =
     (let M = module_at s m; x = heap M n; published = GetJitCache M (jit_cache x) in
      if GetNode M (location x) \<noteq> Some n \<or> node_type x = NoneNode \<or> published = 0 then Some (s, False)
      else do {
        let owner = \<lparr>owner_module = m, owner_allocation = published\<rparr>;
        let aliases = QueryTargets (fst (link_state s)) owner;
        let tn = \<lparr>tn_module = m, tn_node = n, guest_start = location x, guest_end = location x + 1\<rparr>;
        let s1 = RemoveTrackedNode tn (ClearDispatchSlots current_l1 aliases tn s);
        s2 \<leftarrow> Smc_DelinkTargets [tn] aliases s1;
        (M', exec_ptr) \<leftarrow> DetachNode n (module_at s2 m);
        ASSERT (exec_ptr = published);
        s3 \<leftarrow> ReclaimRetiredLocked ms (Retire [ReclaimCandidate m exec_ptr] (detach_source m exec_ptr (set_module m M' s2)));
        Some (s3, True) })"

fun unprotect_all :: "(u64 \<Rightarrow> bool \<Rightarrow> bool) \<Rightarrow> (u64 \<times> PageRecord) list \<Rightarrow> 'h Smc \<Rightarrow> 'h Smc" where
  "unprotect_all mp [] s = s"
| "unprotect_all mp ((k, r) # ps) s = unprotect_all mp ps (if write_protected r then fst (SetPageProtected mp k False s) else s)"

definition DisableAndUnprotectAll :: "(u64 \<Rightarrow> bool \<Rightarrow> bool) \<Rightarrow> 'h Mspace \<Rightarrow> 'h Smc \<Rightarrow> 'h Smc option" where
  "DisableAndUnprotectAll mp ms s =
     (let e = epochs s;
          e' = e\<lparr>token := (\<lambda>r. if r \<in> set (runtimes e) then (token e r)\<lparr>active_epoch := kInactiveEpoch\<rparr> else token e r)\<rparr>;
          s1 = unprotect_all mp (pages s) (s\<lparr>locally_enabled := False, epochs := e'\<rparr>) in
      ReclaimRetiredLocked ms (s1\<lparr>pages := []\<rparr>))"

definition HasProtectedPages :: "'h Smc \<Rightarrow> bool" where
  "HasProtectedPages s = list_ex (\<lambda>(k, r). write_protected r) (pages s)"

end
