(* ===== verification/Range_Map.thy ===== *)
theory Range_Map
  imports Prelude
begin

text \<open>
  The interval map of \<^verbatim>\<open>common/range_map.h\<close> and the module map that
  \<^verbatim>\<open>backend/address_space.cpp\<close> keeps in one.  The container holds, in key order, the points where
  the mapped value changes; the keys are signed 64-bit numbers.  It is shown to implement the update
  of a function on an interval.
\<close>

section \<open>The container\<close>

definition key_min :: int where "key_min = - (2 ^ 63)"
definition key_max :: int where "key_max = 2 ^ 63 - 1"

record 'v RangeMap =
  null_value :: 'v
  container :: "(int \<times> 'v) list"

definition RangeMap_new :: "'v \<Rightarrow> 'v RangeMap" where
  "RangeMap_new null = \<lparr>null_value = null, container = [(key_min, null)]\<rparr>"

text \<open>The elements before and from an iterator.\<close>

definition before :: "(int \<Rightarrow> bool) \<Rightarrow> (int \<times> 'v) list \<Rightarrow> (int \<times> 'v) list" where
  "before p c = takeWhile (\<lambda>(k, _). p k) c"

definition from_on :: "(int \<Rightarrow> bool) \<Rightarrow> (int \<times> 'v) list \<Rightarrow> (int \<times> 'v) list" where
  "from_on p c = dropWhile (\<lambda>(k, _). p k) c"

definition emplace :: "int \<Rightarrow> 'v \<Rightarrow> (int \<times> 'v) list \<Rightarrow> (int \<times> 'v) list" where
  "emplace k v c =
     (case from_on (\<lambda>x. x < k) c of
        (k', v') # xs \<Rightarrow> if k' = k then c else before (\<lambda>x. x < k) c @ (k, v) # (k', v') # xs
      | [] \<Rightarrow> c @ [(k, v)])"

definition GetFirstElementBeforeOrOn :: "'v RangeMap \<Rightarrow> int \<Rightarrow> (int \<times> 'v) option \<times> (int \<times> 'v) list" where
  "GetFirstElementBeforeOrOn m address =
     (let pre = before (\<lambda>x. x < address) (container m); it = from_on (\<lambda>x. x < address) (container m) in
      if pre = [] \<or> it \<noteq> [] \<and> fst (hd it) = address
      then (case it of [] \<Rightarrow> (None, []) | x # xs \<Rightarrow> (Some x, xs))
      else (Some (last pre), it))"

definition GetFirstValueWithin :: "'v RangeMap \<Rightarrow> int \<Rightarrow> 'v" where
  "GetFirstValueWithin m address =
     (let pre = before (\<lambda>x. x < address) (container m); it = from_on (\<lambda>x. x < address) (container m) in
      if pre = [] then snd (hd it) else if it = [] then null_value m else snd (last pre))"

definition GetLastValueWithin :: "'v RangeMap \<Rightarrow> int \<Rightarrow> 'v" where
  "GetLastValueWithin m address =
     (let pre = before (\<lambda>x. x \<le> address) (container m); it = from_on (\<lambda>x. x \<le> address) (container m) in
      if it = [] then null_value m else if pre = [] then snd (hd it) else snd (last pre))"

definition GetValueInternal :: "'v RangeMap \<Rightarrow> int \<Rightarrow> 'v" where
  "GetValueInternal m address = (case fst (GetFirstElementBeforeOrOn m address) of None \<Rightarrow> null_value m | Some (_, v) \<Rightarrow> v)"

definition ContinuousSizeInternal :: "'v RangeMap \<Rightarrow> int \<Rightarrow> int" where
  "ContinuousSizeInternal m address =
     (case GetFirstElementBeforeOrOn m address of
        (None, _) \<Rightarrow> 0
      | (Some (_, v), rest) \<Rightarrow>
          if v = null_value m then 0
          else (case rest of [] \<Rightarrow> key_max - address | (k, _) # _ \<Rightarrow> k - address))"

text \<open>
  The erasing loop of \<^verbatim>\<open>InternalMap\<close> runs past the end of the container when the first iterator lies
  beyond the second; that is \<^const>\<open>None\<close>.
\<close>

definition InternalMap :: "int \<Rightarrow> int \<Rightarrow> 'v \<Rightarrow> 'v RangeMap \<Rightarrow> 'v RangeMap option" where
  "InternalMap address address_end value m =
     (let must_add_start = GetFirstValueWithin m address \<noteq> value;
          last_value = GetLastValueWithin m address_end;
          must_add_end = last_value \<noteq> value;
          pre = before (\<lambda>x. x < address) (container m);
          upto = before (\<lambda>x. x \<le> address_end) (container m) in
      if length upto < length pre then None
      else
        let c = pre @ from_on (\<lambda>x. x \<le> address_end) (container m);
            c1 = (if must_add_start then emplace address value c else c);
            c2 = (if must_add_end then emplace address_end last_value c1 else c1) in
        Some (m\<lparr>container := c2\<rparr>))"

definition clamp :: "u64 \<Rightarrow> int" where
  "clamp x = (if sint x < 0 then 0 else sint x)"

definition RangeMap_Map :: "u64 \<Rightarrow> u64 \<Rightarrow> 'v \<Rightarrow> 'v RangeMap \<Rightarrow> 'v RangeMap option" where
  "RangeMap_Map address address_end value m = InternalMap (clamp address) (clamp address_end) value m"

definition Unmap :: "u64 \<Rightarrow> u64 \<Rightarrow> 'v RangeMap \<Rightarrow> 'v RangeMap option" where
  "Unmap address address_end m = RangeMap_Map address address_end (null_value m) m"

definition GetContinuousSizeFrom :: "'v RangeMap \<Rightarrow> u64 \<Rightarrow> int" where
  "GetContinuousSizeFrom m address = (if sint address < 0 then 0 else ContinuousSizeInternal m (sint address))"

definition GetValueAt :: "'v RangeMap \<Rightarrow> u64 \<Rightarrow> 'v" where
  "GetValueAt m address = (if sint address < 0 then null_value m else GetValueInternal m (sint address))"

definition ForEachValue :: "'v RangeMap \<Rightarrow> 'v list" where
  "ForEachValue m = filter (\<lambda>v. v \<noteq> null_value m) (map snd (container m))"

section \<open>The module map\<close>

text \<open>A module is its index; the null pointer is \<^const>\<open>None\<close>.\<close>

record AddressSpaceModules =
  modules_map :: "nat option RangeMap"
  default_module :: "nat option"

definition MapModule :: "u64 \<Rightarrow> u64 \<Rightarrow> nat \<Rightarrow> AddressSpaceModules \<Rightarrow> AddressSpaceModules option" where
  "MapModule start stop module s = map_option (\<lambda>r. s\<lparr>modules_map := r\<rparr>) (RangeMap_Map start stop (Some module) (modules_map s))"

definition UnmapModule :: "u64 \<Rightarrow> u64 \<Rightarrow> AddressSpaceModules \<Rightarrow> AddressSpaceModules option" where
  "UnmapModule start stop s = map_option (\<lambda>r. s\<lparr>modules_map := r\<rparr>) (Unmap start stop (modules_map s))"

definition GetModule :: "AddressSpaceModules \<Rightarrow> u64 \<Rightarrow> nat option" where
  "GetModule s location = (case GetValueAt (modules_map s) location of None \<Rightarrow> default_module s | Some m \<Rightarrow> Some m)"

definition GetMappedModules :: "AddressSpaceModules \<Rightarrow> nat list" where
  "GetMappedModules s = fold (\<lambda>v result. case v of None \<Rightarrow> result | Some m \<Rightarrow> if m \<in> set result then result else result @ [m])
     (ForEachValue (modules_map s)) []"

section \<open>The function a container represents\<close>

fun seg :: "'v \<Rightarrow> (int \<times> 'v) list \<Rightarrow> int \<Rightarrow> 'v" where
  "seg d [] x = d"
| "seg d ((k, v) # c) x = (if k \<le> x then seg v c x else d)"

definition ascending :: "(int \<times> 'v) list \<Rightarrow> bool" where
  "ascending c = sorted_wrt (\<lambda>a b. fst a < fst b) c"

definition coalesced :: "(int \<times> 'v) list \<Rightarrow> bool" where
  "coalesced c = successively (\<lambda>a b. snd a \<noteq> snd b) c"

definition range_ok :: "'v RangeMap \<Rightarrow> bool" where
  "range_ok m \<longleftrightarrow> ascending (container m) \<and> coalesced (container m) \<and> container m \<noteq> [] \<and>
     hd (container m) = (key_min, null_value m) \<and> (\<forall>(k, v) \<in> set (tl (container m)). 0 \<le> k \<and> k \<le> key_max) \<and>
     snd (last (container m)) = null_value m"

definition last_value :: "'v \<Rightarrow> (int \<times> 'v) list \<Rightarrow> 'v" where
  "last_value d c = (if c = [] then d else snd (last c))"

lemma last_value_simps [simp]:
  "last_value d [] = d" "last_value d ((k, v) # c) = last_value v c" "last_value d (c @ c') = last_value (last_value d c) c'"
  by (simp_all add: last_value_def)

lemma seg_append: "seg d (xs @ ys) x = (if \<forall>(k, v) \<in> set xs. k \<le> x then seg (last_value d xs) ys x else seg d xs x)"
  by (induction d xs x rule: seg.induct) auto

lemma seg_below: "\<forall>(k, v) \<in> set c. x < k \<Longrightarrow> seg d c x = d"
  by (cases c) auto

lemma seg_above: "\<forall>(k, v) \<in> set c. k \<le> x \<Longrightarrow> seg d c x = last_value d c"
  using seg_append[of d c "[]" x] by simp

lemma split_at:
  assumes "ascending c" "\<And>x y. x < y \<Longrightarrow> p y \<Longrightarrow> p x"
  shows "c = before p c @ from_on p c \<and> (\<forall>(k, v) \<in> set (before p c). p k) \<and> (\<forall>(k, v) \<in> set (from_on p c). \<not> p k)"
  using assms(1)
proof (induction c)
  case (Cons a c)
  have "\<forall>(k, v) \<in> set c. \<not> p k" if "\<not> p (fst a)" using Cons.prems that assms(2) by (fastforce simp: ascending_def)
  then show ?case using Cons by (cases a) (auto simp: before_def from_on_def ascending_def)
qed (simp add: before_def from_on_def)

lemma before_append [simp]:
  assumes "\<forall>(k, v) \<in> set xs. p k" "\<forall>(k, v) \<in> set ys. \<not> p k"
  shows "before p (xs @ ys) = xs" "from_on p (xs @ ys) = ys"
proof -
  have "takeWhile (\<lambda>(k, _). p k) ys = [] \<and> dropWhile (\<lambda>(k, _). p k) ys = ys" using assms(2) by (cases ys) auto
  then show "before p (xs @ ys) = xs" "from_on p (xs @ ys) = ys"
    using assms(1) by (simp_all add: before_def from_on_def takeWhile_append2 dropWhile_append2)
qed

lemma emplace_between:
  assumes "\<forall>(k', v') \<in> set xs. k' < k" "\<forall>(k', v') \<in> set ys. k < k'"
  shows "emplace k v (xs @ ys) = xs @ (k, v) # ys"
proof -
  have "\<forall>(k', v') \<in> set ys. \<not> k' < k" using assms(2) by auto
  then show ?thesis using assms before_append[of xs "\<lambda>x. x < k" ys] unfolding emplace_def by (auto split: list.split)
qed

lemma ascending_append:
  "ascending (xs @ ys) \<longleftrightarrow> ascending xs \<and> ascending ys \<and> (\<forall>(k, v) \<in> set xs. \<forall>(k', v') \<in> set ys. k < k')"
  by (simp add: ascending_def sorted_wrt_append case_prod_beta)

lemma coalesced_append:
  "coalesced (xs @ ys) \<longleftrightarrow> coalesced xs \<and> coalesced ys \<and> (xs = [] \<or> ys = [] \<or> snd (last xs) \<noteq> snd (hd ys))"
  by (auto simp: coalesced_def successively_append_iff)

text \<open>The element an address falls to, and the elements above it.\<close>

lemma range_at:
  assumes "range_ok m" "key_min \<le> x"
  obtains P k v S where "container m = P @ (k, v) # S" "k \<le> x" "\<forall>(k', v') \<in> set P. k' < k" "\<forall>(k', v') \<in> set S. x < k'"
    "GetFirstElementBeforeOrOn m x = (Some (k, v), S)"
proof -
  let ?Q = "before (\<lambda>k. k \<le> x) (container m)" and ?S = "from_on (\<lambda>k. k \<le> x) (container m)"
  have asc: "ascending (container m)" using assms(1) by (simp add: range_ok_def)
  have s: "container m = ?Q @ ?S" "\<forall>(k, v) \<in> set ?Q. k \<le> x" "\<forall>(k, v) \<in> set ?S. \<not> k \<le> x"
    using split_at[OF asc, of "\<lambda>k. k \<le> x"] by auto
  have "?Q \<noteq> []"
  proof
    assume "?Q = []"
    then have "\<not> fst (hd (container m)) \<le> x" using s assms(1) by (cases ?S) (auto simp: range_ok_def)
    then show False using assms by (simp add: range_ok_def)
  qed
  then obtain P k v where Q: "?Q = P @ [(k, v)]" by (metis rev_exhaust surj_pair)
  define S where "S = ?S"
  have c: "container m = P @ (k, v) # S" using s(1) unfolding Q S_def by simp
  have k: "k \<le> x" using s(2) unfolding Q by simp
  have S: "\<forall>(k', v') \<in> set S. x < k'" using s(3) unfolding S_def by fastforce
  have P: "\<forall>(k', v') \<in> set P. k' < k" using asc unfolding c ascending_append by fastforce
  have "GetFirstElementBeforeOrOn m x = (Some (k, v), S)"
  proof (cases "k = x")
    case True
    have "\<forall>(k', v') \<in> set P. k' < x" "\<forall>(k', v') \<in> set ((k, v) # S). \<not> k' < x" using P S True by fastforce+
    then show ?thesis unfolding GetFirstElementBeforeOrOn_def c Let_def using True by simp
  next
    case False
    then have "\<forall>(k', v') \<in> set (P @ [(k, v)]). k' < x" "\<forall>(k', v') \<in> set S. \<not> k' < x" using P S k by fastforce+
    then have "before (\<lambda>k. k < x) (container m) = P @ [(k, v)]" "from_on (\<lambda>k. k < x) (container m) = S"
      using before_append[of "P @ [(k, v)]" "\<lambda>k. k < x" S] c by simp_all
    then show ?thesis unfolding GetFirstElementBeforeOrOn_def Let_def using S by (cases S) auto
  qed
  then show ?thesis using that c k P S by blast
qed

lemma GetValueInternal_seg:
  assumes "range_ok m" "key_min \<le> x"
  shows "GetValueInternal m x = seg (null_value m) (container m) x"
proof -
  obtain P k v S where c: "container m = P @ (k, v) # S" "k \<le> x" "\<forall>(k', v') \<in> set P. k' < k" "\<forall>(k', v') \<in> set S. x < k'"
    "GetFirstElementBeforeOrOn m x = (Some (k, v), S)" by (rule range_at[OF assms])
  have "\<forall>(k', v') \<in> set P. k' \<le> x" using c(2,3) by fastforce
  then show ?thesis using c(2,5) seg_below[OF c(4)] unfolding GetValueInternal_def c(1) by (simp add: seg_append)
qed

text \<open>How an interval cuts the container.\<close>

lemma range_cut:
  assumes "range_ok m" "0 \<le> a" "a < b"
  obtains P M S where "container m = P @ M @ S" "P \<noteq> []" "\<forall>(k, v) \<in> set P. k < a" "\<forall>(k, v) \<in> set M. a \<le> k \<and> k \<le> b"
    "\<forall>(k, v) \<in> set S. b < k" "before (\<lambda>x. x < a) (container m) = P" "from_on (\<lambda>x. x < a) (container m) = M @ S"
    "before (\<lambda>x. x \<le> b) (container m) = P @ M" "from_on (\<lambda>x. x \<le> b) (container m) = S"
proof -
  let ?P = "before (\<lambda>x. x < a) (container m)" and ?I = "from_on (\<lambda>x. x < a) (container m)"
  have c: "ascending (container m)" using assms(1) by (simp add: range_ok_def)
  have 1: "container m = ?P @ ?I" "\<forall>(k, v) \<in> set ?P. k < a" "\<forall>(k, v) \<in> set ?I. \<not> k < a"
    using split_at[OF c, of "\<lambda>x. x < a"] by auto
  have ai: "ascending ?I" using c 1(1) unfolding ascending_def by (metis sorted_wrt_append)
  let ?M = "before (\<lambda>x. x \<le> b) ?I" and ?S = "from_on (\<lambda>x. x \<le> b) ?I"
  have 2: "?I = ?M @ ?S" "\<forall>(k, v) \<in> set ?M. k \<le> b" "\<forall>(k, v) \<in> set ?S. \<not> k \<le> b"
    using split_at[OF ai, of "\<lambda>x. x \<le> b"] by auto
  have 3: "container m = (?P @ ?M) @ ?S" using 1(1) 2(1) by simp
  have pm: "\<forall>(k, v) \<in> set (?P @ ?M). k \<le> b" using 1(2) 2(2) assms(3) by fastforce
  have ge: "\<forall>(k, v) \<in> set ?M. a \<le> k" 
  proof -
    have "set ?M \<subseteq> set ?I" using 2(1) by (metis Un_upper1 set_append)
    then show ?thesis using 1(3) by fastforce
  qed
  have "?P \<noteq> []"
  proof
    assume n: "?P = []"
    then have "fst (hd (container m)) \<ge> a" using 1(1,3) assms(1) by (cases ?I) (auto simp: range_ok_def)
    then show False using assms(1,2) by (simp add: range_ok_def key_min_def)
  qed
  moreover have "before (\<lambda>x. x \<le> b) (container m) = ?P @ ?M" "from_on (\<lambda>x. x \<le> b) (container m) = ?S"
    using before_append[OF pm 2(3)] 3 by simp_all
  moreover have "container m = ?P @ ?M @ ?S" using 3 by simp
  moreover have "?I = ?M @ ?S" using 2(1) .
  moreover have "\<forall>(k, v) \<in> set ?M. a \<le> k \<and> k \<le> b" using ge 2(2) by fastforce
  moreover have "\<forall>(k, v) \<in> set ?S. b < k" using 2(3) by fastforce
  ultimately show ?thesis using 1(2) by (intro that[of ?P ?M ?S]) (assumption | rule refl)+
qed

lemma first_value:
  assumes "range_ok m" "0 \<le> a" "container m = P @ I" "P \<noteq> []" "before (\<lambda>x. x < a) (container m) = P" "from_on (\<lambda>x. x < a) (container m) = I"
  shows "GetFirstValueWithin m a = snd (last P)"
  using assms by (cases "I = []") (auto simp: GetFirstValueWithin_def Let_def range_ok_def)

lemma last_value_within:
  assumes "range_ok m" "container m = P @ I" "P \<noteq> []" "before (\<lambda>x. x \<le> b) (container m) = P" "from_on (\<lambda>x. x \<le> b) (container m) = I"
  shows "GetLastValueWithin m b = snd (last P)"
  using assms by (cases "I = []") (auto simp: GetLastValueWithin_def Let_def range_ok_def)

lemma InternalMap_container:
  assumes "range_ok m" "0 \<le> a" "a < b"
  obtains P M S where "container m = P @ M @ S" "P \<noteq> []" "\<forall>(k, v) \<in> set P. k < a" "\<forall>(k, v) \<in> set M. a \<le> k \<and> k \<le> b"
    "\<forall>(k, v) \<in> set S. b < k"
    "InternalMap a b w m = Some (m\<lparr>container := P @ (if snd (last P) \<noteq> w then [(a, w)] else []) @
       (if snd (last (P @ M)) \<noteq> w then [(b, snd (last (P @ M)))] else []) @ S\<rparr>)"
proof -
  obtain P M S where c: "container m = P @ M @ S" "P \<noteq> []" "\<forall>(k, v) \<in> set P. k < a" "\<forall>(k, v) \<in> set M. a \<le> k \<and> k \<le> b"
    "\<forall>(k, v) \<in> set S. b < k" "before (\<lambda>x. x < a) (container m) = P" "from_on (\<lambda>x. x < a) (container m) = M @ S"
    "before (\<lambda>x. x \<le> b) (container m) = P @ M" "from_on (\<lambda>x. x \<le> b) (container m) = S"
    by (rule range_cut[OF assms])
  have f: "GetFirstValueWithin m a = snd (last P)" by (rule first_value[OF assms(1,2) c(1,2,6,7)])
  have l: "GetLastValueWithin m b = snd (last (P @ M))"
    by (rule last_value_within[OF assms(1) _ _ c(8,9)]) (simp_all add: c(1,2))
  define As where "As = (if snd (last P) \<noteq> w then [(a, w)] else [])"
  have e1: "(if snd (last P) \<noteq> w then emplace a w (P @ S) else P @ S) = P @ As @ S"
    using c(3,5) assms(3) by (auto simp: As_def intro!: emplace_between)
  have "emplace b v ((P @ As) @ S) = (P @ As) @ (b, v) # S" for v
    by (rule emplace_between) (use c(3,5) assms(3) in \<open>auto simp: As_def\<close>)
  then have "InternalMap a b w m = Some (m\<lparr>container := P @ As @ (if snd (last (P @ M)) \<noteq> w then [(b, snd (last (P @ M)))] else []) @ S\<rparr>)"
    unfolding InternalMap_def Let_def f l c(6,8,9) e1 by simp
  then show ?thesis using c(1-5) that unfolding As_def by simp
qed

lemma InternalMap_ok:
  assumes "range_ok m" "0 \<le> a" "a < b" "b \<le> key_max"
  obtains m' where "InternalMap a b w m = Some m'" "range_ok m'" "null_value m' = null_value m"
    "\<And>x. key_min \<le> x \<Longrightarrow> seg (null_value m) (container m') x = (if a \<le> x \<and> x < b then w else seg (null_value m) (container m) x)"
proof -
  obtain P M S where c: "container m = P @ M @ S" "P \<noteq> []" "\<forall>(k, v) \<in> set P. k < a" "\<forall>(k, v) \<in> set M. a \<le> k \<and> k \<le> b"
    "\<forall>(k, v) \<in> set S. b < k"
    "InternalMap a b w m = Some (m\<lparr>container := P @ (if snd (last P) \<noteq> w then [(a, w)] else []) @
       (if snd (last (P @ M)) \<noteq> w then [(b, snd (last (P @ M)))] else []) @ S\<rparr>)"
    by (rule InternalMap_container[OF assms(1-3)])
  define l where "l = snd (last (P @ M))"
  define As where "As = (if snd (last P) \<noteq> w then [(a, w)] else [])"
  define Bs where "Bs = (if l \<noteq> w then [(b, l)] else [])"
  let ?m = "m\<lparr>container := P @ As @ Bs @ S\<rparr>"
  have ok: "ascending P" "ascending S" "coalesced P" "coalesced S" "S \<noteq> [] \<Longrightarrow> l \<noteq> snd (hd S)"
    using assms(1) c(2) coalesced_append[of "P @ M" S] unfolding range_ok_def c(1) l_def by (auto simp: ascending_append coalesced_append)
  have lw: "snd (last (P @ As @ Bs)) = l"
    using c(2) by (auto simp: As_def Bs_def)
  have ps: "k < k'" if "(k, v) \<in> set P" "(k', v') \<in> set S" for k v k' v' using c(3,5) assms(3) that by fastforce
  have "ascending [(a, w)]" "ascending [(b, l)]" by (simp_all add: ascending_def)
  then have "ascending (container ?m)"
    using ok(1,2) c(3,5) assms(3) by (auto simp: As_def Bs_def ascending_append dest: ps) (auto simp: ascending_def)
  moreover have "coalesced (container ?m)"
  proof -
    have "coalesced (P @ As @ Bs)" using ok(3) c(2) by (auto simp: As_def Bs_def coalesced_append) (auto simp: coalesced_def)
    then show ?thesis using ok(4,5) lw c(2) coalesced_append[of "P @ As @ Bs" S] by auto
  qed
  moreover have "hd (container ?m) = (key_min, null_value m)" using assms(1) c(1,2) by (simp add: range_ok_def)
  moreover have "0 \<le> k \<and> k \<le> key_max" if "(k, v) \<in> set (tl (container ?m))" for k v
    using that c(1,2) assms by (auto simp: range_ok_def As_def Bs_def split: if_splits)
  moreover have "snd (last (container ?m)) = null_value m"
    using assms(1) lw c(1,2) by (cases "S = []") (auto simp: range_ok_def l_def)
  ultimately have r: "range_ok ?m" using c(2) by (auto simp: range_ok_def)
  have v: "seg (null_value m) (container ?m) x = (if a \<le> x \<and> x < b then w else seg (null_value m) (container m) x)" for x
  proof (cases "a \<le> x")
    case True
    then have p: "\<forall>(k, v) \<in> set P. k \<le> x" using c(3) by fastforce
    have d: "last_value (null_value m) P = snd (last P)" using c(2) by (simp add: last_value_def)
    show ?thesis
    proof (cases "x < b")
      case lt: True
      then have "\<forall>(k, v) \<in> set (Bs @ S). x < k" using c(5) by (auto simp: Bs_def)
      then have "seg w (Bs @ S) x = w" by (rule seg_below)
      moreover have "seg (null_value m) (P @ As @ Bs @ S) x = seg (snd (last P)) (As @ Bs @ S) x"
        using p d seg_append[of "null_value m" P "As @ Bs @ S" x] by simp
      ultimately show ?thesis using True lt by (cases "snd (last P) = w") (simp_all add: As_def)
    next
      case False
      then have pm: "\<forall>(k, v) \<in> set (P @ M). k \<le> x" using p c(4) by fastforce
      have "\<forall>(k, v) \<in> set (P @ As @ Bs). k \<le> x" using p True False by (auto simp: As_def Bs_def)
      then have "seg (null_value m) ((P @ As @ Bs) @ S) x = seg l S x" using lw c(2) by (simp only: seg_append last_value_def) simp
      moreover have "seg (null_value m) ((P @ M) @ S) x = seg l S x" using pm c(2) by (simp only: seg_append last_value_def l_def) simp
      ultimately show ?thesis using False c(1) by simp
    qed
  next
    case False
    then have "\<forall>(k, v) \<in> set (As @ Bs @ S). x < k" "\<forall>(k, v) \<in> set (M @ S). x < k"
      using c(4,5) assms(3) by (auto simp: As_def Bs_def)
    note b = seg_below[OF this(1)] seg_below[OF this(2)]
    show ?thesis using False c(1) b by (simp add: seg_append[of _ P])
  qed
  have "InternalMap a b w m = Some ?m" using c(6) by (simp add: As_def Bs_def l_def)
  then show ?thesis using that r v by simp
qed

lemma continuous_size:
  assumes "range_ok m" "0 \<le> x" "seg (null_value m) (container m) x \<noteq> null_value m"
  defines "n \<equiv> ContinuousSizeInternal m x"
  shows "0 < n" "\<And>y. x \<le> y \<Longrightarrow> y < x + n \<Longrightarrow> seg (null_value m) (container m) y = seg (null_value m) (container m) x"
    "seg (null_value m) (container m) (x + n) \<noteq> seg (null_value m) (container m) x"
proof -
  have "key_min \<le> x" using assms(2) by (simp add: key_min_def)
  then obtain P k v S where c: "container m = P @ (k, v) # S" "k \<le> x" "\<forall>(k', v') \<in> set P. k' < k" "\<forall>(k', v') \<in> set S. x < k'"
    "GetFirstElementBeforeOrOn m x = (Some (k, v), S)" by (rule range_at[OF assms(1)])
  have sy: "seg (null_value m) (container m) y = seg v S y" if "x \<le> y" for y
  proof -
    have "\<forall>(k', v') \<in> set P. k' \<le> y" using c(2,3) that by fastforce
    then show ?thesis using that c(2) unfolding c(1) by (simp add: seg_append)
  qed
  have xv: "seg (null_value m) (container m) x = v" using sy[of x] seg_below[OF c(4)] by simp
  have "S \<noteq> []" using assms(1,3) xv unfolding range_ok_def c(1) by auto
  then obtain k' u ys where S: "S = (k', u) # ys" by (metis neq_Nil_conv prod.exhaust)
  have k': "x < k'" "\<forall>(k2, v') \<in> set ys. k' < k2" "v \<noteq> u"
    using c(4) assms(1) ascending_append[of "P @ [(k, v)]" S] coalesced_append[of "P @ [(k, v)]" S]
    unfolding S range_ok_def c(1) by (auto simp: ascending_def coalesced_def)
  have n: "n = k' - x" using c(5) S assms(3) xv by (simp add: n_def ContinuousSizeInternal_def)
  show "0 < n" using n k'(1) by simp
  show "seg (null_value m) (container m) y = seg (null_value m) (container m) x" if "x \<le> y" "y < x + n" for y
    using sy[OF that(1)] that(2) xv n S by simp
  show "seg (null_value m) (container m) (x + n) \<noteq> seg (null_value m) (container m) x"
    using sy[of k'] k' seg_below[OF k'(2), of u] xv n S by simp
qed

lemma clamp_bounds: "0 \<le> clamp x" "clamp x \<le> key_max"
proof -
  have "sint x < 2 ^ (LENGTH(64) - 1)" by (rule sint_lt)
  then show "0 \<le> clamp x" "clamp x \<le> key_max" by (simp_all add: clamp_def key_max_def)
qed

definition in_interval :: "u64 \<Rightarrow> u64 \<Rightarrow> u64 \<Rightarrow> bool" where
  "in_interval a b x \<longleftrightarrow> clamp a \<le> sint x \<and> sint x < clamp b"

lemma RangeMap_Map_ok:
  assumes "range_ok m" "clamp a < clamp b"
  obtains m' where "RangeMap_Map a b w m = Some m'" "range_ok m'" "null_value m' = null_value m"
    "\<And>x. GetValueAt m' x = (if in_interval a b x then w else GetValueAt m x)"
proof -
  obtain m' where m: "InternalMap (clamp a) (clamp b) w m = Some m'" "range_ok m'" "null_value m' = null_value m"
    "\<And>x. key_min \<le> x \<Longrightarrow> seg (null_value m) (container m') x =
       (if clamp a \<le> x \<and> x < clamp b then w else seg (null_value m) (container m) x)"
    using InternalMap_ok[OF assms(1) clamp_bounds(1) assms(2) clamp_bounds(2)] by blast
  have "GetValueAt m' x = (if in_interval a b x then w else GetValueAt m x)" for x
  proof (cases "sint x < 0")
    case True
    then have "\<not> in_interval a b x" using clamp_bounds(1)[of a] by (simp add: in_interval_def)
    then show ?thesis using True m(3) by (simp add: GetValueAt_def)
  next
    case False
    then have "key_min \<le> sint x" by (simp add: key_min_def)
    then show ?thesis using False GetValueInternal_seg[OF assms(1)] GetValueInternal_seg[OF m(2)] m(3,4)
      by (simp add: GetValueAt_def in_interval_def)
  qed
  then show ?thesis using that m(1-3) by (simp add: RangeMap_Map_def)
qed

lemma RangeMap_new_ok: "range_ok (RangeMap_new d)" "GetValueAt (RangeMap_new d) x = d" "null_value (RangeMap_new d) = d"
  by (simp_all add: range_ok_def RangeMap_new_def ascending_def coalesced_def GetValueAt_def GetValueInternal_def
        GetFirstElementBeforeOrOn_def before_def from_on_def)

section \<open>Properties\<close>

datatype module_op = OpMap u64 u64 nat | OpUnmap u64 u64

fun run_module_ops :: "module_op list \<Rightarrow> AddressSpaceModules \<Rightarrow> AddressSpaceModules option" where
  "run_module_ops [] s = Some s"
| "run_module_ops (OpMap a b m # ops) s = Option.bind (MapModule a b m s) (run_module_ops ops)"
| "run_module_ops (OpUnmap a b # ops) s = Option.bind (UnmapModule a b s) (run_module_ops ops)"

text \<open>The specification: a total function from addresses to modules, overwritten on an interval.\<close>

fun spec_op :: "module_op \<Rightarrow> (u64 \<Rightarrow> nat option) \<Rightarrow> u64 \<Rightarrow> nat option" where
  "spec_op (OpMap a b m) f = (\<lambda>x. if in_interval a b x then Some m else f x)"
| "spec_op (OpUnmap a b) f = (\<lambda>x. if in_interval a b x then None else f x)"

fun nonempty_op :: "module_op \<Rightarrow> bool" where
  "nonempty_op (OpMap a b m) = (clamp a < clamp b)"
| "nonempty_op (OpUnmap a b) = (clamp a < clamp b)"

definition modules_represent :: "AddressSpaceModules \<Rightarrow> (u64 \<Rightarrow> nat option) \<Rightarrow> bool" where
  "modules_represent s f \<longleftrightarrow> range_ok (modules_map s) \<and> null_value (modules_map s) = None \<and> GetValueAt (modules_map s) = f"

lemma module_op_simulates:
  assumes "modules_represent s f" "nonempty_op op"
  shows "\<exists>s'. run_module_ops [op] s = Some s' \<and> modules_represent s' (spec_op op f) \<and> default_module s' = default_module s"
proof (cases op)
  case (OpMap a b m)
  then have r: "range_ok (modules_map s)" "clamp a < clamp b" "null_value (modules_map s) = None" "GetValueAt (modules_map s) = f"
    using assms by (auto simp: modules_represent_def)
  obtain m' where "RangeMap_Map a b (Some m) (modules_map s) = Some m'" "range_ok m'" "null_value m' = null_value (modules_map s)"
    "\<And>x. GetValueAt m' x = (if in_interval a b x then Some m else GetValueAt (modules_map s) x)"
    by (rule RangeMap_Map_ok[OF r(1,2)]) blast
  then show ?thesis using OpMap r by (simp add: MapModule_def modules_represent_def fun_eq_iff)
next
  case (OpUnmap a b)
  then have r: "range_ok (modules_map s)" "clamp a < clamp b" "null_value (modules_map s) = None" "GetValueAt (modules_map s) = f"
    using assms by (auto simp: modules_represent_def)
  obtain m' where "RangeMap_Map a b None (modules_map s) = Some m'" "range_ok m'" "null_value m' = null_value (modules_map s)"
    "\<And>x. GetValueAt m' x = (if in_interval a b x then None else GetValueAt (modules_map s) x)"
    by (rule RangeMap_Map_ok[OF r(1,2)]) blast
  then show ?thesis using OpUnmap r by (simp add: UnmapModule_def Unmap_def modules_represent_def fun_eq_iff)
qed

lemma run_module_ops_Cons: "run_module_ops (op # ops) s = Option.bind (run_module_ops [op] s) (run_module_ops ops)"
  by (cases op) (simp_all add: bind_assoc Option.bind_assoc)

lemma module_ops_simulate:
  "modules_represent s f \<Longrightarrow> \<forall>op \<in> set ops. nonempty_op op \<Longrightarrow>
   \<exists>s'. run_module_ops ops s = Some s' \<and> modules_represent s' (fold spec_op ops f) \<and> default_module s' = default_module s"
proof (induction ops arbitrary: s f)
  case (Cons op ops)
  then obtain s1 where "run_module_ops [op] s = Some s1" "modules_represent s1 (spec_op op f)" "default_module s1 = default_module s"
    using module_op_simulates[OF Cons.prems(1), of op] by auto
  then show ?case using Cons.IH[of s1 "spec_op op f"] Cons.prems(2) by (simp add: run_module_ops_Cons[of op ops])
qed simp

definition modules_new :: "nat option \<Rightarrow> AddressSpaceModules" where
  "modules_new d = \<lparr>modules_map = RangeMap_new None, default_module = d\<rparr>"

lemma modules_new_represent: "modules_represent (modules_new d) (\<lambda>_. None)"
  by (simp add: modules_represent_def modules_new_def RangeMap_new_ok fun_eq_iff)

text \<open>
  C4: every sequence of module mappings and unmappings of non-empty ranges succeeds and refines the
  overwriting of a function: a lookup finds the module that the last operation covering the address
  mapped there, and the default module if none did or it was unmapped.
\<close>
theorem module_map_refines:
  assumes "\<forall>op \<in> set ops. nonempty_op op"
  shows "\<exists>s. run_module_ops ops (modules_new d) = Some s \<and> range_ok (modules_map s) \<and>
    (\<forall>x. GetModule s x = (case fold spec_op ops (\<lambda>_. None) x of None \<Rightarrow> d | Some m \<Rightarrow> Some m))"
proof -
  obtain s where "run_module_ops ops (modules_new d) = Some s" "modules_represent s (fold spec_op ops (\<lambda>_. None))"
    "default_module s = d"
    using module_ops_simulate[OF modules_new_represent assms] by (auto simp: modules_new_def)
  then show ?thesis by (auto simp: modules_represent_def GetModule_def)
qed

theorem module_map_refines_witness:
  "\<exists>s. run_module_ops [OpMap 0x1000 0x9000 1, OpMap 0x3000 0x5000 2, OpUnmap 0x4000 0x6000] (modules_new (Some 0)) = Some s \<and>
     GetModule s 0x2000 = Some 1 \<and> GetModule s 0x3800 = Some 2 \<and> GetModule s 0x4800 = Some 0 \<and> GetModule s 0x8000 = Some 1"
proof -
  let ?ops = "[OpMap 0x1000 0x9000 1, OpMap 0x3000 0x5000 2, OpUnmap 0x4000 0x6000]"
  have "\<forall>op \<in> set ?ops. nonempty_op op" by code_simp
  note t = module_map_refines[OF this, of "Some 0"]
  have "fold spec_op ?ops (\<lambda>_. None) 0x2000 = Some 1" "fold spec_op ?ops (\<lambda>_. None) 0x3800 = Some 2"
    "fold spec_op ?ops (\<lambda>_. None) 0x4800 = None" "fold spec_op ?ops (\<lambda>_. None) 0x8000 = Some 1" by code_simp+
  then show ?thesis using t by fastforce
qed

text \<open>An empty range is not ignored: the mapping then covers everything up to the next key.\<close>

lemma empty_range_maps:
  "map_option (\<lambda>s. GetModule s 0x7000) (run_module_ops [OpMap 0x1000 0x1000 1] (modules_new (Some 0))) = Some (Some 1)"
  by code_simp

end
