(* ===== verification/Spec2Isabelle.thy ===== *)
theory Spec2Isabelle
  imports Dead_Code Scalar_Correct Memory_Correct Edge_Flags Smc_Pages Range_Map
begin

text \<open>
  \<^bold>\<open>SwiftVM: a verification library for a dynamic binary translator\<close>

  SwiftVM translates guest machine code through an intermediate representation to host code, runs the
  host code from a code cache, and links, invalidates and reclaims translations while several guest
  threads run.  The library models the parts of the runtime that carry its correctness, under
  \<^verbatim>\<open>src/source/runtime/\<close>; paths below are relative to it.

  \<^bold>\<open>The parts and how they interact.\<close>  A front end decodes guest code into blocks of IR instructions.
  Optimisation passes rewrite the blocks.  The interpreter runs them directly, and is the reference
  semantics of the host code generators.  Generated code lives in code regions; a block leaves to the
  next one through a dispatch table or through a branch that the link manager has patched.  A module
  owns the nodes (blocks and functions) of an address range and their code; the address space maps
  addresses to modules.  When the guest writes to a page that holds translated code, the tracker of
  self-modifying code takes the fault, clears the dispatch slots, restores the patched branches,
  detaches the nodes, and retires their code, which is freed once no thread can still run it.

  \<^bold>\<open>Conventions\<close> (\<open>Prelude\<close>).  A C++ class is a record, an enumeration a datatype, a machine integer a
  word of its width, a pointer to an object its index or address.  A function that may fail an assertion
  returns an option, \<^const>\<open>None\<close> being the failure; a shift beyond the width, a read past an argument
  array and the use of an end iterator are failures too.  State is passed explicitly.  A map is an association list in the
  order the code iterates it, or a function.  Code outside the repository is a parameter: the host
  functions that guest code calls, floating-point operations and \<^verbatim>\<open>cpuid\<close> are fields of \<open>HostEnv\<close>, the
  arena allocator is an \<open>Mspace\<close>, and \<^verbatim>\<open>mprotect\<close> is a predicate.

  \<^bold>\<open>Intermediate representation.\<close>  \<open>IR_Types\<close> (\<^verbatim>\<open>ir/ir_types.h\<close>, \<^verbatim>\<open>ir_meta.cpp\<close>, \<^verbatim>\<open>args.h\<close>) has the types, opcodes
  and their metadata; \<open>IR_Inst\<close> and \<open>IR_Uses\<close> (\<^verbatim>\<open>ir/instr.h\<close>, \<^verbatim>\<open>instr.cpp\<close>) the instruction store,
  argument access, use counts and the chains of pseudo-operations.  Shown: attaching and releasing a use
  is a round trip on counts and chains.

  \<^bold>\<open>Interpreter\<close> (\<^verbatim>\<open>backend/interp/\<close>).  \<open>Interp_State\<close>, \<open>Interp_Flags\<close>, \<open>Interp_Scalar\<close>, \<open>Interp_Memory\<close>,
  \<open>Interp_Vector\<close>, \<open>Interp_Crypto\<close> and \<open>Interp_Run\<close> have one definition per handler, named \<open>Run...\<close> as
  the opcode, and the loop over a block; \<open>Word_Arith\<close> has the wide arithmetic behind them
  (\<^verbatim>\<open>common/div128.cpp\<close>).  \<open>Interp_Laws\<close> and \<open>Interp_Code\<close> show what a step may read and write.
  \<open>Interp_Correct\<close>: arithmetic followed by a flag capture and a condition test means the comparison of
  the operands at the instruction's width.  \<open>Scalar_Correct\<close>: division, high products, shifts, bit fields
  and byte swaps.  \<open>Memory_Correct\<close>: the wild-pointer guard, store followed by load, uniforms, compare
  and swap, over a locale of memory cells.  \<open>Samples\<close> holds concrete programs.

  \<^bold>\<open>Dead-code elimination\<close> (\<open>Dead_Code\<close>, \<^verbatim>\<open>ir/opts/deadcode_elimination_pass.cpp\<close>).  The pass terminates and
  every run of the interpreter that ends is preserved, by a simulation for one deletion.  The interpreter
  loop takes fuel; the theorems hold for every amount of it that lets the original run end.

  \<^bold>\<open>Dispatch and code memory.\<close>  \<open>Translate_Table\<close> (\<^verbatim>\<open>backend/translate_table.h\<close>): the open-addressing table,
  its probe invariant, stability of slots and the snapshot of the code cache file, through the locale
  \<open>dispatch_table\<close>.  \<open>Code_Region\<close> (\<^verbatim>\<open>backend/code_cache.cpp\<close>): the two views of a region, allocation, and
  AArch64 branch words.  \<open>Edge_Flags\<close> (\<^verbatim>\<open>backend/edge_flags_state.h\<close>): flags pending on an edge.

  \<^bold>\<open>Direct linking.\<close>  \<open>Link_Manager\<close> (\<^verbatim>\<open>backend/link_manager.h\<close>, \<^verbatim>\<open>link_manager.cpp\<close>,
  \<^verbatim>\<open>link_manager_flags.cpp\<close>) has every operation of the manager over its record of sites, targets, indexes
  and signal nodes, with the code words it patches.  \<open>Link_Invariant\<close> has the invariant \<open>lm_ok\<close> and its
  preservation; \<open>Link_Correct\<close> its consequences along every sequence of operations; \<open>Link_Slow\<close> the cold linker
  (\<^verbatim>\<open>backend/arm64/region_link_trampoline.cpp\<close>) and the delinking of invalidated targets.  The cold linker
  makes at most three attempts, as the code does.

  \<^bold>\<open>Modules.\<close>  \<open>Range_Map\<close> (\<^verbatim>\<open>common/range_map.h\<close>, \<^verbatim>\<open>backend/address_space.cpp\<close>): the interval map refines the
  update of a function.  \<open>Address_Map\<close> (\<^verbatim>\<open>common/address_hash_map.h\<close>): the bucketed map keeps the laws of the
  locale \<open>address_map\<close>.  \<open>Module_Nodes\<close> (\<^verbatim>\<open>backend/module.cpp\<close>): nodes, reference counts, detaching,
  reclaiming, and the fault table.

  \<^bold>\<open>Self-modifying code\<close> (\<^verbatim>\<open>backend/smc_tracker.cpp\<close>).  \<open>Smc_Epochs\<close>: the entry protocol of the runtimes,
  retirement and reclamation as atomic steps in any interleaving (\<open>smc_exec\<close>, \<open>smc_trace\<close>), with what
  each thread can execute; a running thread never has freed code within reach, for traces shorter
  than the range of the epoch counter, and retired code is eventually freed.  \<open>Smc_Pages\<close>: page
  records, the write fault, the closing of the write window, synchronous invalidation, composed of
  the parts above.

  \<^bold>\<open>Not modelled.\<close>  The front ends and the host code generators emit through assembler libraries or
  decode several instruction sets, and are larger than the rest of the runtime together; the interpreter stands for the
  semantics of the IR.  The remaining passes (constant folding, flags, uniforms, widths, hoisting, register
  allocation) are left out; their contract would be the one shown for dead-code elimination.  Floating-point
  handlers are parameters.  Files, \<^verbatim>\<open>mmap\<close>, signals, system calls, logging, profiling counters and
  configuration are host services.  Locks are not modelled: an operation that runs under a lock is one step, except where
  the code drops the lock on purpose.  The memory model is sequentially consistent, as the epoch
  protocol demands of its atomics; instruction fetch alone may be stale.
\<close>

end
